(* ===== verification/Pix_Prelude.thy ===== *)
theory Pix_Prelude
  imports Complex_Main "HOL-Library.Word" "HOL-Library.Signed_Division"
    "HOL-Library.Finite_Map" "HOL-Library.Multiset"
begin

text \<open>
  Shared vocabulary of the development: bytes and Go strings, 64-bit integers, run-time panics,
  the error monad, big-endian 32-bit integers, and lemmas on lists and finite maps that several
  components use.

  A Go \<open>string\<close> is a sequence of bytes, and so is an Isabelle \<open>string\<close> (a \<open>char\<close> is a byte);
  a Go \<open>[]byte\<close> is a list of 8-bit words.  The Go conversions between the two are
  \<open>bytes_of_string\<close> and \<open>string_of_bytes\<close>.  A Go map is a finite map \<open>('k, 'v) fmap\<close>.
  Go's \<open>int\<close> and \<open>int64\<close> are integers, with the wrap-around of the 64-bit types written out
  as \<open>wrap64\<close> where a sum can leave the range.  A Go run-time panic is a value of \<open>go_panic\<close>.
\<close>

unbundle bit_operations_syntax

named_theorems go_std
  \<open>characteristic equations of the models of the standard library\<close>

section \<open>Types\<close>

type_synonym byte = "8 word"
type_synonym bytes = "byte list"
type_synonym id20 = "byte list"  \<comment> \<open>a Go \<open>[20]byte\<close>: info hashes and peer ids\<close>

datatype go_panic =
    MakesliceLen          \<comment> \<open>\<open>make([]T, n)\<close> with \<open>n\<close> out of range\<close>
  | SliceBounds           \<comment> \<open>a slice expression out of range\<close>
  | CloseClosedChannel    \<comment> \<open>\<open>close\<close> of a closed channel\<close>
  | DivideByZero          \<comment> \<open>integer division by zero\<close>
  | NilDereference        \<comment> \<open>a method call on a nil pointer or interface\<close>
  | NegativeRepeat        \<comment> \<open>\<open>strings.Repeat\<close> with a negative count\<close>
  | IndexOutOfRange       \<comment> \<open>an index expression out of range\<close>

text \<open>A Go function that may return an error or panic returns \<open>'e fail + 'a\<close>.\<close>

datatype 'e fail = Err 'e | Panic go_panic

definition zero20 :: id20 where
  "zero20 = replicate 20 0"

definition is20 :: "id20 \<Rightarrow> bool" where
  "is20 x \<longleftrightarrow> length x = 20"

lemma is20_zero20 [simp]: "is20 zero20"
  by (simp add: is20_def zero20_def)

section \<open>64-bit signed integers\<close>

definition int64_ok :: "int \<Rightarrow> bool" where
  "int64_ok x \<longleftrightarrow> - (2 ^ 63) \<le> x \<and> x < 2 ^ 63"

definition wrap64 :: "int \<Rightarrow> int" where
  "wrap64 x = (x + 2 ^ 63) mod 2 ^ 64 - 2 ^ 63"

lemma int64_ok_wrap64 [simp]: "int64_ok (wrap64 x)"
proof -
  have "0 \<le> (x + 2 ^ 63) mod 2 ^ 64" and "(x + 2 ^ 63) mod 2 ^ 64 < 2 ^ 64"
    by simp_all
  then show ?thesis by (simp add: int64_ok_def wrap64_def)
qed

lemma wrap64_id [simp]: "int64_ok x \<Longrightarrow> wrap64 x = x"
  by (simp add: int64_ok_def wrap64_def)

lemma int64_ok_small [intro]: "0 \<le> x \<Longrightarrow> x < 2 ^ 63 \<Longrightarrow> int64_ok x"
  by (simp add: int64_ok_def)

lemma int64_ok_of_nat: "n < 2 ^ 62 \<Longrightarrow> int64_ok (int n)"
  by (simp add: int64_ok_def)

text \<open>The largest allocation Go's \<open>make\<close> accepts on a 64-bit platform; above it, \<open>make\<close> panics.\<close>

definition max_alloc :: int where
  "max_alloc = 2 ^ 48"

text \<open>\<open>make([]byte, n)\<close>, and the slice expression \<open>xs[lo:hi]\<close> on a slice whose capacity is its length.\<close>

definition make_bytes :: "int \<Rightarrow> go_panic + bytes" where
  "make_bytes n = (if n < 0 \<or> n > max_alloc then Inl MakesliceLen else Inr (replicate (nat n) 0))"

definition go_slice :: "'a list \<Rightarrow> int \<Rightarrow> int \<Rightarrow> go_panic + 'a list" where
  "go_slice xs lo hi =
     (if 0 \<le> lo \<and> lo \<le> hi \<and> hi \<le> int (length xs)
      then Inr (take (nat (hi - lo)) (drop (nat lo) xs))
      else Inl SliceBounds)"

lemma go_slice_nat:
  "a \<le> b \<Longrightarrow> b \<le> length xs \<Longrightarrow> go_slice xs (int a) (int b) = Inr (take (b - a) (drop a xs))"
  by (simp add: go_slice_def nat_diff_distrib)

section \<open>The error monad\<close>

definition bindE :: "'e + 'a \<Rightarrow> ('a \<Rightarrow> 'e + 'b) \<Rightarrow> 'e + 'b" where
  "bindE m f = (case m of Inl e \<Rightarrow> Inl e | Inr x \<Rightarrow> f x)"

lemma bindE_simps [simp]:
  "bindE (Inl e) f = Inl e"
  "bindE (Inr x) f = f x"
  by (simp_all add: bindE_def)

lemma bindE_Inr_iff: "bindE m f = Inr y \<longleftrightarrow> (\<exists>x. m = Inr x \<and> f x = Inr y)"
  by (cases m) simp_all

lemma bindE_Inl_iff: "bindE m f = Inl e \<longleftrightarrow> m = Inl e \<or> (\<exists>x. m = Inr x \<and> f x = Inl e)"
  by (cases m) simp_all

lemma bindE_cong [fundef_cong]:
  "m = m' \<Longrightarrow> (\<And>x. m' = Inr x \<Longrightarrow> f x = f' x) \<Longrightarrow> bindE m f = bindE m' f'"
  by (cases m') (simp_all add: bindE_def)

lemma bindE_assoc: "bindE (bindE m f) g = bindE m (\<lambda>x. bindE (f x) g)"
  by (cases m) simp_all

text \<open>A Go loop that leaves at the first error: \<open>mapE\<close> collects the results in order.\<close>

fun mapE :: "('a \<Rightarrow> 'e + 'b) \<Rightarrow> 'a list \<Rightarrow> 'e + 'b list" where
  "mapE f [] = Inr []"
| "mapE f (x # xs) = bindE (f x) (\<lambda>y. bindE (mapE f xs) (\<lambda>ys. Inr (y # ys)))"

lemma mapE_Inr_iff: "mapE f xs = Inr ys \<longleftrightarrow> list_all2 (\<lambda>x y. f x = Inr y) xs ys"
  by (induction xs arbitrary: ys) (auto simp: bindE_Inr_iff list_all2_Cons1)

lemma mapE_map: "(\<And>x. x \<in> set xs \<Longrightarrow> f (g x) = Inr x) \<Longrightarrow> mapE f (map g xs) = Inr xs"
  by (induction xs) simp_all

lemma mapE_enumerate:
  "(\<And>i x. x \<in> set xs \<Longrightarrow> f (i, g x) = Inr x) \<Longrightarrow> mapE f (enumerate n (map g xs)) = Inr xs"
  by (induction xs arbitrary: n) simp_all

lemma mapE_list_all:
  assumes "mapE f xs = Inr ys" and "\<And>x y. x \<in> set xs \<Longrightarrow> f x = Inr y \<Longrightarrow> P y"
  shows "list_all P ys"
  using assms
proof (induction xs arbitrary: ys)
  case Nil
  then show ?case by simp
next
  case (Cons x xs)
  then obtain y ys' where y: "ys = y # ys'" "f x = Inr y" "mapE f xs = Inr ys'"
    by (auto simp: bindE_Inr_iff)
  have "list_all P ys'" by (rule Cons.IH [OF y(3)]) (meson Cons.prems(2) list.set_intros(2))
  moreover have "P y" using Cons.prems(2) [OF _ y(2)] by simp
  ultimately show ?case using y(1) by simp
qed

lemma in_enumerate: "(i, x) \<in> set (enumerate n xs) \<Longrightarrow> x \<in> set xs"
  by (simp add: enumerate_eq_zip set_zip_rightD)

section \<open>Bytes and strings\<close>

definition bytes_of_string :: "string \<Rightarrow> bytes" where
  "bytes_of_string s = map of_char s"

definition string_of_bytes :: "bytes \<Rightarrow> string" where
  "string_of_bytes bs = map (\<lambda>b. char_of (unat b)) bs"

lemma of_char_lt_256: "(of_char c :: nat) < 256"
  by simp

lemma unat_of_char [simp]: "unat (of_char c :: byte) = of_char c"
proof -
  have "(of_char c :: byte) = word_of_nat (of_char c)"
    by (simp only: of_nat_of_char)
  then show ?thesis by (simp add: unsigned_of_nat take_bit_eq_mod)
qed

lemma string_of_bytes_inverse [simp]: "string_of_bytes (bytes_of_string s) = s"
  by (simp add: string_of_bytes_def bytes_of_string_def comp_def)

lemma of_char_char_of_unat [simp]: "(of_char (char_of (unat b)) :: byte) = b" for b :: byte
proof -
  have "unat b < 2 ^ LENGTH(8)" by (rule unsigned_less)
  then have "unat b < 256" by simp
  then have "unat (of_char (char_of (unat b)) :: byte) = unat b" by simp
  then show ?thesis by (simp only: word_unat_eq_iff)
qed

lemma bytes_of_string_inverse [simp]: "bytes_of_string (string_of_bytes bs) = bs"
  by (induction bs) (simp_all add: string_of_bytes_def bytes_of_string_def)

lemma length_bytes_of_string [simp]: "length (bytes_of_string s) = length s"
  by (simp add: bytes_of_string_def)

lemma length_string_of_bytes [simp]: "length (string_of_bytes bs) = length bs"
  by (simp add: string_of_bytes_def)

lemma string_of_bytes_inj [simp]: "string_of_bytes xs = string_of_bytes ys \<longleftrightarrow> xs = ys"
  by (metis bytes_of_string_inverse)

section \<open>Big-endian 32-bit integers\<close>

text \<open>\<open>binary.BigEndian.PutUint32\<close> and \<open>binary.BigEndian.Uint32\<close>.\<close>

definition put_u32 :: "32 word \<Rightarrow> bytes" where
  "put_u32 v = [ucast (drop_bit 24 v), ucast (drop_bit 16 v), ucast (drop_bit 8 v), ucast v]"

fun get_u32 :: "bytes \<Rightarrow> 32 word" where
  "get_u32 (a # b # c # d # _) =
     (ucast d OR push_bit 8 (ucast c)) OR (push_bit 16 (ucast b) OR push_bit 24 (ucast a))"
| "get_u32 _ = 0"

lemma length_put_u32 [simp]: "length (put_u32 v) = 4"
  by (simp add: put_u32_def)

lemma get_put_u32 [simp]: "get_u32 (put_u32 v @ rest) = v"
proof (rule bit_word_eqI)
  fix n
  assume "n < LENGTH(32)"
  then consider "n < 8" | "8 \<le> n" "n < 16" | "16 \<le> n" "n < 24" | "24 \<le> n" "n < 32"
    by fastforce
  then show "bit (get_u32 (put_u32 v @ rest)) n = bit v n"
    by cases (auto simp: put_u32_def bit_simps less_diff_conv2)
qed

lemma get_put_u32_Nil [simp]: "get_u32 (put_u32 v) = v"
  using get_put_u32 [of v "[]"] by simp

lemma take_put_u32 [simp]: "take 4 (put_u32 v @ rest) = put_u32 v"
  and drop_put_u32 [simp]: "drop 4 (put_u32 v @ rest) = rest"
  by simp_all

section \<open>Lists and finite maps\<close>

lemma less_2_iff: "i < 2 \<longleftrightarrow> i = 0 \<or> i = 1" for i :: nat
  by auto

lemma sorted_wrt_take_drop:
  assumes "sorted_wrt P xs" and "x \<in> set (take n xs)" and "y \<in> set (drop n xs)"
  shows "P x y"
proof -
  have "sorted_wrt P (take n xs @ drop n xs)" using assms(1) by simp
  with assms(2,3) show ?thesis unfolding sorted_wrt_append by blast
qed

lemma fmdom'_lookup_iff: "k \<in> fmdom' m \<longleftrightarrow> (\<exists>v. fmlookup m k = Some v)"
  by (simp add: fmlookup_dom'_iff)

lemma fold_fmupd_notin:
  "k \<notin> fst ` set kvs \<Longrightarrow> fmlookup (foldl (\<lambda>m (k, v). fmupd k v m) m kvs) k = fmlookup m k"
  by (induction kvs arbitrary: m) auto

text \<open>The order in which the runtime walks the keys of a map: any enumeration, of any set.\<close>

type_synonym map_order = "string fset \<Rightarrow> string list"

definition order_ok :: "map_order \<Rightarrow> bool" where
  "order_ok c \<longleftrightarrow> (\<forall>S. distinct (c S) \<and> set (c S) = fset S)"

end
