(* ===== verification/Go_Hex.thy ===== *)
theory Go_Hex
  imports Pix_Prelude
begin

text \<open>
  Hexadecimal text: the verb \<open>%x\<close> on a byte slice (lower case, two digits a byte) and
  \<open>hex.DecodeString\<close>, which accepts both cases and reports the first invalid character or an odd
  length.
\<close>

definition hex_char :: "nat \<Rightarrow> char" where
  "hex_char n = ''0123456789abcdef'' ! n"

definition hex_upper :: "nat \<Rightarrow> char" where
  "hex_upper n = ''0123456789ABCDEF'' ! n"

definition hex_val :: "char \<Rightarrow> nat option" where
  "hex_val c =
     (let n = (of_char c :: nat) in
      if 48 \<le> n \<and> n \<le> 57 then Some (n - 48)
      else if 97 \<le> n \<and> n \<le> 102 then Some (n - 87)
      else if 65 \<le> n \<and> n \<le> 70 then Some (n - 55)
      else None)"

definition hex_byte :: "byte \<Rightarrow> string" where
  "hex_byte b = [hex_char (unat b div 16), hex_char (unat b mod 16)]"

definition hex_encode :: "bytes \<Rightarrow> string" where
  "hex_encode bs = concat (map hex_byte bs)"

datatype hex_err = InvalidHexByte char | HexErrLength

fun hex_decode :: "string \<Rightarrow> hex_err + bytes" where
  "hex_decode [] = Inr []"
| "hex_decode [c] = Inl (if hex_val c = None then InvalidHexByte c else HexErrLength)"
| "hex_decode (a # b # cs) =
     (case hex_val a of
        None \<Rightarrow> Inl (InvalidHexByte a)
      | Some x \<Rightarrow>
          (case hex_val b of
             None \<Rightarrow> Inl (InvalidHexByte b)
           | Some y \<Rightarrow> bindE (hex_decode cs) (\<lambda>bs. Inr (word_of_nat (16 * x + y) # bs))))"

lemma less_16_cases:
  "n < (16 :: nat) \<Longrightarrow> n \<in> {0, 1, 2, 3, 4, 5, 6, 7, 8, 9, 10, 11, 12, 13, 14, 15}"
  by (simp add: numeral_eq_Suc less_Suc_eq)

lemma hex_val_char [simp]: "n < 16 \<Longrightarrow> hex_val (hex_char n) = Some n"
  by (drule less_16_cases) (auto simp: hex_val_def hex_char_def)

lemma hex_val_upper [simp]: "n < 16 \<Longrightarrow> hex_val (hex_upper n) = Some n"
  by (drule less_16_cases) (auto simp: hex_val_def hex_upper_def)

lemma nibble_less [simp]: "unat (b :: byte) div 16 < 16"
proof -
  have "unat b < 2 ^ LENGTH(8)" by (rule unsigned_less)
  then show ?thesis by simp
qed

lemma nibbles_join [simp]: "(word_of_nat (16 * (unat b div 16) + unat b mod 16) :: byte) = b"
  by simp

lemma hex_decode_encode [simp]: "hex_decode (hex_encode bs) = Inr bs"
  by (induction bs) (simp_all add: hex_encode_def hex_byte_def del: mult_div_mod_eq)

lemma length_hex_encode [simp]: "length (hex_encode bs) = 2 * length bs"
  by (induction bs) (simp_all add: hex_encode_def hex_byte_def)

lemma hex_encode_Nil_iff [simp]: "hex_encode bs = [] \<longleftrightarrow> bs = []"
  by (metis length_0_conv length_hex_encode mult_eq_0_iff zero_neq_numeral)

lemma hex_decode_length: "hex_decode s = Inr bs \<Longrightarrow> length s = 2 * length bs"
  by (induction s arbitrary: bs rule: hex_decode.induct)
    (auto simp: bindE_Inr_iff split: option.splits if_splits)

end
