(* ===== verification/Tracker_Store.thy ===== *)
theory Tracker_Store
  imports Go_Hex
begin

text \<open>
  The tracker's data, \<open>src/tracker/tracker.go\<close>: peers, the statistics of a torrent, and the \<open>Storage\<close>
  interface as a record of operations over a state \<open>'s\<close>.  What the runtime decides for an operation
  that walks a set (the order of a Go map) is an argument of type \<open>'o\<close>.  The two operations that loop
  on the answers of a server return an option, where \<open>None\<close> is a call that never returns.  The locale \<open>peer_storage\<close>
  is the contract the tracker's handlers need from an implementation, stated over an abstract view:
  the announcements on record for an info hash.
\<close>

section \<open>Data\<close>

record tpeer =
  ID :: string
  IP :: string
  Port :: int
  Uploaded :: int
  Downloaded :: int
  Left :: int
  LastSeen :: int

record TorrentInfo =
  InfoHash :: id20
  Seeders :: "string list"
  Leechers :: "string list"
  Completed :: int

datatype store_err = PeerNotFound string | BackendError

record ('s, 'o) Storage =
  st_AddPeer :: "'s \<Rightarrow> id20 \<Rightarrow> tpeer \<Rightarrow> store_err option \<times> 's"
  st_RemovePeer :: "'s \<Rightarrow> id20 \<Rightarrow> string \<Rightarrow> store_err option \<times> 's"
  st_GetPeer :: "'s \<Rightarrow> string \<Rightarrow> store_err + tpeer"
  st_GetPeers :: "'s \<Rightarrow> 'o \<Rightarrow> id20 \<Rightarrow> int \<Rightarrow> store_err + tpeer list"
  st_GetSeeders :: "'s \<Rightarrow> 'o \<Rightarrow> id20 \<Rightarrow> int \<Rightarrow> store_err + tpeer list"
  st_GetLeechers :: "'s \<Rightarrow> 'o \<Rightarrow> id20 \<Rightarrow> int \<Rightarrow> store_err + tpeer list"
  st_UpdatePeerLastSeen :: "'s \<Rightarrow> int \<Rightarrow> string \<Rightarrow> store_err option \<times> 's"
  st_GetTorrentStats :: "'s \<Rightarrow> 'o \<Rightarrow> id20 \<Rightarrow> store_err + TorrentInfo"
  st_IncrementCompleted :: "'s \<Rightarrow> id20 \<Rightarrow> store_err option \<times> 's"
  st_GetActiveTorrents :: "'s \<Rightarrow> 'o \<Rightarrow> (store_err + string list) option"
  st_CleanupExpiredPeers :: "'s \<Rightarrow> 'o \<Rightarrow> int \<Rightarrow> (store_err option \<times> 's) option"
  st_Close :: "'s \<Rightarrow> store_err option \<times> 's"

text \<open>The operations that change a storage, and a sequence of them.\<close>

datatype store_op = AddOp id20 tpeer | RemoveOp id20 string | CompletedOp id20

definition apply_op :: "('s, 'o) Storage \<Rightarrow> 's \<Rightarrow> store_op \<Rightarrow> 's" where
  "apply_op st s op =
     (case op of
        AddOp h p \<Rightarrow> snd (st_AddPeer st s h p)
      | RemoveOp h i \<Rightarrow> snd (st_RemovePeer st s h i)
      | CompletedOp h \<Rightarrow> snd (st_IncrementCompleted st s h))"

definition run_ops :: "('s, 'o) Storage \<Rightarrow> 's \<Rightarrow> store_op list \<Rightarrow> 's" where
  "run_ops st s ops = foldl (apply_op st) s ops"

fun op_hash :: "store_op \<Rightarrow> id20" where
  "op_hash (AddOp h p) = h"
| "op_hash (RemoveOp h i) = h"
| "op_hash (CompletedOp h) = h"

fun op_peer :: "store_op \<Rightarrow> string option" where
  "op_peer (AddOp h p) = Some (ID p)"
| "op_peer (RemoveOp h i) = Some i"
| "op_peer (CompletedOp h) = None"

text \<open>
  The specification both storages are measured against: what is on record after a history of
  operations, the latest one first.  A peer has one record, set by its last announcement for any
  torrent and dropped by its last stop for any torrent; it belongs to a torrent when the last
  operation for that torrent and peer is an announcement.
\<close>

primrec trace_peer :: "store_op list \<Rightarrow> string \<Rightarrow> tpeer option" where
  "trace_peer [] i = None"
| "trace_peer (op # ops) i =
     (case op of
        AddOp h p \<Rightarrow> if ID p = i then Some p else trace_peer ops i
      | RemoveOp h j \<Rightarrow> if j = i then None else trace_peer ops i
      | CompletedOp h \<Rightarrow> trace_peer ops i)"

primrec trace_member :: "store_op list \<Rightarrow> id20 \<Rightarrow> string \<Rightarrow> bool" where
  "trace_member [] h i = False"
| "trace_member (op # ops) h i =
     (if op_hash op = h \<and> op_peer op = Some i then (case op of AddOp h' p \<Rightarrow> True | _ \<Rightarrow> False)
      else trace_member ops h i)"

primrec trace_count :: "store_op list \<Rightarrow> id20 \<Rightarrow> int" where
  "trace_count [] h = 0"
| "trace_count (op # ops) h =
     (if op = CompletedOp h then wrap64 (trace_count ops h + 1) else trace_count ops h)"

definition trace_view :: "store_op list \<Rightarrow> id20 \<Rightarrow> string \<Rightarrow> tpeer option" where
  "trace_view ops h i = (if trace_member ops h i then trace_peer ops i else None)"

section \<open>The contract\<close>

text \<open>What a list of peers returned for a view may look like: \<open>n\<close> is the limit of the caller.\<close>

definition peers_of_view :: "(string \<Rightarrow> tpeer option) \<Rightarrow> int \<Rightarrow> tpeer list \<Rightarrow> bool" where
  "peers_of_view v n ps \<longleftrightarrow>
     distinct (map ID ps) \<and> (\<forall>p \<in> set ps. v (ID p) = Some p) \<and>
     int (length ps) = min (int (card (dom v))) (max 0 n)"

text \<open>
  \<open>inv\<close> is the implementation's own invariant, \<open>ok\<close> says that an order is one the runtime can
  choose, \<open>view s h\<close> maps a peer id to the announcement on record for the info hash, and \<open>count s h\<close>
  is the number of completed downloads.
\<close>

locale peer_storage =
  fixes st :: "('s, 'o) Storage"
    and inv :: "'s \<Rightarrow> bool"
    and ok :: "'o \<Rightarrow> bool"
    and view :: "'s \<Rightarrow> id20 \<Rightarrow> string \<Rightarrow> tpeer option"
    and count :: "'s \<Rightarrow> id20 \<Rightarrow> int"
  assumes add_ok: "inv s \<Longrightarrow> is20 h \<Longrightarrow> st_AddPeer st s h p = (e, s') \<Longrightarrow> e = None \<and> inv s'"
    and add_view: "inv s \<Longrightarrow> is20 h \<Longrightarrow> st_AddPeer st s h p = (e, s') \<Longrightarrow> view s' h (ID p) = Some p"
    and add_other: "inv s \<Longrightarrow> is20 h \<Longrightarrow> st_AddPeer st s h p = (e, s') \<Longrightarrow> is20 h' \<Longrightarrow>
      i \<noteq> ID p \<Longrightarrow> view s' h' i = view s h' i"
    and add_range: "inv s \<Longrightarrow> is20 h \<Longrightarrow> st_AddPeer st s h p = (e, s') \<Longrightarrow> is20 h' \<Longrightarrow>
      view s' h' (ID p) \<in> {None, Some p}"
    and add_count: "inv s \<Longrightarrow> is20 h \<Longrightarrow> st_AddPeer st s h p = (e, s') \<Longrightarrow> is20 h' \<Longrightarrow>
      count s' h' = count s h'"
    and remove_ok: "inv s \<Longrightarrow> is20 h \<Longrightarrow> st_RemovePeer st s h i = (e, s') \<Longrightarrow> e = None \<and> inv s'"
    and remove_view: "inv s \<Longrightarrow> is20 h \<Longrightarrow> st_RemovePeer st s h i = (e, s') \<Longrightarrow> view s' h i = None"
    and remove_other: "inv s \<Longrightarrow> is20 h \<Longrightarrow> st_RemovePeer st s h i = (e, s') \<Longrightarrow> is20 h' \<Longrightarrow>
      j \<noteq> i \<Longrightarrow> view s' h' j = view s h' j"
    and remove_range: "inv s \<Longrightarrow> is20 h \<Longrightarrow> st_RemovePeer st s h i = (e, s') \<Longrightarrow> is20 h' \<Longrightarrow>
      view s' h' i \<in> {None, view s h' i}"
    and remove_count: "inv s \<Longrightarrow> is20 h \<Longrightarrow> st_RemovePeer st s h i = (e, s') \<Longrightarrow> is20 h' \<Longrightarrow>
      count s' h' = count s h'"
    and increment_ok: "inv s \<Longrightarrow> is20 h \<Longrightarrow> st_IncrementCompleted st s h = (e, s') \<Longrightarrow>
      inv s' \<and> (is20 h' \<longrightarrow> view s' h' = view s h' \<and> count s' h' = (if h' = h then wrap64 (count s h + 1) else count s h'))"
    and get_peers: "inv s \<Longrightarrow> is20 h \<Longrightarrow> ok c \<Longrightarrow>
      \<exists>ps. st_GetPeers st s c h n = Inr ps \<and> peers_of_view (view s h) n ps"
    and stats: "inv s \<Longrightarrow> is20 h \<Longrightarrow> ok c \<Longrightarrow>
      \<exists>t. st_GetTorrentStats st s c h = Inr t \<and> InfoHash t = h \<and> Completed t = count s h \<and>
        distinct (Seeders t) \<and> distinct (Leechers t) \<and>
        set (Seeders t) = {i. \<exists>p. view s h i = Some p \<and> Left p = 0} \<and>
        set (Leechers t) = {i. \<exists>p. view s h i = Some p \<and> Left p \<noteq> 0}"
    and view_ID: "inv s \<Longrightarrow> is20 h \<Longrightarrow> view s h i = Some p \<Longrightarrow> ID p = i"
    and count_range: "inv s \<Longrightarrow> is20 h \<Longrightarrow> int64_ok (count s h)"
    and view_finite: "inv s \<Longrightarrow> is20 h \<Longrightarrow> finite (dom (view s h))"
begin

text \<open>Every record in the view after an addition is the new one or one that was there.\<close>

lemma add_view_cases:
  assumes "inv s" and "is20 h" and "st_AddPeer st s h p = (e, s')" and "is20 h'" and "view s' h' i = Some q"
  shows "q = p \<and> i = ID p \<or> view s h' i = Some q"
  using assms add_other [OF assms(1-4)] add_range [OF assms(1-4)] by (cases "i = ID p") auto

lemma remove_view_cases:
  assumes "inv s" and "is20 h" and "st_RemovePeer st s h j = (e, s')" and "is20 h'" and "view s' h' i = Some q"
  shows "view s h' i = Some q"
  using assms remove_other [OF assms(1-4)] remove_range [OF assms(1-4)] by (cases "i = j") auto

text \<open>The seeders and the leechers of the statistics partition the view.\<close>

lemma stats_partition:
  assumes "inv s" and "is20 h" and "ok c" and "st_GetTorrentStats st s c h = Inr t"
  shows "set (Seeders t) \<inter> set (Leechers t) = {} \<and> set (Seeders t) \<union> set (Leechers t) = dom (view s h)"
  using stats [OF assms(1-3)] assms(4) by auto

text \<open>A sequence of operations: the last one about a peer decides what is on record for it.\<close>

lemma apply_op_inv: "inv s \<Longrightarrow> is20 (op_hash op) \<Longrightarrow> inv (apply_op st s op)"
  using add_ok [OF _ _ prod.collapse [symmetric]] remove_ok [OF _ _ prod.collapse [symmetric]]
    increment_ok [OF _ _ prod.collapse [symmetric]]
  by (cases op) (simp_all add: apply_op_def)

lemma apply_op_other:
  assumes "inv s" and "is20 (op_hash op)" and "is20 h" and "op_peer op \<noteq> Some i"
  shows "view (apply_op st s op) h i = view s h i"
proof (cases op)
  case (AddOp h1 p)
  obtain e s' where st: "st_AddPeer st s h1 p = (e, s')" by fastforce
  have "view s' h i = view s h i"
    using add_other [OF assms(1) _ st assms(3)] assms(2,4) AddOp by simp
  then show ?thesis using AddOp st by (simp add: apply_op_def)
next
  case (RemoveOp h1 j)
  obtain e s' where st: "st_RemovePeer st s h1 j = (e, s')" by fastforce
  have "view s' h i = view s h i"
    using remove_other [OF assms(1) _ st assms(3)] assms(2,4) RemoveOp by simp
  then show ?thesis using RemoveOp st by (simp add: apply_op_def)
next
  case (CompletedOp h1)
  obtain e s' where st: "st_IncrementCompleted st s h1 = (e, s')" by fastforce
  have "view s' h i = view s h i"
    using increment_ok [OF assms(1) _ st] assms(2,3) CompletedOp by simp
  then show ?thesis using CompletedOp st by (simp add: apply_op_def)
qed

lemma run_inv: "inv s \<Longrightarrow> \<forall>op \<in> set ops. is20 (op_hash op) \<Longrightarrow> inv (run_ops st s ops)"
  by (induction ops arbitrary: s) (simp_all add: run_ops_def apply_op_inv)

lemma run_other:
  "inv s \<Longrightarrow> is20 h \<Longrightarrow> \<forall>op \<in> set ops. is20 (op_hash op) \<and> op_peer op \<noteq> Some i \<Longrightarrow>
    view (run_ops st s ops) h i = view s h i"
  by (induction ops arbitrary: s) (simp_all add: run_ops_def apply_op_inv apply_op_other)

lemma last_announce_wins:
  assumes "inv s" and "is20 h" and "\<forall>op \<in> set ops1. is20 (op_hash op)"
    and "\<forall>op \<in> set ops2. is20 (op_hash op) \<and> op_peer op \<noteq> Some (ID p)"
  shows "view (run_ops st s (ops1 @ AddOp h p # ops2)) h (ID p) = Some p"
proof -
  have run: "run_ops st s (ops1 @ AddOp h p # ops2) = run_ops st (apply_op st (run_ops st s ops1) (AddOp h p)) ops2"
    by (simp add: run_ops_def)
  have inv1: "inv (run_ops st s ops1)" using assms(1,3) by (rule run_inv)
  have "view (apply_op st (run_ops st s ops1) (AddOp h p)) h (ID p) = Some p"
    using add_view [OF inv1 assms(2) prod.collapse [symmetric]] by (simp add: apply_op_def)
  moreover have "inv (apply_op st (run_ops st s ops1) (AddOp h p))"
    using inv1 assms(2) by (simp add: apply_op_inv)
  ultimately show ?thesis unfolding run using run_other assms(2,4) by simp
qed

lemma last_stop_wins:
  assumes "inv s" and "is20 h" and "\<forall>op \<in> set ops1. is20 (op_hash op)"
    and "\<forall>op \<in> set ops2. is20 (op_hash op) \<and> op_peer op \<noteq> Some i"
  shows "view (run_ops st s (ops1 @ RemoveOp h i # ops2)) h i = None"
proof -
  have run: "run_ops st s (ops1 @ RemoveOp h i # ops2) = run_ops st (apply_op st (run_ops st s ops1) (RemoveOp h i)) ops2"
    by (simp add: run_ops_def)
  have inv1: "inv (run_ops st s ops1)" using assms(1,3) by (rule run_inv)
  have "view (apply_op st (run_ops st s ops1) (RemoveOp h i)) h i = None"
    using remove_view [OF inv1 assms(2) prod.collapse [symmetric]] by (simp add: apply_op_def)
  moreover have "inv (apply_op st (run_ops st s ops1) (RemoveOp h i))"
    using inv1 assms(2) by (simp add: apply_op_inv)
  ultimately show ?thesis unfolding run using run_other assms(2,4) by simp
qed

end

end
