(* ===== verification/Memory_Storage.thy ===== *)
theory Memory_Storage
  imports Tracker_Store "HOL-Library.Char_ord" "HOL-Library.List_Lexorder"
begin

text \<open>
  The in-memory storage, \<open>src/tracker/memory_storage.go\<close>.  The three Go maps are finite maps; a set is
  a finite set, and the order in which the runtime walks it is an argument.  The mutex makes every
  method atomic, so each is one function of the state; an error that is always \<open>nil\<close> is left out
  here and put back in \<open>memory_store\<close>.
\<close>

record MemoryStorage =
  mpeers :: "(string, tpeer) fmap"
  mtorrents :: "(string, string fset) fmap"
  mcompleted :: "(string, int) fmap"

text \<open>One such order: by the keys.\<close>

definition key_order :: map_order where
  "key_order = sorted_list_of_fset"

lemma order_ok_key_order [simp]: "order_ok key_order"
  by (simp add: order_ok_def key_order_def sorted_list_of_fset_def)

definition NewMemoryStorage :: MemoryStorage where
  "NewMemoryStorage = \<lparr>mpeers = fmempty, mtorrents = fmempty, mcompleted = fmempty\<rparr>"

section \<open>Operations\<close>

definition mem_AddPeer :: "MemoryStorage \<Rightarrow> id20 \<Rightarrow> tpeer \<Rightarrow> MemoryStorage" where
  "mem_AddPeer m h p =
     (let hashKey = hex_encode h;
          m1 = m\<lparr>mpeers := fmupd (ID p) p (mpeers m)\<rparr>;
          m2 = (if fmlookup (mtorrents m1) hashKey = None
                then m1\<lparr>mtorrents := fmupd hashKey {||} (mtorrents m1)\<rparr> else m1);
          S = the (fmlookup (mtorrents m2) hashKey)
      in m2\<lparr>mtorrents := fmupd hashKey (finsert (ID p) S) (mtorrents m2)\<rparr>)"

definition mem_RemovePeer :: "MemoryStorage \<Rightarrow> id20 \<Rightarrow> string \<Rightarrow> MemoryStorage" where
  "mem_RemovePeer m h peerID =
     (let hashKey = hex_encode h;
          m1 = m\<lparr>mpeers := fmdrop peerID (mpeers m)\<rparr>
      in (case fmlookup (mtorrents m1) hashKey of
            None \<Rightarrow> m1
          | Some S \<Rightarrow> m1\<lparr>mtorrents := fmupd hashKey (S |-| {|peerID|}) (mtorrents m1)\<rparr>))"

definition mem_GetPeer :: "MemoryStorage \<Rightarrow> string \<Rightarrow> store_err + tpeer" where
  "mem_GetPeer m peerID =
     (case fmlookup (mpeers m) peerID of None \<Rightarrow> Inl (PeerNotFound peerID) | Some p \<Rightarrow> Inr p)"

fun get_loop :: "(string, tpeer) fmap \<Rightarrow> int \<Rightarrow> int \<Rightarrow> string list \<Rightarrow> tpeer list" where
  "get_loop ps maxPeers n [] = []"
| "get_loop ps maxPeers n (i # ids) =
     (if n \<ge> maxPeers then []
      else (case fmlookup ps i of
              Some p \<Rightarrow> p # get_loop ps maxPeers (n + 1) ids
            | None \<Rightarrow> get_loop ps maxPeers n ids))"

definition mem_GetPeers :: "MemoryStorage \<Rightarrow> map_order \<Rightarrow> id20 \<Rightarrow> int \<Rightarrow> tpeer list" where
  "mem_GetPeers m c h maxPeers =
     (case fmlookup (mtorrents m) (hex_encode h) of
        None \<Rightarrow> []
      | Some peerIDs \<Rightarrow> get_loop (mpeers m) maxPeers 0 (c peerIDs))"

definition mem_GetSeeders :: "MemoryStorage \<Rightarrow> map_order \<Rightarrow> id20 \<Rightarrow> int \<Rightarrow> tpeer list" where
  "mem_GetSeeders m c h maxPeers =
     foldl (\<lambda>seeders p. if Left p = 0 \<and> int (length seeders) < maxPeers then seeders @ [p] else seeders)
       [] (mem_GetPeers m c h (wrap64 (maxPeers * 2)))"

definition mem_GetLeechers :: "MemoryStorage \<Rightarrow> map_order \<Rightarrow> id20 \<Rightarrow> int \<Rightarrow> tpeer list" where
  "mem_GetLeechers m c h maxPeers =
     foldl (\<lambda>leechers p. if Left p > 0 \<and> int (length leechers) < maxPeers then leechers @ [p] else leechers)
       [] (mem_GetPeers m c h (wrap64 (maxPeers * 2)))"

text \<open>Reading a Go map of integers at an absent key gives zero.\<close>

definition completed_of :: "MemoryStorage \<Rightarrow> string \<Rightarrow> int" where
  "completed_of m hashKey = (case fmlookup (mcompleted m) hashKey of None \<Rightarrow> 0 | Some n \<Rightarrow> n)"

definition stats_step :: "(string, tpeer) fmap \<Rightarrow> string list \<times> string list \<Rightarrow> string \<Rightarrow> string list \<times> string list" where
  "stats_step ps acc i =
     (case fmlookup ps i of
        None \<Rightarrow> acc
      | Some p \<Rightarrow> if Left p = 0 then (fst acc @ [i], snd acc) else (fst acc, snd acc @ [i]))"

definition mem_GetTorrentStats :: "MemoryStorage \<Rightarrow> map_order \<Rightarrow> id20 \<Rightarrow> TorrentInfo" where
  "mem_GetTorrentStats m c h =
     (let hashKey = hex_encode h;
          (seeders, leechers) =
            (case fmlookup (mtorrents m) hashKey of
               None \<Rightarrow> ([], [])
             | Some peerIDs \<Rightarrow> foldl (stats_step (mpeers m)) ([], []) (c peerIDs))
      in \<lparr>InfoHash = h, Seeders = seeders, Leechers = leechers, Completed = completed_of m hashKey\<rparr>)"

definition mem_IncrementCompleted :: "MemoryStorage \<Rightarrow> id20 \<Rightarrow> MemoryStorage" where
  "mem_IncrementCompleted m h =
     (let hashKey = hex_encode h
      in m\<lparr>mcompleted := fmupd hashKey (wrap64 (completed_of m hashKey + 1)) (mcompleted m)\<rparr>)"

definition mem_UpdatePeerLastSeen :: "MemoryStorage \<Rightarrow> int \<Rightarrow> string \<Rightarrow> MemoryStorage" where
  "mem_UpdatePeerLastSeen m now peerID =
     (case fmlookup (mpeers m) peerID of
        None \<Rightarrow> m
      | Some p \<Rightarrow> m\<lparr>mpeers := fmupd peerID (p\<lparr>LastSeen := now\<rparr>) (mpeers m)\<rparr>)"

text \<open>Times are nanoseconds; the cutoff lies thirty minutes back.\<close>

definition peer_ttl :: int where
  "peer_ttl = 30 * 60 * 10 ^ 9"

definition cleanup_step :: "int \<Rightarrow> MemoryStorage \<Rightarrow> string \<Rightarrow> MemoryStorage" where
  "cleanup_step cutoff m i =
     (case fmlookup (mpeers m) i of
        None \<Rightarrow> m
      | Some p \<Rightarrow>
          if LastSeen p < cutoff
          then m\<lparr>mpeers := fmdrop i (mpeers m), mtorrents := fmmap (\<lambda>S. S |-| {|i|}) (mtorrents m)\<rparr>
          else m)"

definition mem_CleanupExpiredPeers :: "MemoryStorage \<Rightarrow> map_order \<Rightarrow> int \<Rightarrow> MemoryStorage" where
  "mem_CleanupExpiredPeers m c now =
     foldl (cleanup_step (now - peer_ttl)) m (c (fmdom (mpeers m)))"

definition mem_GetActiveTorrents :: "MemoryStorage \<Rightarrow> map_order \<Rightarrow> string list" where
  "mem_GetActiveTorrents m c = c (fmdom (mtorrents m))"

definition memory_store :: "(MemoryStorage, map_order) Storage" where
  "memory_store =
     \<lparr>st_AddPeer = \<lambda>m h p. (None, mem_AddPeer m h p),
      st_RemovePeer = \<lambda>m h i. (None, mem_RemovePeer m h i),
      st_GetPeer = mem_GetPeer,
      st_GetPeers = \<lambda>m c h n. Inr (mem_GetPeers m c h n),
      st_GetSeeders = \<lambda>m c h n. Inr (mem_GetSeeders m c h n),
      st_GetLeechers = \<lambda>m c h n. Inr (mem_GetLeechers m c h n),
      st_UpdatePeerLastSeen = \<lambda>m now i. (None, mem_UpdatePeerLastSeen m now i),
      st_GetTorrentStats = \<lambda>m c h. Inr (mem_GetTorrentStats m c h),
      st_IncrementCompleted = \<lambda>m h. (None, mem_IncrementCompleted m h),
      st_GetActiveTorrents = \<lambda>m c. Some (Inr (mem_GetActiveTorrents m c)),
      st_CleanupExpiredPeers = \<lambda>m c now. Some (None, mem_CleanupExpiredPeers m c now),
      st_Close = \<lambda>m. (None, m)\<rparr>"

section \<open>The view\<close>

text \<open>
  A peer id can stay in the set of a torrent after its record is gone; such an entry is invisible to
  every reader.
\<close>

definition mem_view :: "MemoryStorage \<Rightarrow> id20 \<Rightarrow> string \<Rightarrow> tpeer option" where
  "mem_view m h i =
     (case fmlookup (mtorrents m) (hex_encode h) of
        None \<Rightarrow> None
      | Some S \<Rightarrow> if i |\<in>| S then fmlookup (mpeers m) i else None)"

definition mem_inv :: "MemoryStorage \<Rightarrow> bool" where
  "mem_inv m \<longleftrightarrow> fmpred (\<lambda>i p. ID p = i) (mpeers m) \<and> fmpred (\<lambda>k n. int64_ok n) (mcompleted m)"

definition mem_count :: "MemoryStorage \<Rightarrow> id20 \<Rightarrow> int" where
  "mem_count m h = completed_of m (hex_encode h)"

lemma hex_encode_inj [simp]: "hex_encode x = hex_encode y \<longleftrightarrow> x = y"
  by (metis hex_decode_encode sum.inject(2))

lemma AddPeer_view:
  "mem_view (mem_AddPeer m h p) h' i =
     (if i = ID p then (if h' = h \<or> (\<exists>S. fmlookup (mtorrents m) (hex_encode h') = Some S \<and> i |\<in>| S) then Some p else None)
      else mem_view m h' i)"
  by (auto simp: mem_view_def mem_AddPeer_def Let_def split: option.splits)

lemma RemovePeer_view:
  "mem_view (mem_RemovePeer m h j) h' i = (if i = j then None else mem_view m h' i)"
  by (auto simp: mem_view_def mem_RemovePeer_def Let_def split: option.splits)

lemma mem_inv_AddPeer [intro]: "mem_inv m \<Longrightarrow> mem_inv (mem_AddPeer m h p)"
  by (auto simp: mem_inv_def mem_AddPeer_def Let_def fmpred_iff)

lemma mem_inv_RemovePeer [intro]: "mem_inv m \<Longrightarrow> mem_inv (mem_RemovePeer m h i)"
  by (auto simp: mem_inv_def mem_RemovePeer_def Let_def fmpred_iff split: option.splits)

lemma get_loop_take: "get_loop ps n k ids = take (nat (n - k)) (List.map_filter (fmlookup ps) ids)"
proof (induction ids arbitrary: k)
  case Nil
  show ?case by (simp add: List.map_filter_def)
next
  case (Cons i ids)
  have "n - k > 0 \<Longrightarrow> nat (n - k) = Suc (nat (n - (k + 1)))" by simp
  with Cons show ?case by (auto simp: List.map_filter_simps split: option.splits)
qed

lemma map_filter_ids:
  assumes "\<And>i p. f i = Some p \<Longrightarrow> ID p = i"
  shows "map ID (List.map_filter f ids) = filter (\<lambda>i. f i \<noteq> None) ids"
  using assms by (induction ids) (auto simp: List.map_filter_simps split: option.splits)

lemma mem_GetPeers_view:
  assumes "mem_inv m" and "order_ok c"
  shows "peers_of_view (mem_view m h) n (mem_GetPeers m c h n)"
proof (cases "fmlookup (mtorrents m) (hex_encode h)")
  case None
  then have "mem_view m h = (\<lambda>_. None)" by (auto simp: mem_view_def)
  with None show ?thesis by (simp add: peers_of_view_def mem_GetPeers_def dom_def)
next
  case (Some S)
  have ids: "\<And>i p. fmlookup (mpeers m) i = Some p \<Longrightarrow> ID p = i"
    using assms(1) by (auto simp: mem_inv_def fmpred_iff)
  let ?ps = "List.map_filter (fmlookup (mpeers m)) (c S)"
  have c: "distinct (c S)" "set (c S) = fset S" using assms(2) by (auto simp: order_ok_def)
  have ps: "map ID ?ps = filter (\<lambda>i. fmlookup (mpeers m) i \<noteq> None) (c S)"
    by (rule map_filter_ids) (rule ids)
  have view: "mem_view m h = (\<lambda>i. if i |\<in>| S then fmlookup (mpeers m) i else None)"
    using Some by (auto simp: mem_view_def)
  have "dom (mem_view m h) = set (map ID ?ps)"
    unfolding ps by (auto simp: view c dom_def split: if_splits)
  moreover have d: "distinct (map ID ?ps)" unfolding ps using c(1) by simp
  ultimately have len: "card (dom (mem_view m h)) = length ?ps"
    by (metis distinct_card length_map)
  have mem: "mem_view m h (ID p) = Some p" if "p \<in> set ?ps" for p
    using that ids by (auto simp: List.map_filter_def view c(2))
  have "mem_GetPeers m c h n = take (nat n) ?ps"
    using Some by (simp add: mem_GetPeers_def get_loop_take)
  moreover have "distinct (map ID (take (nat n) ?ps))"
    using d by (simp add: take_map [symmetric] del: map_map)
  moreover have "\<forall>p \<in> set (take (nat n) ?ps). mem_view m h (ID p) = Some p"
    using mem by (meson in_set_takeD)
  ultimately show ?thesis using len by (auto simp: peers_of_view_def)
qed


lemma stats_fold:
  "foldl (stats_step ps) acc ids =
     (fst acc @ filter (\<lambda>i. \<exists>p. fmlookup ps i = Some p \<and> Left p = 0) ids,
      snd acc @ filter (\<lambda>i. \<exists>p. fmlookup ps i = Some p \<and> Left p \<noteq> 0) ids)"
  by (induction ids arbitrary: acc) (auto simp: stats_step_def split: option.splits)

lemma mem_GetTorrentStats_view:
  assumes "order_ok c"
  shows "InfoHash (mem_GetTorrentStats m c h) = h \<and> Completed (mem_GetTorrentStats m c h) = mem_count m h \<and>
    distinct (Seeders (mem_GetTorrentStats m c h)) \<and> distinct (Leechers (mem_GetTorrentStats m c h)) \<and>
    set (Seeders (mem_GetTorrentStats m c h)) = {i. \<exists>p. mem_view m h i = Some p \<and> Left p = 0} \<and>
    set (Leechers (mem_GetTorrentStats m c h)) = {i. \<exists>p. mem_view m h i = Some p \<and> Left p \<noteq> 0}"
proof (cases "fmlookup (mtorrents m) (hex_encode h)")
  case None
  then show ?thesis by (simp add: mem_GetTorrentStats_def mem_count_def mem_view_def)
next
  case (Some S)
  then have view: "mem_view m h = (\<lambda>i. if i |\<in>| S then fmlookup (mpeers m) i else None)"
    by (auto simp: mem_view_def)
  have c: "distinct (c S)" "set (c S) = fset S" using assms by (auto simp: order_ok_def)
  show ?thesis
    using Some c by (auto simp: mem_GetTorrentStats_def mem_count_def view stats_fold split: if_splits)
qed

lemma mem_view_finite: "finite (dom (mem_view m h))"
proof (rule finite_subset)
  show "dom (mem_view m h) \<subseteq> fmdom' (mpeers m)"
    by (auto simp: mem_view_def fmlookup_dom'_iff split: option.splits if_splits)
qed simp

lemma mem_view_ID: "mem_inv m \<Longrightarrow> mem_view m h i = Some p \<Longrightarrow> ID p = i"
  by (auto simp: mem_view_def mem_inv_def fmpred_iff split: option.splits if_splits)

lemma mem_count_simps [simp]:
  "mem_count (mem_AddPeer m h p) h' = mem_count m h'"
  "mem_count (mem_RemovePeer m h i) h' = mem_count m h'"
  "mem_count (mem_IncrementCompleted m h) h' = (if h' = h then wrap64 (mem_count m h + 1) else mem_count m h')"
  by (simp_all add: mem_count_def completed_of_def mem_AddPeer_def mem_RemovePeer_def
      mem_IncrementCompleted_def Let_def split: option.splits)

lemma mem_view_increment [simp]: "mem_view (mem_IncrementCompleted m h) h' = mem_view m h'"
  by (rule ext) (simp add: mem_view_def mem_IncrementCompleted_def Let_def split: option.split)

lemma mem_inv_increment [intro]: "mem_inv m \<Longrightarrow> mem_inv (mem_IncrementCompleted m h)"
  by (auto simp: mem_inv_def mem_IncrementCompleted_def Let_def fmpred_iff)

lemma mem_count_range: "mem_inv m \<Longrightarrow> int64_ok (mem_count m h)"
  by (auto simp: mem_inv_def mem_count_def completed_of_def fmpred_iff int64_ok_small split: option.split)

section \<open>The contract holds\<close>

interpretation memory: peer_storage memory_store mem_inv order_ok mem_view mem_count
proof (unfold_locales, goal_cases)
  case (12 s h c n)
  then show ?case using mem_GetPeers_view by (simp add: memory_store_def)
next
  case (13 s h c)
  then show ?case using mem_GetTorrentStats_view [of c s h] by (simp add: memory_store_def)
next
  case (14 s h i p)
  then show ?case by (simp add: mem_view_ID)
next
  case (15 s h)
  then show ?case by (simp add: mem_count_range)
next
  case (16 s h)
  then show ?case by (simp add: mem_view_finite)
qed (auto simp: memory_store_def AddPeer_view RemovePeer_view)

section \<open>Expiry\<close>

definition fresh_at :: "int \<Rightarrow> tpeer \<Rightarrow> bool" where
  "fresh_at now p \<longleftrightarrow> now - peer_ttl \<le> LastSeen p"

lemma cleanup_step_peers:
  "fmlookup (mpeers (cleanup_step t m i)) j =
     (case fmlookup (mpeers m) j of None \<Rightarrow> None | Some p \<Rightarrow> if j = i \<and> LastSeen p < t then None else Some p)"
  by (auto simp: cleanup_step_def split: option.splits)

lemma cleanup_fold_peers:
  "fmlookup (mpeers (foldl (cleanup_step t) m ids)) j =
     (case fmlookup (mpeers m) j of None \<Rightarrow> None | Some p \<Rightarrow> if j \<in> set ids \<and> LastSeen p < t then None else Some p)"
  by (induction ids arbitrary: m) (auto simp: cleanup_step_peers split: option.splits)

lemma cleanup_step_member:
  "(\<exists>S. fmlookup (mtorrents (cleanup_step t m i)) k = Some S \<and> j |\<in>| S) \<longleftrightarrow>
     (\<exists>S. fmlookup (mtorrents m) k = Some S \<and> j |\<in>| S) \<and>
     \<not> (j = i \<and> (\<exists>p. fmlookup (mpeers m) i = Some p \<and> LastSeen p < t))"
  by (auto simp: cleanup_step_def split: option.splits)

lemma cleanup_fold_member:
  "(\<exists>S. fmlookup (mtorrents (foldl (cleanup_step t) m ids)) k = Some S \<and> j |\<in>| S) \<longleftrightarrow>
     (\<exists>S. fmlookup (mtorrents m) k = Some S \<and> j |\<in>| S) \<and>
     \<not> (j \<in> set ids \<and> (\<exists>p. fmlookup (mpeers m) j = Some p \<and> LastSeen p < t))"
proof (induction ids arbitrary: m)
  case Nil
  show ?case by simp
next
  case (Cons i ids)
  show ?case
    unfolding foldl_Cons Cons.IH cleanup_step_member cleanup_step_peers by (auto split: option.splits)
qed

text \<open>The view through membership, so that the lemmas above apply.\<close>

lemma mem_view_alt:
  "mem_view m h i =
     (if \<exists>S. fmlookup (mtorrents m) (hex_encode h) = Some S \<and> i |\<in>| S then fmlookup (mpeers m) i else None)"
  by (auto simp: mem_view_def split: option.splits)

lemma cleanup_completed: "mcompleted (mem_CleanupExpiredPeers m c now) = mcompleted m"
proof -
  have "mcompleted (foldl (cleanup_step t) m ids) = mcompleted m" for t ids
    by (induction ids arbitrary: m) (simp_all add: cleanup_step_def split: option.split)
  then show ?thesis by (simp add: mem_CleanupExpiredPeers_def)
qed

lemma cleanup_count [simp]: "mem_count (mem_CleanupExpiredPeers m c now) h = mem_count m h"
  by (simp add: mem_count_def completed_of_def cleanup_completed)

lemma cleanup_ids: "order_ok c \<Longrightarrow> j \<in> set (c (fmdom m)) \<longleftrightarrow> fmlookup m j \<noteq> None"
  by (simp add: order_ok_def fmlookup_dom_iff)

lemma cleanup_member:
  assumes "order_ok c"
  shows "(\<exists>S. fmlookup (mtorrents (mem_CleanupExpiredPeers m c now)) k = Some S \<and> j |\<in>| S) \<longleftrightarrow>
     (\<exists>S. fmlookup (mtorrents m) k = Some S \<and> j |\<in>| S) \<and>
     \<not> (\<exists>p. fmlookup (mpeers m) j = Some p \<and> \<not> fresh_at now p)"
  unfolding mem_CleanupExpiredPeers_def cleanup_fold_member
  using cleanup_ids [OF assms, of j "mpeers m"] by (auto simp: fresh_at_def)

lemma cleanup_peers:
  assumes "order_ok c"
  shows "fmlookup (mpeers (mem_CleanupExpiredPeers m c now)) j =
     (case fmlookup (mpeers m) j of None \<Rightarrow> None | Some p \<Rightarrow> if fresh_at now p then Some p else None)"
  unfolding mem_CleanupExpiredPeers_def cleanup_fold_peers
  using cleanup_ids [OF assms, of j "mpeers m"] by (auto simp: fresh_at_def split: option.splits)

lemma cleanup_inv: "order_ok c \<Longrightarrow> mem_inv m \<Longrightarrow> mem_inv (mem_CleanupExpiredPeers m c now)"
  by (auto simp: mem_inv_def fmpred_iff cleanup_peers cleanup_completed split: option.splits if_splits)

text \<open>
  C26.  Cleaning up removes exactly the expired peers: whatever order the runtime walks the map in,
  afterwards a torrent lists precisely the peers it listed before whose last announcement is at most
  thirty minutes old, the expired ones are gone from the peer map and from every torrent's set, and the
  completion counts are untouched.
\<close>

theorem cleanup_exact:
  assumes "order_ok c" and "mem_inv m"
  shows "mem_inv (mem_CleanupExpiredPeers m c now) \<and>
    mem_count (mem_CleanupExpiredPeers m c now) h = mem_count m h \<and>
    mem_view (mem_CleanupExpiredPeers m c now) h i =
      (case mem_view m h i of None \<Rightarrow> None | Some p \<Rightarrow> if fresh_at now p then Some p else None) \<and>
    (mem_GetPeer m i = Inr p \<and> \<not> fresh_at now p \<longrightarrow>
      mem_GetPeer (mem_CleanupExpiredPeers m c now) i = Inl (PeerNotFound i) \<and>
      (\<forall>k S. fmlookup (mtorrents (mem_CleanupExpiredPeers m c now)) k = Some S \<longrightarrow> i |\<notin>| S))"
proof (intro conjI impI)
  show "mem_inv (mem_CleanupExpiredPeers m c now)" using assms by (rule cleanup_inv)
  show "mem_count (mem_CleanupExpiredPeers m c now) h = mem_count m h" by simp
  show "mem_view (mem_CleanupExpiredPeers m c now) h i =
      (case mem_view m h i of None \<Rightarrow> None | Some p \<Rightarrow> if fresh_at now p then Some p else None)"
    unfolding mem_view_alt cleanup_member [OF assms(1)] cleanup_peers [OF assms(1)]
    by (auto split: option.splits)
next
  assume "mem_GetPeer m i = Inr p \<and> \<not> fresh_at now p"
  then have p: "fmlookup (mpeers m) i = Some p" "\<not> fresh_at now p"
    by (auto simp: mem_GetPeer_def split: option.splits)
  then show "mem_GetPeer (mem_CleanupExpiredPeers m c now) i = Inl (PeerNotFound i)"
    by (simp add: mem_GetPeer_def cleanup_peers [OF assms(1)])
  show "\<forall>k S. fmlookup (mtorrents (mem_CleanupExpiredPeers m c now)) k = Some S \<longrightarrow> i |\<notin>| S"
    using cleanup_member [OF assms(1), of m now _ i] p by blast
qed


text \<open>The witness: of two peers announced at different times only the later one survives.\<close>

theorem cleanup_exact_witness:
  "mem_view (mem_CleanupExpiredPeers
      (mem_AddPeer (mem_AddPeer NewMemoryStorage zero20
        \<lparr>ID = ''a'', IP = ''10.0.0.1'', Port = 1, Uploaded = 0, Downloaded = 0, Left = 0, LastSeen = 0\<rparr>) zero20
        \<lparr>ID = ''b'', IP = ''10.0.0.2'', Port = 2, Uploaded = 0, Downloaded = 0, Left = 5, LastSeen = peer_ttl\<rparr>)
      key_order (peer_ttl + 1)) zero20 ''a'' = None"
proof -
  let ?m = "mem_AddPeer (mem_AddPeer NewMemoryStorage zero20
        \<lparr>ID = ''a'', IP = ''10.0.0.1'', Port = 1, Uploaded = 0, Downloaded = 0, Left = 0, LastSeen = 0\<rparr>) zero20
        \<lparr>ID = ''b'', IP = ''10.0.0.2'', Port = 2, Uploaded = 0, Downloaded = 0, Left = 5, LastSeen = peer_ttl\<rparr>"
  have "mem_inv ?m" by (intro mem_inv_AddPeer) (simp add: mem_inv_def NewMemoryStorage_def)
  from cleanup_exact [OF order_ok_key_order this, of "peer_ttl + 1" zero20 "''a''"]
  have "mem_view (mem_CleanupExpiredPeers ?m key_order (peer_ttl + 1)) zero20 ''a'' =
      (case mem_view ?m zero20 ''a'' of None \<Rightarrow> None | Some p \<Rightarrow> if fresh_at (peer_ttl + 1) p then Some p else None)"
    by blast
  then show ?thesis by (simp add: AddPeer_view fresh_at_def)
qed

section \<open>Histories\<close>

lemma run_ops_rev: "run_ops st s (rev (op # ops)) = apply_op st (run_ops st s (rev ops)) op"
  by (simp add: run_ops_def)

lemma memory_trace:
  "fmlookup (mpeers (run_ops memory_store NewMemoryStorage (rev ops))) i = trace_peer ops i \<and>
   ((\<exists>S. fmlookup (mtorrents (run_ops memory_store NewMemoryStorage (rev ops))) (hex_encode h) = Some S \<and> i |\<in>| S) \<longleftrightarrow>
     trace_member ops h i) \<and>
   mem_count (run_ops memory_store NewMemoryStorage (rev ops)) h = trace_count ops h"
proof (induction ops)
  case Nil
  show ?case by (simp add: run_ops_def NewMemoryStorage_def mem_count_def completed_of_def)
next
  case (Cons op ops)
  let ?m = "run_ops memory_store NewMemoryStorage (rev ops)"
  have "fmlookup (mpeers (apply_op memory_store ?m op)) i = trace_peer (op # ops) i"
    using Cons by (auto simp: apply_op_def memory_store_def mem_AddPeer_def mem_RemovePeer_def
        mem_IncrementCompleted_def Let_def split: store_op.split option.split)
  moreover have "(\<exists>S. fmlookup (mtorrents (apply_op memory_store ?m op)) (hex_encode h) = Some S \<and> i |\<in>| S) \<longleftrightarrow>
      trace_member (op # ops) h i"
    using Cons by (cases op) (auto simp: apply_op_def memory_store_def mem_AddPeer_def mem_RemovePeer_def
        mem_IncrementCompleted_def Let_def split: option.split)
  moreover have "mem_count (apply_op memory_store ?m op) h = trace_count (op # ops) h"
    using Cons by (cases op) (auto simp: apply_op_def memory_store_def)
  ultimately show ?case by (simp only: run_ops_rev)
qed

lemma memory_view_trace:
  "mem_view (run_ops memory_store NewMemoryStorage (rev ops)) h i = trace_view ops h i \<and>
   mem_count (run_ops memory_store NewMemoryStorage (rev ops)) h = trace_count ops h"
  using memory_trace [of ops i h] by (simp add: mem_view_alt trace_view_def)

text \<open>
  C18.  The in-memory storage refines its specification: after any history of announcements, stops
  and completions, starting from the empty storage, what it has on record for a torrent and a peer and
  the completion count of a torrent are those of the history.
\<close>

theorem memory_refines_trace:
  "mem_view (run_ops memory_store NewMemoryStorage (rev ops)) h i = trace_view ops h i \<and>
   mem_count (run_ops memory_store NewMemoryStorage (rev ops)) h = trace_count ops h"
  by (rule memory_view_trace)

text \<open>
  The last announcement wins: after a peer announces itself for a torrent, the storage returns
  that very announcement for that torrent, whatever came before and however the other peers' requests
  follow, for any torrents; and after a stop it returns nothing.
\<close>

theorem memory_last_wins:
  assumes "is20 h" and "\<forall>op \<in> set ops1. is20 (op_hash op)"
    and "\<forall>op \<in> set ops2. is20 (op_hash op) \<and> op_peer op \<noteq> Some (ID p)"
  shows "mem_view (run_ops memory_store NewMemoryStorage (ops1 @ AddOp h p # ops2)) h (ID p) = Some p \<and>
    mem_view (run_ops memory_store NewMemoryStorage (ops1 @ RemoveOp h (ID p) # ops2)) h (ID p) = None"
proof -
  have "mem_inv NewMemoryStorage" by (simp add: mem_inv_def NewMemoryStorage_def)
  then show ?thesis
    using memory.last_announce_wins memory.last_stop_wins assms by blast
qed

theorem memory_last_wins_witness:
  "mem_view (run_ops memory_store NewMemoryStorage
      ([CompletedOp zero20] @ RemoveOp zero20 ''a'' #
        [AddOp zero20 \<lparr>ID = ''b'', IP = ''10.0.0.2'', Port = 2, Uploaded = 0, Downloaded = 0, Left = 5, LastSeen = 7\<rparr>]))
      zero20 ''a'' = None"
  using memory_last_wins [of zero20 "[CompletedOp zero20]"
      "[AddOp zero20 \<lparr>ID = ''b'', IP = ''10.0.0.2'', Port = 2, Uploaded = 0, Downloaded = 0, Left = 5, LastSeen = 7\<rparr>]"
      "\<lparr>ID = ''a'', IP = [], Port = 0, Uploaded = 0, Downloaded = 0, Left = 0, LastSeen = 0\<rparr>"]
  by simp

text \<open>
  A stop for one torrent takes the peer out of every torrent: the records are keyed by the peer
  id alone and the deletion drops the record itself, so a peer that still shares another torrent
  vanishes from that torrent's list too, until it announces itself again.
\<close>

theorem stop_leaves_every_torrent:
  "mem_view (mem_RemovePeer m h i) h' i = None \<and>
   (mem_view m h' j \<noteq> None \<and> j \<noteq> i \<longrightarrow> mem_view (mem_RemovePeer m h i) h' j = mem_view m h' j)"
  by (simp add: RemovePeer_view)

theorem stop_leaves_every_torrent_witness:
  "mem_view (mem_RemovePeer (mem_AddPeer NewMemoryStorage zero20
      \<lparr>ID = ''b'', IP = ''10.0.0.2'', Port = 2, Uploaded = 0, Downloaded = 0, Left = 5, LastSeen = 7\<rparr>) zero20 ''a'')
      zero20 ''b'' \<noteq> None"
  using stop_leaves_every_torrent [of "mem_AddPeer NewMemoryStorage zero20
      \<lparr>ID = ''b'', IP = ''10.0.0.2'', Port = 2, Uploaded = 0, Downloaded = 0, Left = 5, LastSeen = 7\<rparr>" zero20 "''a''" zero20 "''b''"]
  by (simp add: AddPeer_view)

end
