(* ===== verification/Go_Text.thy ===== *)
theory Go_Text
  imports Pix_Prelude
begin

text \<open>
  The text functions of Go's standard library that the program calls: decimal formatting (\<open>%d\<close>,
  \<open>strconv.Itoa\<close>), \<open>strconv.ParseInt\<close> / \<open>strconv.Atoi\<close> with their value on error, the \<open>%d\<close>
  verb of \<open>fmt.Sscanf\<close>.  Each is written after the library's source; the lemmas are the round
  trips between the printing and the parsing side.
\<close>

section \<open>Decimal digits\<close>

definition is_digit :: "char \<Rightarrow> bool" where
  "is_digit c \<longleftrightarrow> c \<in> set ''0123456789''"

definition digit_char :: "nat \<Rightarrow> char" where
  "digit_char d = ''0123456789'' ! d"

definition digit_val :: "char \<Rightarrow> nat" where
  "digit_val c = of_char c - 48"

lemma less_10_cases:
  "d < (10::nat) \<Longrightarrow> d = 0 \<or> d = 1 \<or> d = 2 \<or> d = 3 \<or> d = 4 \<or> d = 5 \<or> d = 6 \<or> d = 7 \<or> d = 8 \<or> d = 9"
  by arith

lemma is_digit_digit_char [simp]: "d < 10 \<Longrightarrow> is_digit (digit_char d)"
  unfolding is_digit_def digit_char_def by (rule nth_mem) simp

lemma digit_val_digit_char [simp]: "d < 10 \<Longrightarrow> digit_val (digit_char d) = d"
  by (drule less_10_cases) (auto simp: digit_val_def digit_char_def)

text \<open>\<open>utoa\<close> is the decimal text of a natural number, \<open>itoa\<close> of an integer (the \<open>%d\<close> verb).\<close>

fun utoa :: "nat \<Rightarrow> string" where
  "utoa n = (if n < 10 then [digit_char n] else utoa (n div 10) @ [digit_char (n mod 10)])"

declare utoa.simps [simp del]

definition itoa :: "int \<Rightarrow> string" where
  "itoa i = (if i < 0 then CHR ''-'' # utoa (nat (- i)) else utoa (nat i))"

lemma utoa_nonempty [simp]: "utoa n \<noteq> []"
  by (subst utoa.simps) simp

lemma itoa_nonempty [simp]: "itoa i \<noteq> []"
  by (simp add: itoa_def)

lemma utoa_digits: "c \<in> set (utoa n) \<Longrightarrow> is_digit c"
proof (induction n rule: utoa.induct)
  case (1 n)
  then show ?case by (auto simp: utoa.simps [of n] split: if_splits)
qed

text \<open>The value of a list of digits, read from the left.\<close>

definition dec_val :: "nat \<Rightarrow> string \<Rightarrow> nat" where
  "dec_val acc cs = foldl (\<lambda>n c. 10 * n + digit_val c) acc cs"

lemma dec_val_simps [simp]:
  "dec_val acc [] = acc"
  "dec_val acc (c # cs) = dec_val (10 * acc + digit_val c) cs"
  "dec_val acc (cs @ [c]) = 10 * dec_val acc cs + digit_val c"
  by (simp_all add: dec_val_def)

lemma dec_val_ge: "acc \<le> dec_val acc cs"
proof (induction cs arbitrary: acc)
  case Nil
  show ?case by simp
next
  case (Cons c cs)
  have "acc \<le> 10 * acc + digit_val c" by simp
  also have "\<dots> \<le> dec_val (10 * acc + digit_val c) cs" by (rule Cons.IH)
  finally show ?case by simp
qed

lemma dec_val_utoa [simp]: "dec_val 0 (utoa n) = n"
proof (induction n rule: utoa.induct)
  case (1 n)
  show ?case
  proof (cases "n < 10")
    case True
    then show ?thesis by (simp add: utoa.simps [of n])
  next
    case False
    with 1 have "dec_val 0 (utoa (n div 10)) = n div 10" by simp
    with False show ?thesis by (simp add: utoa.simps [of n])
  qed
qed

section \<open>\<open>strconv.ParseInt\<close> and \<open>strconv.Atoi\<close>, base 10, 64 bits\<close>

datatype num_err = ErrSyntax | ErrRange

text \<open>
  The loop of \<open>ParseUint\<close>: a bad character is a syntax error, and the range error leaves the loop
  before the rest of the text is looked at.
\<close>

definition uint_cutoff :: nat where
  "uint_cutoff = 2 ^ 64 div 10 + 1"

fun parse_uint_loop :: "nat \<Rightarrow> string \<Rightarrow> num_err + nat" where
  "parse_uint_loop acc [] = Inr acc"
| "parse_uint_loop acc (c # cs) =
     (if \<not> is_digit c then Inl ErrSyntax
      else if acc \<ge> uint_cutoff then Inl ErrRange
      else if 10 * acc + digit_val c \<ge> 2 ^ 64 then Inl ErrRange
      else parse_uint_loop (10 * acc + digit_val c) cs)"

definition ParseUint :: "string \<Rightarrow> num_err + nat" where
  "ParseUint s = (if s = [] then Inl ErrSyntax else parse_uint_loop 0 s)"

definition split_sign :: "string \<Rightarrow> bool \<times> string" where
  "split_sign s =
     (case s of [] \<Rightarrow> (False, [])
      | c # cs \<Rightarrow> if c = CHR ''+'' then (False, cs) else if c = CHR ''-'' then (True, cs) else (False, s))"

text \<open>The value and the error are both results: the program keeps the value and drops the error.\<close>

definition ParseInt :: "string \<Rightarrow> int \<times> num_err option" where
  "ParseInt s =
     (if s = [] then (0, Some ErrSyntax)
      else let (neg, u) = split_sign s in
        (case ParseUint u of
           Inl ErrSyntax \<Rightarrow> (0, Some ErrSyntax)
         | Inl ErrRange \<Rightarrow> (if neg then - (2 ^ 63) else 2 ^ 63 - 1, Some ErrRange)
         | Inr un \<Rightarrow>
             if \<not> neg \<and> un \<ge> 2 ^ 63 then (2 ^ 63 - 1, Some ErrRange)
             else if neg \<and> un > 2 ^ 63 then (- (2 ^ 63), Some ErrRange)
             else (if neg then - int un else int un, None)))"

definition Atoi :: "string \<Rightarrow> int \<times> num_err option" where
  "Atoi s = ParseInt s"

lemma parse_uint_loop_digits:
  assumes "\<forall>c \<in> set cs. is_digit c" and "dec_val acc cs < 2 ^ 64"
  shows "parse_uint_loop acc cs = Inr (dec_val acc cs)"
  using assms
proof (induction cs arbitrary: acc)
  case Nil
  then show ?case by simp
next
  case (Cons c cs)
  have le: "10 * acc + digit_val c \<le> dec_val acc (c # cs)"
    using dec_val_ge [of "10 * acc + digit_val c" cs] by simp
  with Cons.prems(2) have lt: "10 * acc + digit_val c < 2 ^ 64" by simp
  then have "acc < uint_cutoff" by (simp add: uint_cutoff_def)
  moreover have "parse_uint_loop (10 * acc + digit_val c) cs = Inr (dec_val (10 * acc + digit_val c) cs)"
    using Cons.prems by (intro Cons.IH) simp_all
  ultimately show ?case using Cons.prems(1) lt by simp
qed

lemma ParseUint_utoa: "n < 2 ^ 64 \<Longrightarrow> ParseUint (utoa n) = Inr n"
  using parse_uint_loop_digits [of "utoa n" 0] utoa_digits by (auto simp: ParseUint_def)

lemma ParseInt_range: "int64_ok (fst (ParseInt s))"
  by (auto simp: ParseInt_def int64_ok_def Let_def split: prod.splits sum.splits num_err.splits)

lemma not_digit_sign [simp]: "\<not> is_digit CHR ''-''" "\<not> is_digit CHR ''+''"
  by (simp_all add: is_digit_def)

lemma split_sign_digits:
  "s \<noteq> [] \<Longrightarrow> is_digit (hd s) \<Longrightarrow> split_sign s = (False, s)"
  by (cases s) (auto simp: split_sign_def)

lemma utoa_hd_digit [simp]: "is_digit (hd (utoa n))"
  using utoa_digits [of "hd (utoa n)" n] by simp

lemma split_sign_utoa [simp]: "split_sign (utoa n) = (False, utoa n)"
  by (rule split_sign_digits) simp_all

lemma split_sign_minus [simp]: "split_sign (CHR ''-'' # s) = (True, s)"
  by (simp add: split_sign_def)

lemma ParseInt_itoa [go_std]: "int64_ok i \<Longrightarrow> ParseInt (itoa i) = (i, None)"
  by (auto simp: ParseInt_def itoa_def int64_ok_def ParseUint_utoa)

section \<open>The \<open>%d\<close> verb of \<open>fmt.Sscanf\<close>\<close>

text \<open>
  \<open>Sscanf(s, "%d", &i)\<close> skips leading space (a newline is an error), takes an optional sign and the
  longest run of digits, and ignores what follows.  The characters of \<open>s\<close> are the runes of the
  string, all below 256 here, so the space characters are those of Unicode below 256.
\<close>

datatype scan_err = UnexpectedNewline | UnexpectedEnd | ExpectedInteger | ScanNum num_err

definition is_space :: "char \<Rightarrow> bool" where
  "is_space c \<longleftrightarrow> (of_char c :: nat) \<in> {9, 11, 12, 13, 32, 133, 160}"

fun skip_space :: "string \<Rightarrow> scan_err + string" where
  "skip_space [] = Inr []"
| "skip_space (c # cs) =
     (if (of_char c :: nat) = 10 then Inl UnexpectedNewline
      else if is_space c then skip_space cs
      else Inr (c # cs))"

definition scan_sign :: "string \<Rightarrow> string \<times> string" where
  "scan_sign s =
     (case s of [] \<Rightarrow> ([], [])
      | c # cs \<Rightarrow> if c = CHR ''+'' \<or> c = CHR ''-'' then ([c], cs) else ([], s))"

definition Sscanf_d :: "string \<Rightarrow> scan_err + int" where
  "Sscanf_d s =
     bindE (skip_space s) (\<lambda>t.
       if t = [] then Inl UnexpectedEnd
       else let (sg, u) = scan_sign t; ds = takeWhile is_digit u in
         if u = [] then Inl UnexpectedEnd
         else if ds = [] then Inl ExpectedInteger
         else case ParseInt (sg @ ds) of
             (i, None) \<Rightarrow> Inr i
           | (_, Some e) \<Rightarrow> Inl (ScanNum e))"

lemma digit_not_space: "is_digit c \<Longrightarrow> \<not> is_space c \<and> (of_char c :: nat) \<noteq> 10"
  by (auto simp: is_digit_def is_space_def)

lemma skip_space_digit: "is_digit c \<Longrightarrow> skip_space (c # cs) = Inr (c # cs)"
  by (simp add: digit_not_space)

lemma Sscanf_d_digits:
  assumes "ds \<noteq> []" and "\<forall>c \<in> set ds. is_digit c" and "rest = [] \<or> \<not> is_digit (hd rest)"
  shows "Sscanf_d (ds @ rest) = (case ParseInt ds of (i, None) \<Rightarrow> Inr i | (_, Some e) \<Rightarrow> Inl (ScanNum e))"
proof -
  from assms(1) obtain c cs where ds: "ds = c # cs" by (cases ds) auto
  with assms(2) have c: "is_digit c" by simp
  have skip: "skip_space (ds @ rest) = Inr (ds @ rest)"
    by (simp add: ds skip_space_digit [OF c] del: skip_space.simps)
  have sg: "scan_sign (ds @ rest) = ([], ds @ rest)"
    using c by (auto simp: scan_sign_def ds)
  have "takeWhile is_digit (ds @ rest) = ds"
    using assms(2,3) by (cases rest) (simp_all add: takeWhile_append)
  with skip sg ds show ?thesis by (simp add: Sscanf_d_def)
qed

lemma Sscanf_d_minus:
  assumes "ds \<noteq> []" and "\<forall>c \<in> set ds. is_digit c"
  shows "Sscanf_d (CHR ''-'' # ds) =
    (case ParseInt (CHR ''-'' # ds) of (i, None) \<Rightarrow> Inr i | (_, Some e) \<Rightarrow> Inl (ScanNum e))"
proof -
  have "takeWhile is_digit ds = ds" using assms(2) by (simp add: takeWhile_eq_all_conv)
  with assms(1) show ?thesis by (simp add: Sscanf_d_def scan_sign_def is_space_def Let_def del: takeWhile_eq_all_conv)
qed

lemma Sscanf_d_itoa [go_std]:
  assumes "int64_ok i"
  shows "Sscanf_d (itoa i) = Inr i"
proof (cases "i < 0")
  case True
  then have "Sscanf_d (itoa i) = (case ParseInt (itoa i) of (i, None) \<Rightarrow> Inr i | (_, Some e) \<Rightarrow> Inl (ScanNum e))"
    using Sscanf_d_minus [of "utoa (nat (- i))"] utoa_digits by (auto simp: itoa_def)
  then show ?thesis by (simp add: ParseInt_itoa assms)
next
  case False
  then have "Sscanf_d (itoa i) = (case ParseInt (itoa i) of (i, None) \<Rightarrow> Inr i | (_, Some e) \<Rightarrow> Inl (ScanNum e))"
    using Sscanf_d_digits [of "utoa (nat i)" "[]"] utoa_digits by (auto simp: itoa_def)
  then show ?thesis by (simp add: ParseInt_itoa assms)
qed

lemma Sscanf_d_range: "Sscanf_d s = Inr i \<Longrightarrow> int64_ok i"
  using ParseInt_range
  by (auto simp: Sscanf_d_def bindE_Inr_iff Let_def split: prod.splits if_splits option.splits)
    (metis fst_conv)

end
