(* ===== verification/Go_Url.thy ===== *)
theory Go_Url
  imports Go_Hex Go_Text
begin

text \<open>
  The parts of \<open>net/url\<close>, \<open>net\<close> and \<open>strings\<close> that the tracker and its client use:
  \<open>url.QueryEscape\<close>, \<open>url.QueryUnescape\<close>, \<open>Values.Encode\<close>, the query parser behind
  \<open>r.URL.Query()\<close>, and \<open>net.SplitHostPort\<close>.  A Go string is a list of bytes, here of \<open>char\<close>.
\<close>

section \<open>Escaping\<close>

definition unreserved :: "char \<Rightarrow> bool" where
  "unreserved c \<longleftrightarrow> (let n = (of_char c :: nat) in
     48 \<le> n \<and> n \<le> 57 \<or> 65 \<le> n \<and> n \<le> 90 \<or> 97 \<le> n \<and> n \<le> 122 \<or>
     c = CHR ''-'' \<or> c = CHR ''_'' \<or> c = CHR ''.'' \<or> c = CHR ''~'')"

definition escape_char :: "char \<Rightarrow> string" where
  "escape_char c =
     (if unreserved c then [c]
      else if c = CHR '' '' then ''+''
      else [CHR ''%'', hex_upper (of_char c div 16), hex_upper (of_char c mod 16)])"

definition QueryEscape :: "string \<Rightarrow> string" where
  "QueryEscape s = concat (map escape_char s)"

text \<open>The error carries nothing: every caller drops it or replaces it.\<close>

fun QueryUnescape :: "string \<Rightarrow> string option" where
  "QueryUnescape [] = Some []"
| "QueryUnescape (c # cs) =
     (if c = CHR ''%'' then
        (case cs of
           a # b # r \<Rightarrow>
             (case (hex_val a, hex_val b) of
                (Some x, Some y) \<Rightarrow> map_option ((#) (char_of (16 * x + y))) (QueryUnescape r)
              | _ \<Rightarrow> None)
         | _ \<Rightarrow> None)
      else map_option ((#) (if c = CHR ''+'' then CHR '' '' else c)) (QueryUnescape cs))"

lemma char_div_16: "(of_char c :: nat) div 16 < 16"
proof -
  have "(of_char c :: nat) < 16 * 16" using of_char_lt_256 [of c] by (simp only: semiring_norm)
  then show ?thesis by (rule less_mult_imp_div_less)
qed

lemma char_of_nibbles [simp]: "char_of (16 * (of_char c div 16) + of_char c mod (16 :: nat)) = c"
  by (simp only: mult_div_mod_eq char_of_char)

lemma unreserved_plain: "unreserved c \<Longrightarrow> c \<noteq> CHR ''%'' \<and> c \<noteq> CHR ''+'' \<and> c \<noteq> CHR ''&'' \<and> c \<noteq> CHR ''='' \<and> c \<noteq> CHR '';''"
  by (auto simp: unreserved_def)

lemma QueryUnescape_escape_char: "QueryUnescape (escape_char c @ s) = map_option ((#) c) (QueryUnescape s)"
  using unreserved_plain [of c] by (auto simp: escape_char_def char_div_16)

lemma QueryUnescape_escape [simp]: "QueryUnescape (QueryEscape s) = Some s"
  by (induction s) (simp_all add: QueryEscape_def QueryUnescape_escape_char)

text \<open>A string without percent and plus signs is its own unescaping.\<close>

lemma QueryUnescape_plain:
  "CHR ''%'' \<notin> set s \<Longrightarrow> QueryUnescape s = Some (map (\<lambda>c. if c = CHR ''+'' then CHR '' '' else c) s)"
  by (induction s rule: QueryUnescape.induct) (auto split: list.splits)

section \<open>Queries\<close>

text \<open>\<open>strings.Split\<close> and \<open>strings.Cut\<close> at a character.\<close>

fun split_at :: "char \<Rightarrow> string \<Rightarrow> string list" where
  "split_at sep [] = [[]]"
| "split_at sep (c # cs) =
     (if c = sep then [] # split_at sep cs
      else (case split_at sep cs of [] \<Rightarrow> [[c]] | w # ws \<Rightarrow> (c # w) # ws))"

definition cut_at :: "char \<Rightarrow> string \<Rightarrow> string \<times> string" where
  "cut_at sep s = (takeWhile (\<lambda>c. c \<noteq> sep) s, tl (dropWhile (\<lambda>c. c \<noteq> sep) s))"

text \<open>One \<open>key=value\<close> part: empty parts and parts with a semicolon or a bad escape are skipped.\<close>

definition parse_part :: "string \<Rightarrow> (string \<times> string) option" where
  "parse_part part =
     (if part = [] \<or> CHR '';'' \<in> set part then None
      else let (k, v) = cut_at CHR ''='' part in
        (case (QueryUnescape k, QueryUnescape v) of
           (Some k', Some v') \<Rightarrow> Some (k', v')
         | _ \<Rightarrow> None))"

definition ParseQuery :: "string \<Rightarrow> (string \<times> string) list" where
  "ParseQuery s = List.map_filter parse_part (split_at CHR ''&'' s)"

text \<open>\<open>Values.Get\<close> and the list of all values of a key.\<close>

definition query_Get :: "(string \<times> string) list \<Rightarrow> string \<Rightarrow> string" where
  "query_Get q k = (case map_of q k of Some v \<Rightarrow> v | None \<Rightarrow> [])"

definition query_all :: "(string \<times> string) list \<Rightarrow> string \<Rightarrow> string list" where
  "query_all q k = map snd (filter (\<lambda>(k', v). k' = k) q)"

text \<open>\<open>Values.Encode\<close> of values with one entry a key, given in the order of the keys.\<close>

definition encode_part :: "string \<times> string \<Rightarrow> string" where
  "encode_part kv = QueryEscape (fst kv) @ ''='' @ QueryEscape (snd kv)"

fun join_with :: "char \<Rightarrow> string list \<Rightarrow> string" where
  "join_with sep [] = []"
| "join_with sep [w] = w"
| "join_with sep (w # ws) = w @ sep # join_with sep ws"

definition Values_Encode :: "(string \<times> string) list \<Rightarrow> string" where
  "Values_Encode kvs = join_with CHR ''&'' (map encode_part kvs)"

lemma hex_upper_plain: "n < 16 \<Longrightarrow> hex_upper n \<noteq> CHR ''&'' \<and> hex_upper n \<noteq> CHR ''='' \<and> hex_upper n \<noteq> CHR '';''"
  by (drule less_16_cases) (auto simp: hex_upper_def)

lemma escape_chars: "c \<in> set (QueryEscape s) \<Longrightarrow> c \<noteq> CHR ''&'' \<and> c \<noteq> CHR ''='' \<and> c \<noteq> CHR '';''"
  using hex_upper_plain [OF char_div_16] hex_upper_plain [of "of_char x mod 16" for x] unreserved_plain
  by (auto simp: QueryEscape_def escape_char_def split: if_splits)

lemma split_at_nonempty: "split_at sep s \<noteq> []"
  by (induction s) (auto split: list.split)

lemma split_at_word: "sep \<notin> set w \<Longrightarrow> split_at sep w = [w]"
  by (induction w) auto

lemma split_at_append: "sep \<notin> set w \<Longrightarrow> split_at sep (w @ sep # s) = w # split_at sep s"
  by (induction w) auto

lemma split_join:
  "ws \<noteq> [] \<Longrightarrow> \<forall>w \<in> set ws. sep \<notin> set w \<Longrightarrow> split_at sep (join_with sep ws) = ws"
  by (induction sep ws rule: join_with.induct) (simp_all add: split_at_word split_at_append)

lemma parse_encode_part: "parse_part (encode_part kv) = Some kv"
proof -
  let ?k = "QueryEscape (fst kv)" and ?v = "QueryEscape (snd kv)"
  have k: "\<forall>c \<in> set ?k. c \<noteq> CHR ''=''" and "CHR '';'' \<notin> set (encode_part kv)"
    using escape_chars [of _ "fst kv"] escape_chars [of _ "snd kv"] by (auto simp: encode_part_def)
  moreover have "takeWhile (\<lambda>c. c \<noteq> CHR ''='') (encode_part kv) = ?k"
    using k by (simp add: encode_part_def takeWhile_append)
  moreover have "dropWhile (\<lambda>c. c \<noteq> CHR ''='') (encode_part kv) = CHR ''='' # ?v"
    using k by (simp add: encode_part_def dropWhile_append)
  moreover have "encode_part kv \<noteq> []" by (simp add: encode_part_def)
  ultimately show ?thesis by (simp add: parse_part_def cut_at_def)
qed

lemma ParseQuery_Encode [simp]: "kvs \<noteq> [] \<Longrightarrow> ParseQuery (Values_Encode kvs) = kvs"
proof -
  assume "kvs \<noteq> []"
  have "CHR ''&'' \<notin> set (encode_part kv)" for kv
    using escape_chars [of _ "fst kv"] escape_chars [of _ "snd kv"] by (auto simp: encode_part_def)
  then have "split_at CHR ''&'' (Values_Encode kvs) = map encode_part kvs"
    unfolding Values_Encode_def using \<open>kvs \<noteq> []\<close> by (intro split_join) auto
  moreover have "List.map_filter parse_part (map encode_part kvs) = kvs"
    by (induction kvs) (simp_all add: List.map_filter_def parse_encode_part)
  ultimately show ?thesis by (simp add: ParseQuery_def)
qed

section \<open>Host and port\<close>

text \<open>
  The host of \<open>net.SplitHostPort\<close>, empty on every error (the caller ignores the error): the text before
  the last colon, without the brackets of an IPv6 address.
\<close>

definition last_colon :: "string \<Rightarrow> nat option" where
  "last_colon s =
     (if CHR '':'' \<in> set s then Some (length s - 1 - length (takeWhile (\<lambda>c. c \<noteq> CHR '':'') (rev s))) else None)"

definition index_of :: "char \<Rightarrow> string \<Rightarrow> nat option" where
  "index_of c s = (if c \<in> set s then Some (length (takeWhile (\<lambda>x. x \<noteq> c) s)) else None)"

definition split_host :: "string \<Rightarrow> string" where
  "split_host hp =
     (case last_colon hp of
        None \<Rightarrow> []
      | Some i \<Rightarrow>
          if hp ! 0 = CHR ''['' then
            (case index_of CHR '']'' hp of
               None \<Rightarrow> []
             | Some j \<Rightarrow>
                 if j + 1 \<noteq> i then []
                 else if CHR ''['' \<in> set (drop 1 hp) \<or> CHR '']'' \<in> set (drop (j + 1) hp) then []
                 else take (j - 1) (drop 1 hp))
          else
            let host = take i hp in
            if CHR '':'' \<in> set host then []
            else if CHR ''['' \<in> set hp \<or> CHR '']'' \<in> set hp then []
            else host)"

section \<open>Lengths\<close>

text \<open>Parsing never makes a text longer.\<close>

lemma QueryUnescape_length: "QueryUnescape s = Some t \<Longrightarrow> length t \<le> length s"
proof (induction s arbitrary: t rule: QueryUnescape.induct)
  case 1
  then show ?case by simp
next
  case (2 c cs)
  then show ?case by (fastforce split: if_splits list.splits option.splits)
qed

lemma split_at_length: "w \<in> set (split_at sep s) \<Longrightarrow> length w \<le> length s"
  by (induction s arbitrary: w) (fastforce split: if_splits list.splits)+

lemma hd_split_at_length: "length (hd (split_at sep s)) \<le> length s"
  by (rule split_at_length [of _ sep]) (simp add: split_at_nonempty)

lemma parse_part_length: "parse_part s = Some (k, v) \<Longrightarrow> length v \<le> length s"
proof -
  assume p: "parse_part s = Some (k, v)"
  let ?v = "tl (dropWhile (\<lambda>c. c \<noteq> CHR ''='') s)"
  have "QueryUnescape ?v = Some v"
    using p by (auto simp: parse_part_def cut_at_def split: if_splits option.splits)
  then have "length v \<le> length ?v" by (rule QueryUnescape_length)
  also have "\<dots> \<le> length s" using length_dropWhile_le [of "\<lambda>c. c \<noteq> CHR ''=''" s] by (simp add: le_diff_conv)
  finally show ?thesis .
qed

lemma ParseQuery_length: "(k, v) \<in> set (ParseQuery s) \<Longrightarrow> length v \<le> length s"
proof -
  assume "(k, v) \<in> set (ParseQuery s)"
  then obtain w where "w \<in> set (split_at CHR ''&'' s)" "parse_part w = Some (k, v)"
    by (auto simp: ParseQuery_def List.map_filter_def)
  then show ?thesis using parse_part_length split_at_length by (meson le_trans)
qed

lemma query_Get_length: "length (query_Get (ParseQuery s) k) \<le> length s"
  by (auto simp: query_Get_def dest!: map_of_SomeD intro: ParseQuery_length split: option.split)

lemma query_all_length: "v \<in> set (query_all (ParseQuery s) k) \<Longrightarrow> length v \<le> length s"
  by (auto simp: query_all_def ParseQuery_length)

lemma split_host_length: "length (split_host s) \<le> length s"
  by (auto simp: split_host_def Let_def split: option.split)

end
