(* ===== verification/Go_Http.thy ===== *)
theory Go_Http
  imports Go_Url
begin

text \<open>
  HTTP as the tracker and its client see it: a parsed URL, the parts of a request the handlers read, a
  response, and what a client gets for a \<open>Get\<close>.
\<close>

record url =
  Scheme :: string
  Host :: string
  Path :: string
  RawQuery :: string

record http_request =
  req_Path :: string
  req_RawQuery :: string
  X_Real_IP :: string        \<comment> \<open>\<open>r.Header.Get("X-Real-IP")\<close>\<close>
  X_Forwarded_For :: string  \<comment> \<open>\<open>r.Header.Get("X-Forwarded-For")\<close>\<close>
  RemoteAddr :: string

record http_response =
  StatusCode :: nat
  Body :: string

text \<open>A \<open>Get\<close> fails, or delivers a response whose body cannot be read, or delivers it whole.\<close>

datatype http_result = GetFailed | BodyUnreadable nat | GotResponse http_response

text \<open>The request a server sees for a \<open>Get\<close> of the program's client, which sets no header.\<close>

definition request_of :: "url \<Rightarrow> string \<Rightarrow> http_request" where
  "request_of u remote =
     \<lparr>req_Path = Path u, req_RawQuery = RawQuery u, X_Real_IP = [], X_Forwarded_For = [], RemoteAddr = remote\<rparr>"

end
