(* ===== verification/Prefix_Code.thy ===== *)
theory Prefix_Code
  imports Pix_Prelude
begin

text \<open>
  The contract between a writer and a reader of a byte stream.  \<open>rep s x\<close> says that \<open>s\<close> is a
  representation of the value \<open>x\<close>, and \<open>dec\<close> reads one value off the front of a stream and returns
  the rest.  The single law is that \<open>dec\<close> recovers the value in front of any continuation; what a
  client of a stream needs follows: the representations are prefix-free and unambiguous, and a
  concatenation of representations is read back value by value.
\<close>

fun decode_n :: "('b list \<Rightarrow> 'e + 'a \<times> 'b list) \<Rightarrow> nat \<Rightarrow> 'b list \<Rightarrow> 'e + 'a list \<times> 'b list" where
  "decode_n dec 0 s = Inr ([], s)"
| "decode_n dec (Suc n) s =
     bindE (dec s) (\<lambda>(x, r). bindE (decode_n dec n r) (\<lambda>(xs, r'). Inr (x # xs, r')))"

locale prefix_code =
  fixes rep :: "'b list \<Rightarrow> 'a \<Rightarrow> bool"
    and dec :: "'b list \<Rightarrow> 'e + 'a \<times> 'b list"
  assumes dec_rep: "rep s x \<Longrightarrow> dec (s @ rest) = Inr (x, rest)"
begin

lemma dec_rep_Nil: "rep s x \<Longrightarrow> dec s = Inr (x, [])"
  using dec_rep [of s x "[]"] by simp

lemma rep_append_unique:
  assumes "rep s x" and "rep t y" and "s @ u = t @ w"
  shows "x = y \<and> u = w"
proof -
  have "Inr (x, u) = dec (s @ u)" using assms(1) by (simp add: dec_rep)
  also have "\<dots> = Inr (y, w)" using assms(2,3) by (simp add: dec_rep)
  finally show ?thesis by simp
qed

lemma rep_unambiguous: "rep s x \<Longrightarrow> rep s y \<Longrightarrow> x = y"
  using rep_append_unique [of s x s y "[]" "[]"] by simp

lemma rep_prefix_free: "rep s x \<Longrightarrow> rep (s @ t) y \<Longrightarrow> t = []"
  using rep_append_unique [of s x "s @ t" y t "[]"] by simp

lemma decode_n_concat:
  assumes "list_all2 rep ss xs"
  shows "decode_n dec (length xs) (concat ss @ rest) = Inr (xs, rest)"
  using assms by (induction rule: list_all2_induct) (simp_all add: dec_rep)

lemma concat_unique:
  assumes "list_all2 rep ss xs" and "list_all2 rep ts ys" and "length xs = length ys"
    and "concat ss = concat ts"
  shows "xs = ys"
  using decode_n_concat [OF assms(1), of "[]"] decode_n_concat [OF assms(2), of "[]"] assms(3,4)
  by simp

end

end
