(* ===== verification/Bencode.thy ===== *)
theory Bencode
  imports Go_Text Prefix_Code
begin

text \<open>
  The bencode decoder of \<open>src/meta/bencode.go\<close>.  A decoder reads from an \<open>io.Reader\<close>; the program
  builds it over a byte slice (\<open>bytes.NewReader\<close>), so the reader is the list of the bytes not read
  yet, each a \<open>char\<close>, and every parse function returns the value and the rest of the input.

  The definitions follow the decoder: \<open>parseInt\<close> and \<open>parseString\<close> read up to their terminator and
  hand the text to \<open>Sscanf\<close>; \<open>Decode\<close>, \<open>parseList\<close> and \<open>parseDict\<close> are mutually recursive.  A string
  length above what \<open>make\<close> accepts is a run-time panic, not an error.  The relation \<open>bencodes\<close> is the
  format described in the comment of the source.
\<close>

section \<open>Values and errors\<close>

datatype node =
    BInt int
  | BString string
  | BList "node list"
  | BDict "(string, node) fmap"

datatype dec_err =
    ReadEOF                       \<comment> \<open>\<open>io.EOF\<close>\<close>
  | ReadUnexpectedEOF             \<comment> \<open>\<open>io.ErrUnexpectedEOF\<close> of \<open>io.ReadFull\<close>\<close>
  | ScanError scan_err
  | UnsupportedType char
  | UnsupportedTypeInList char
  | KeyNotString char

section \<open>The parse functions\<close>

fun read_until :: "char \<Rightarrow> string \<Rightarrow> (string \<times> string) option" where
  "read_until stop [] = None"
| "read_until stop (c # cs) =
     (if c = stop then Some ([], cs)
      else map_option (\<lambda>(t, r). (c # t, r)) (read_until stop cs))"

definition parseInt :: "string \<Rightarrow> dec_err fail + int \<times> string" where
  "parseInt s =
     (case read_until CHR ''e'' s of
        None \<Rightarrow> Inl (Err ReadEOF)
      | Some (numStr, r) \<Rightarrow>
          (case Sscanf_d numStr of
             Inl e \<Rightarrow> Inl (Err (ScanError e))
           | Inr i \<Rightarrow> Inr (i, r)))"

definition read_full :: "nat \<Rightarrow> string \<Rightarrow> dec_err fail + string \<times> string" where
  "read_full n s =
     (if n \<le> length s then Inr (take n s, drop n s)
      else if s = [] then Inl (Err ReadEOF)
      else Inl (Err ReadUnexpectedEOF))"

definition parseString :: "char \<Rightarrow> string \<Rightarrow> dec_err fail + string \<times> string" where
  "parseString firstDigit s =
     (case read_until CHR '':'' s of
        None \<Rightarrow> Inl (Err ReadEOF)
      | Some (t, r) \<Rightarrow>
          (case Sscanf_d (firstDigit # t) of
             Inl e \<Rightarrow> Inl (Err (ScanError e))
           | Inr len \<Rightarrow>
               if len < 0 \<or> len > max_alloc then Inl (Panic MakesliceLen)
               else read_full (nat len) r))"

function (sequential) Decode :: "string \<Rightarrow> dec_err fail + node \<times> string"
  and parseList :: "node list \<Rightarrow> string \<Rightarrow> dec_err fail + node list \<times> string"
  and parseDict :: "(string, node) fmap \<Rightarrow> string \<Rightarrow> dec_err fail + (string, node) fmap \<times> string"
where
  "Decode [] = Inl (Err ReadEOF)"
| "Decode (b # s) =
     (if b = CHR ''i'' then bindE (parseInt s) (\<lambda>(i, r). Inr (BInt i, r))
      else if is_digit b then bindE (parseString b s) (\<lambda>(t, r). Inr (BString t, r))
      else if b = CHR ''l'' then bindE (parseList [] s) (\<lambda>(xs, r). Inr (BList xs, r))
      else if b = CHR ''d'' then bindE (parseDict fmempty s) (\<lambda>(d, r). Inr (BDict d, r))
      else Inl (Err (UnsupportedType b)))"
| "parseList acc [] = Inl (Err ReadEOF)"
| "parseList acc (b # s) =
     (if b = CHR ''e'' then Inr (acc, s)
      else
        bindE
          (if b = CHR ''i'' then bindE (parseInt s) (\<lambda>(i, r). Inr (BInt i, r))
           else if is_digit b then bindE (parseString b s) (\<lambda>(t, r). Inr (BString t, r))
           else if b = CHR ''l'' then bindE (parseList [] s) (\<lambda>(xs, r). Inr (BList xs, r))
           else if b = CHR ''d'' then bindE (parseDict fmempty s) (\<lambda>(d, r). Inr (BDict d, r))
           else Inl (Err (UnsupportedTypeInList b)))
          (\<lambda>(v, r). parseList (acc @ [v]) r))"
| "parseDict d [] = Inl (Err ReadEOF)"
| "parseDict d (b # s) =
     (if b = CHR ''e'' then Inr (d, s)
      else if is_digit b then
        bindE (parseString b s) (\<lambda>(key, r).
          bindE (Decode r) (\<lambda>(v, r').
            parseDict (fmupd key v d) r'))
      else Inl (Err (KeyNotString b)))"
  by pat_completeness auto

subsection \<open>Every parse function consumes input, and the decoder terminates\<close>

lemma read_until_shorter: "read_until stop s = Some (t, r) \<Longrightarrow> length r < length s"
  by (induction s arbitrary: t) (auto split: if_splits)

lemma parseInt_shorter: "parseInt s = Inr (i, r) \<Longrightarrow> length r < length s"
  by (auto simp: parseInt_def split: option.splits sum.splits dest: read_until_shorter)

lemma parseString_shorter: "parseString b s = Inr (t, r) \<Longrightarrow> length r < length s"
  by (auto simp: parseString_def read_full_def split: option.splits sum.splits if_splits
      dest!: read_until_shorter)

lemma decode_dom_shorter:
  "Decode_parseList_parseDict_dom (Inl s) \<Longrightarrow> Decode s = Inr (v, r) \<Longrightarrow> length r < length s"
  "Decode_parseList_parseDict_dom (Inr (Inl (acc, s))) \<Longrightarrow>
     parseList acc s = Inr (xs, r) \<Longrightarrow> length r < length s"
  "Decode_parseList_parseDict_dom (Inr (Inr (d, s))) \<Longrightarrow>
     parseDict d s = Inr (d', r) \<Longrightarrow> length r < length s"
proof (induction s and acc s and d s arbitrary: v r and xs r and d' r
    rule: Decode_parseList_parseDict.pinduct)
  case (1)
  then show ?case by (simp add: Decode.psimps)
next
  case (2 b s)
  then show ?case
    by (auto simp: Decode.psimps bindE_Inr_iff less_Suc_eq split: if_splits
        dest: parseInt_shorter parseString_shorter)
next
  case (3 acc)
  then show ?case by (simp add: parseList.psimps)
next
  case (4 acc b s)
  then show ?case
    by (fastforce simp: parseList.psimps bindE_Inr_iff split: if_splits
        dest: parseInt_shorter parseString_shorter)
next
  case (5 d)
  then show ?case by (simp add: parseDict.psimps)
next
  case (6 d b s)
  then show ?case
    by (fastforce simp: parseDict.psimps bindE_Inr_iff split: if_splits
        dest: parseString_shorter)
qed

termination Decode
  by (relation "measure (\<lambda>x. case x of Inl s \<Rightarrow> length s | Inr (Inl (acc, s)) \<Rightarrow> length s
        | Inr (Inr (d, s)) \<Rightarrow> length s)")
    (auto simp: bindE_Inr_iff split: if_splits
      dest!: parseInt_shorter parseString_shorter decode_dom_shorter)

lemma decode_shorter:
  "Decode s = Inr (v, r) \<Longrightarrow> length r < length s"
  "parseList acc s = Inr (xs, r) \<Longrightarrow> length r < length s"
  "parseDict d s = Inr (d', r) \<Longrightarrow> length r < length s"
proof (induction s and acc s and d s arbitrary: v r and xs r and d' r
    rule: Decode_parseList_parseDict.induct)
  case (2 b s)
  then show ?case
    by (auto simp: bindE_Inr_iff less_Suc_eq split: if_splits
        dest: parseInt_shorter parseString_shorter)
next
  case (4 acc b s)
  then show ?case
    by (fastforce simp: bindE_Inr_iff split: if_splits
        dest: parseInt_shorter parseString_shorter)
next
  case (6 d b s)
  then show ?case
    by (fastforce simp: bindE_Inr_iff split: if_splits dest: parseString_shorter)
qed simp_all

section \<open>The format\<close>

text \<open>
  The format of the comment above \<open>Decode\<close>: integers are \<open>i<number>e\<close>, strings \<open><len>:<string>\<close>, lists
  \<open>l<items>e\<close> and dictionaries \<open>d<key><value>...e\<close>.  A dictionary text is a sequence of key and value
  texts in any order; a later entry overrides an earlier one with the same key, as the assignment
  \<open>dict[key] = value\<close> does.
\<close>

definition bint :: "int \<Rightarrow> string" where
  "bint i = ''i'' @ itoa i @ ''e''"

definition bstr :: "string \<Rightarrow> string" where
  "bstr s = utoa (length s) @ '':'' @ s"

definition str_ok :: "string \<Rightarrow> bool" where
  "str_ok s \<longleftrightarrow> int (length s) \<le> max_alloc"

definition dict_of :: "(string, node) fmap \<Rightarrow> (string \<times> node) list \<Rightarrow> (string, node) fmap" where
  "dict_of d kvs = foldl (\<lambda>m (k, v). fmupd k v m) d kvs"

lemma dict_of_simps [simp]:
  "dict_of d [] = d"
  "dict_of d ((k, v) # kvs) = dict_of (fmupd k v d) kvs"
  by (simp_all add: dict_of_def)

inductive bencodes :: "string \<Rightarrow> node \<Rightarrow> bool"
  and bencodes_list :: "string \<Rightarrow> node list \<Rightarrow> bool"
  and bencodes_dict :: "string \<Rightarrow> (string \<times> node) list \<Rightarrow> bool"
where
  benc_int: "int64_ok i \<Longrightarrow> bencodes (bint i) (BInt i)"
| benc_str: "str_ok s \<Longrightarrow> bencodes (bstr s) (BString s)"
| benc_list: "bencodes_list bs xs \<Longrightarrow> bencodes (''l'' @ bs @ ''e'') (BList xs)"
| benc_dict: "bencodes_dict bs kvs \<Longrightarrow> bencodes (''d'' @ bs @ ''e'') (BDict (dict_of fmempty kvs))"
| benc_nil: "bencodes_list [] []"
| benc_cons: "bencodes b x \<Longrightarrow> bencodes_list bs xs \<Longrightarrow> bencodes_list (b @ bs) (x # xs)"
| benc_dnil: "bencodes_dict [] []"
| benc_dcons: "str_ok k \<Longrightarrow> bencodes b v \<Longrightarrow> bencodes_dict bs kvs \<Longrightarrow>
    bencodes_dict (bstr k @ b @ bs) ((k, v) # kvs)"

lemmas bencodes_intros = benc_int benc_str benc_list benc_dict benc_nil benc_cons benc_dnil benc_dcons

subsection \<open>Reading back integers and strings\<close>

lemma read_until_append: "stop \<notin> set t \<Longrightarrow> read_until stop (t @ stop # r) = Some (t, r)"
  by (induction t) auto

lemma not_digit_stop [simp]: "\<not> is_digit CHR ''e''" "\<not> is_digit CHR '':''" "\<not> is_digit CHR ''i''"
  "\<not> is_digit CHR ''l''" "\<not> is_digit CHR ''d''"
  by (simp_all add: is_digit_def)

lemma utoa_stop: "\<not> is_digit c \<Longrightarrow> c \<notin> set (utoa n)"
  using utoa_digits by blast

lemma itoa_no_e: "CHR ''e'' \<notin> set (itoa i)"
  by (auto simp: itoa_def utoa_stop)

lemma parseInt_itoa: "int64_ok i \<Longrightarrow> parseInt (itoa i @ ''e'' @ r) = Inr (i, r)"
  using read_until_append [OF itoa_no_e, of i r] by (simp add: parseInt_def Sscanf_d_itoa)

lemma read_full_append [simp]: "read_full (length s) (s @ r) = Inr (s, r)"
  by (simp add: read_full_def)

lemma utoa_Cons: "\<exists>c cs. utoa n = c # cs \<and> is_digit c \<and> CHR '':'' \<notin> set cs"
  using utoa_nonempty [of n] utoa_digits [of _ n] utoa_stop [of "CHR '':''" n]
  by (cases "utoa n") auto

lemma parseString_utoa:
  assumes "utoa n = c # cs" and "int64_ok (int n)"
  shows "parseString c (cs @ '':'' @ r) =
    (if int n > max_alloc then Inl (Panic MakesliceLen) else read_full n r)"
proof -
  have "CHR '':'' \<notin> set cs" using assms(1) utoa_Cons [of n] by auto
  then have "read_until CHR '':'' (cs @ '':'' @ r) = Some (cs, r)"
    using read_until_append by simp
  moreover have "Sscanf_d (c # cs) = Inr (int n)"
    using Sscanf_d_itoa [OF assms(2)] assms(1) by (simp add: itoa_def)
  ultimately show ?thesis by (simp add: parseString_def)
qed

lemma str_ok_int64: "str_ok s \<Longrightarrow> int64_ok (int (length s))"
  by (simp add: str_ok_def int64_ok_def max_alloc_def)

lemma bstr_split:
  assumes "str_ok s"
  obtains c cs where "bstr s = c # cs" and "is_digit c"
    and "\<And>r. parseString c (cs @ r) = Inr (s, r)"
proof -
  obtain c cs where u: "utoa (length s) = c # cs" and c: "is_digit c" using utoa_Cons by blast
  show thesis
  proof
    show "bstr s = c # (cs @ '':'' @ s)" by (simp add: bstr_def u)
    show "is_digit c" by (fact c)
    show "parseString c ((cs @ '':'' @ s) @ r) = Inr (s, r)" for r
      using parseString_utoa [OF u str_ok_int64 [OF assms], of "s @ r"] assms
      by (simp add: str_ok_def)
  qed
qed

text \<open>The integer and string texts are prefix codes.\<close>

interpretation int_code: prefix_code
  "\<lambda>s i. int64_ok i \<and> s = itoa i @ ''e''" parseInt
  by unfold_locales (use parseInt_itoa in auto)

subsection \<open>The decoder accepts every text of the format\<close>

lemma Decode_bint [simp]: "int64_ok i \<Longrightarrow> Decode (bint i @ r) = Inr (BInt i, r)"
  using parseInt_itoa [of i r] by (simp add: bint_def)

lemma digit_not_letter: "is_digit c \<Longrightarrow> c \<noteq> CHR ''i'' \<and> c \<noteq> CHR ''e''"
  by (auto simp: is_digit_def)

lemma Decode_bstr [simp]: "str_ok s \<Longrightarrow> Decode (bstr s @ r) = Inr (BString s, r)"
  by (erule bstr_split) (simp add: digit_not_letter)

text \<open>The dispatch of \<open>parseList\<close> on the first byte is that of \<open>Decode\<close>.\<close>

lemma parseList_step:
  assumes "Decode s = Inr (v, r)" and "hd s \<noteq> CHR ''e''"
  shows "parseList acc s = parseList (acc @ [v]) r"
proof -
  obtain b s' where s: "s = b # s'" using assms(1) by (cases s) auto
  with assms show ?thesis by (auto split: if_splits)
qed

lemma Decode_Inr_nonempty: "Decode s = Inr (v, r) \<Longrightarrow> s \<noteq> [] \<and> hd s \<noteq> CHR ''e''"
  by (cases s) (auto split: if_splits)

lemma parseDict_step:
  assumes "str_ok k" and "Decode s = Inr (v, r)"
  shows "parseDict d (bstr k @ s) = parseDict (fmupd k v d) r"
  using assms by (elim bstr_split) (auto simp: digit_not_letter)

lemma bencodes_decode:
  "bencodes bs v \<Longrightarrow> (\<forall>r. Decode (bs @ r) = Inr (v, r))"
  "bencodes_list bs xs \<Longrightarrow> (\<forall>acc r. parseList acc (bs @ ''e'' @ r) = Inr (acc @ xs, r))"
  "bencodes_dict bs kvs \<Longrightarrow> (\<forall>d r. parseDict d (bs @ ''e'' @ r) = Inr (dict_of d kvs, r))"
proof (induction rule: bencodes_bencodes_list_bencodes_dict.inducts)
  case (benc_cons b x bs xs)
  show ?case
  proof (intro allI)
    fix acc r
    have dec: "Decode (b @ bs @ ''e'' @ r) = Inr (x, bs @ ''e'' @ r)"
      using benc_cons.IH(1) by blast
    then have "hd (b @ bs @ ''e'' @ r) \<noteq> CHR ''e''" using Decode_Inr_nonempty by blast
    from parseList_step [OF dec this] benc_cons.IH(2)
    show "parseList acc ((b @ bs) @ ''e'' @ r) = Inr (acc @ x # xs, r)" by simp
  qed
next
  case (benc_dcons k b v bs kvs)
  then show ?case by (simp add: parseDict_step)
qed simp_all

interpretation bencode: prefix_code bencodes Decode
  by unfold_locales (use bencodes_decode in blast)

subsection \<open>Inversion of a successful parse\<close>

lemma Decode_Inr_cases:
  assumes "Decode s = Inr (v, r)"
  obtains (int) i s' where "s = CHR ''i'' # s'" and "parseInt s' = Inr (i, r)" and "v = BInt i"
  | (str) b t s' where "s = b # s'" and "is_digit b" and "parseString b s' = Inr (t, r)" and "v = BString t"
  | (list) xs s' where "s = CHR ''l'' # s'" and "parseList [] s' = Inr (xs, r)" and "v = BList xs"
  | (dict) d s' where "s = CHR ''d'' # s'" and "parseDict fmempty s' = Inr (d, r)" and "v = BDict d"
  using assms by (cases s) (auto simp: bindE_Inr_iff split: if_splits)

lemma parseList_Inr_cases:
  assumes "parseList acc s = Inr (xs, r)"
  obtains (stop) "s = CHR ''e'' # r" and "xs = acc"
  | (item) v r' where "Decode s = Inr (v, r')" and "parseList (acc @ [v]) r' = Inr (xs, r)"
      and "length r' < length s" and "s \<noteq> []" and "hd s \<noteq> CHR ''e''"
proof (cases s)
  case Nil
  with assms show thesis by simp
next
  case (Cons b s')
  show thesis
  proof (cases "b = CHR ''e''")
    case True
    with assms Cons show thesis by (intro stop) simp_all
  next
    case False
    with assms Cons obtain v r' where i: "Decode s = Inr (v, r')" "parseList (acc @ [v]) r' = Inr (xs, r)"
      by (auto simp: bindE_Inr_iff split: if_splits)
    show thesis by (rule item [OF i decode_shorter(1) [OF i(1)]]) (use Cons False in simp_all)
  qed
qed

lemma parseDict_Inr_cases:
  assumes "parseDict d s = Inr (d', r)"
  obtains (stop) "s = CHR ''e'' # r" and "d' = d"
  | (item) b s' key r1 v r2 where "s = b # s'" and "is_digit b" and "parseString b s' = Inr (key, r1)"
      and "Decode r1 = Inr (v, r2)" and "parseDict (fmupd key v d) r2 = Inr (d', r)"
      and "length r1 < length s" and "length r2 < length s"
proof (cases s)
  case Nil
  with assms show thesis by simp
next
  case (Cons b s')
  show thesis
  proof (cases "b = CHR ''e''")
    case True
    with assms Cons show thesis by (intro stop) simp_all
  next
    case False
    with assms Cons obtain key r1 v r2 where k: "is_digit b" "parseString b s' = Inr (key, r1)"
      "Decode r1 = Inr (v, r2)" "parseDict (fmupd key v d) r2 = Inr (d', r)"
      by (auto simp: bindE_Inr_iff split: if_splits)
    have "length r1 < length s" and "length r2 < length s"
      using parseString_shorter [OF k(2)] decode_shorter(1) [OF k(3)] Cons by simp_all
    from item [OF Cons k this] show thesis .
  qed
qed

text \<open>
  The successful runs as an inductive relation, for rule induction: \<open>reads s v r\<close> says that the
  decoder turns \<open>s\<close> into \<open>v\<close> and leaves \<open>r\<close>.
\<close>

inductive reads :: "string \<Rightarrow> node \<Rightarrow> string \<Rightarrow> bool"
  and reads_list :: "node list \<Rightarrow> string \<Rightarrow> node list \<Rightarrow> string \<Rightarrow> bool"
  and reads_dict :: "(string, node) fmap \<Rightarrow> string \<Rightarrow> (string, node) fmap \<Rightarrow> string \<Rightarrow> bool"
where
  rd_int: "parseInt s = Inr (i, r) \<Longrightarrow> reads (CHR ''i'' # s) (BInt i) r"
| rd_str: "is_digit b \<Longrightarrow> parseString b s = Inr (t, r) \<Longrightarrow> reads (b # s) (BString t) r"
| rd_list: "reads_list [] s xs r \<Longrightarrow> reads (CHR ''l'' # s) (BList xs) r"
| rd_dict: "reads_dict fmempty s d r \<Longrightarrow> reads (CHR ''d'' # s) (BDict d) r"
| rd_stop: "reads_list acc (CHR ''e'' # r) acc r"
| rd_item: "s \<noteq> [] \<Longrightarrow> hd s \<noteq> CHR ''e'' \<Longrightarrow> reads s v r' \<Longrightarrow> reads_list (acc @ [v]) r' xs r \<Longrightarrow>
    reads_list acc s xs r"
| rd_dstop: "reads_dict d (CHR ''e'' # r) d r"
| rd_ditem: "is_digit b \<Longrightarrow> parseString b s = Inr (key, r1) \<Longrightarrow> reads r1 v r2 \<Longrightarrow>
    reads_dict (fmupd key v d) r2 d' r \<Longrightarrow> reads_dict d (b # s) d' r"

lemma decode_reads:
  "(\<forall>v r. Decode s = Inr (v, r) \<longrightarrow> reads s v r) \<and>
   (\<forall>acc xs r. parseList acc s = Inr (xs, r) \<longrightarrow> reads_list acc s xs r) \<and>
   (\<forall>d d' r. parseDict d s = Inr (d', r) \<longrightarrow> reads_dict d s d' r)"
proof (induction s rule: measure_induct_rule [where f = length])
  case (less s)
  have dec: "reads s v r" if "Decode s = Inr (v, r)" for v r
    using that
  proof (cases rule: Decode_Inr_cases)
    case (list xs s')
    with less have "reads_list [] s' xs r" by simp
    with list show ?thesis by (simp add: rd_list)
  next
    case (dict d s')
    with less have "reads_dict fmempty s' d r" by simp
    with dict show ?thesis by (simp add: rd_dict)
  qed (simp_all add: rd_int rd_str)
  moreover have "reads_list acc s xs r" if "parseList acc s = Inr (xs, r)" for acc xs r
    using that
  proof (cases rule: parseList_Inr_cases)
    case (item v r')
    then have "reads_list (acc @ [v]) r' xs r" using less by blast
    with item dec show ?thesis by (blast intro: rd_item)
  qed (simp add: rd_stop)
  moreover have "reads_dict d s d' r" if "parseDict d s = Inr (d', r)" for d d' r
    using that
  proof (cases rule: parseDict_Inr_cases)
    case (item b s' key r1 v r2)
    then have "reads r1 v r2" and "reads_dict (fmupd key v d) r2 d' r" using less by blast+
    with item show ?thesis by (simp add: rd_ditem)
  qed (simp add: rd_dstop)
  ultimately show ?case by blast
qed

lemma Decode_reads: "Decode s = Inr (v, r) \<Longrightarrow> reads s v r"
  using decode_reads by blast

subsection \<open>The decoder looks at nothing behind the value it returns\<close>

lemma read_until_split:
  "read_until stop s = Some (t, r) \<Longrightarrow> s = t @ stop # r \<and> stop \<notin> set t"
  by (induction s arbitrary: t) (auto split: if_splits)

lemma parseInt_split:
  assumes "parseInt s = Inr (i, r)"
  obtains p where "s = p @ r" and "\<And>u. parseInt (p @ u) = Inr (i, u)"
proof -
  from assms obtain t where t: "read_until CHR ''e'' s = Some (t, r)" and i: "Sscanf_d t = Inr i"
    by (auto simp: parseInt_def split: option.splits sum.splits)
  then have s: "s = (t @ ''e'') @ r" and e: "CHR ''e'' \<notin> set t" using read_until_split by auto
  have "parseInt ((t @ ''e'') @ u) = Inr (i, u)" for u
    using read_until_append [OF e, of u] i by (simp add: parseInt_def)
  with s show thesis by (rule that)
qed

lemma parseString_split:
  assumes "parseString b s = Inr (x, r)"
  obtains p where "s = p @ r" and "\<And>u. parseString b (p @ u) = Inr (x, u)"
proof -
  from assms obtain t s' len where t: "read_until CHR '':'' s = Some (t, s')"
    and len: "Sscanf_d (b # t) = Inr len" "\<not> (len < 0 \<or> len > max_alloc)"
    and full: "read_full (nat len) s' = Inr (x, r)"
    by (auto simp: parseString_def split: option.splits sum.splits if_splits)
  from full have s': "s' = x @ r" and n: "length x = nat len"
    by (auto simp: read_full_def split: if_splits)
  from t s' have s: "s = (t @ '':'' @ x) @ r" and c: "CHR '':'' \<notin> set t" using read_until_split by auto
  have "parseString b ((t @ '':'' @ x) @ u) = Inr (x, u)" for u
    using read_until_append [OF c, of "x @ u"] len n read_full_append [of x u]
    by (simp add: parseString_def)
  with s show thesis by (rule that)
qed

lemma reads_split:
  "reads s v r \<Longrightarrow> \<exists>p. s = p @ r \<and> (\<forall>u. Decode (p @ u) = Inr (v, u))"
  "reads_list acc s xs r \<Longrightarrow> \<exists>p. s = p @ r \<and> (\<forall>u. parseList acc (p @ u) = Inr (xs, u))"
  "reads_dict d s d' r \<Longrightarrow> \<exists>p. s = p @ r \<and> (\<forall>u. parseDict d (p @ u) = Inr (d', u))"
proof (induction rule: reads_reads_list_reads_dict.inducts)
  case (rd_int s i r)
  then obtain p where "s = p @ r" and "\<And>u. parseInt (p @ u) = Inr (i, u)"
    by (elim parseInt_split) blast
  then show ?case by (intro exI [of _ "CHR ''i'' # p"]) simp
next
  case (rd_str b s t r)
  then obtain p where "s = p @ r" and "\<And>u. parseString b (p @ u) = Inr (t, u)"
    by (elim parseString_split) blast
  with rd_str show ?case by (intro exI [of _ "b # p"]) (simp add: digit_not_letter)
next
  case (rd_list s xs r)
  then obtain p where "s = p @ r" and "\<And>u. parseList [] (p @ u) = Inr (xs, u)" by blast
  then show ?case by (intro exI [of _ "CHR ''l'' # p"]) simp
next
  case (rd_dict s d r)
  then obtain p where "s = p @ r" and "\<And>u. parseDict fmempty (p @ u) = Inr (d, u)" by blast
  then show ?case by (intro exI [of _ "CHR ''d'' # p"]) simp
next
  case (rd_stop acc r)
  show ?case by (intro exI [of _ "''e''"]) simp
next
  case (rd_item s v r' acc xs r)
  then obtain p q where p: "s = p @ r'" "\<And>u. Decode (p @ u) = Inr (v, u)"
    and q: "r' = q @ r" "\<And>u. parseList (acc @ [v]) (q @ u) = Inr (xs, u)" by blast
  have "parseList acc ((p @ q) @ u) = Inr (xs, u)" for u
  proof -
    have dec: "Decode (p @ q @ u) = Inr (v, q @ u)" by (fact p(2))
    then have "hd (p @ q @ u) \<noteq> CHR ''e''" using Decode_Inr_nonempty by blast
    from parseList_step [OF dec this] q(2) show ?thesis by simp
  qed
  with p(1) q(1) show ?case by (intro exI [of _ "p @ q"]) simp
next
  case (rd_dstop d r)
  show ?case by (intro exI [of _ "''e''"]) simp
next
  case (rd_ditem b s key r1 v r2 d d' r)
  obtain k where k: "s = k @ r1" "\<And>u. parseString b (k @ u) = Inr (key, u)"
    using rd_ditem.hyps(2) by (rule parseString_split) blast
  from rd_ditem.IH obtain p q where p: "r1 = p @ r2" "\<And>u. Decode (p @ u) = Inr (v, u)"
    and q: "r2 = q @ r" "\<And>u. parseDict (fmupd key v d) (q @ u) = Inr (d', u)" by blast
  show ?case
    using rd_ditem.hyps(1) k p q by (intro exI [of _ "b # k @ p @ q"]) (simp add: digit_not_letter)
qed

lemma Decode_split:
  assumes "Decode s = Inr (v, r)"
  obtains p where "s = p @ r" and "\<And>u. Decode (p @ u) = Inr (v, u)"
  using reads_split(1) [OF Decode_reads [OF assms]] that by blast

lemma Decode_extend: "Decode s = Inr (v, r) \<Longrightarrow> Decode (s @ u) = Inr (v, r @ u)"
  by (erule Decode_split) simp

subsection \<open>What the decoder can return\<close>

text \<open>A value whose integers all fit Go's \<open>int\<close> and whose strings fit the allocation bound.\<close>

inductive node_ok :: "node \<Rightarrow> bool" where
  ok_int: "int64_ok i \<Longrightarrow> node_ok (BInt i)"
| ok_str: "str_ok s \<Longrightarrow> node_ok (BString s)"
| ok_list: "(\<forall>x \<in> set xs. node_ok x) \<Longrightarrow> node_ok (BList xs)"
| ok_dict: "(\<forall>k v. fmlookup d k = Some v \<longrightarrow> str_ok k \<and> node_ok v) \<Longrightarrow> node_ok (BDict d)"

inductive_simps node_ok_simps:
  "node_ok (BInt i)"
  "node_ok (BString s)"
  "node_ok (BList xs)"
  "node_ok (BDict d)"

abbreviation entry_ok :: "string \<Rightarrow> node \<Rightarrow> bool" where
  "entry_ok k v \<equiv> str_ok k \<and> node_ok v"

lemma node_ok_dict_iff: "node_ok (BDict d) \<longleftrightarrow> fmpred entry_ok d"
  by (simp add: node_ok_simps fmpred_iff)

lemma parseInt_ok: "parseInt s = Inr (i, r) \<Longrightarrow> int64_ok i"
  by (auto simp: parseInt_def Sscanf_d_range split: option.splits sum.splits)

lemma parseString_ok: "parseString b s = Inr (t, r) \<Longrightarrow> str_ok t"
  by (auto simp: parseString_def read_full_def str_ok_def split: option.splits sum.splits if_splits)

lemma reads_ok:
  "reads s v r \<Longrightarrow> node_ok v"
  "reads_list acc s xs r \<Longrightarrow> list_all node_ok acc \<Longrightarrow> list_all node_ok xs"
  "reads_dict d s d' r \<Longrightarrow> fmpred entry_ok d \<Longrightarrow> fmpred entry_ok d'"
proof (induction rule: reads_reads_list_reads_dict.inducts)
  case (rd_dict s d r)
  then show ?case by (simp add: node_ok_dict_iff)
next
  case (rd_ditem b s key r1 v r2 d d' r)
  have "str_ok key" using rd_ditem.hyps(2) by (rule parseString_ok)
  with rd_ditem show ?case by (simp add: fmpred_upd)
qed (auto simp: node_ok_simps list_all_iff intro: parseInt_ok parseString_ok)

section \<open>Properties\<close>

text \<open>
  C33.  The decoder reads back every well-formed bencode text: whatever value the format of the
  source's comment assigns to a text, \<open>Decode\<close> returns that value and leaves exactly the bytes that
  follow it.
\<close>

theorem Decode_complete: "bencodes bs v \<Longrightarrow> Decode (bs @ rest) = Inr (v, rest)"
  by (rule bencode.dec_rep)

theorem Decode_complete_witness:
  "Decode (''d'' @ (bstr ''k'' @ (''l'' @ (bint 7 @ []) @ ''e'') @ []) @ ''e'' @ ''tail'') =
     Inr (BDict (fmupd ''k'' (BList [BInt 7]) fmempty), ''tail'')"
proof -
  have "bencodes (''d'' @ (bstr ''k'' @ (''l'' @ (bint 7 @ []) @ ''e'') @ []) @ ''e'')
      (BDict (dict_of fmempty [(''k'', BList [BInt 7])]))"
    by (intro bencodes_intros) (simp_all add: str_ok_def max_alloc_def int64_ok_def)
  from Decode_complete [OF this, of "''tail''"] show ?thesis by simp
qed

text \<open>
  A truncated text is never mistaken for a value: every proper prefix of a well-formed bencode
  text makes \<open>Decode\<close> fail.
\<close>

theorem Decode_truncated:
  assumes "bencodes (p @ q) v" and "q \<noteq> []"
  shows "\<exists>e. Decode p = Inl e"
proof (cases "Decode p")
  case (Inr vr)
  then obtain w r where "Decode p = Inr (w, r)" by (cases vr) simp
  then have "Decode (p @ q) = Inr (w, r @ q)" by (rule Decode_extend)
  moreover have "Decode (p @ q) = Inr (v, [])" using assms(1) by (rule bencode.dec_rep_Nil)
  ultimately show ?thesis using assms(2) by simp
qed blast

theorem Decode_truncated_witness: "\<exists>e. Decode (CHR ''i'' # itoa 42) = Inl e"
proof -
  have "bencodes ((CHR ''i'' # itoa 42) @ ''e'') (BInt 42)"
    using benc_int [of 42] by (simp add: bint_def int64_ok_def)
  from Decode_truncated [OF this] show ?thesis by simp
qed

text \<open>
  What a successful \<open>Decode\<close> returns: a value whose integers all fit 64 bits and whose strings fit
  the allocation bound, read from a non-empty prefix of the input that determines it (the same
  bytes in front of any other continuation give the same value).
\<close>

theorem Decode_sound:
  assumes "Decode s = Inr (v, r)"
  shows "node_ok v \<and> (\<exists>p. p \<noteq> [] \<and> s = p @ r \<and> (\<forall>u. Decode (p @ u) = Inr (v, u)))"
proof -
  obtain p where p: "s = p @ r" "\<And>u. Decode (p @ u) = Inr (v, u)"
    using assms by (rule Decode_split) blast
  moreover have "p \<noteq> []" using decode_shorter(1) [OF assms] p(1) by auto
  moreover have "node_ok v" using reads_ok(1) [OF Decode_reads [OF assms]] .
  ultimately show ?thesis by blast
qed

theorem Decode_sound_witness: "node_ok (BInt (- 13))"
proof -
  have "Decode (bint (- 13) @ ''xy'') = Inr (BInt (- 13), ''xy'')"
    by (rule Decode_bint) (simp add: int64_ok_def)
  from Decode_sound [OF this] show ?thesis by blast
qed

text \<open>
  A string whose length prefix exceeds what Go's \<open>make\<close> accepts makes the decoder panic, whatever
  follows: the length is used unchecked as an allocation size.
\<close>

theorem Decode_length_panic:
  assumes "max_alloc < int n" and "int64_ok (int n)"
  shows "Decode (utoa n @ '':'' @ rest) = Inl (Panic MakesliceLen)"
proof -
  obtain c cs where u: "utoa n = c # cs" and c: "is_digit c" using utoa_Cons by blast
  from parseString_utoa [OF u assms(2), of rest] assms(1) c u show ?thesis
    by (simp add: digit_not_letter)
qed

theorem Decode_length_panic_witness:
  "Decode (utoa (2 ^ 62) @ '':spam'') = Inl (Panic MakesliceLen)"
  using Decode_length_panic [of "2 ^ 62" "''spam''"] by (simp add: max_alloc_def int64_ok_def)

text \<open>
  The integer parser accepts more than the format \<open>i<number>e\<close>: after the digits any text without
  an \<open>e\<close> is ignored, since \<open>Sscanf\<close> leaves it unread and the parser does not look at the rest.
\<close>

theorem Decode_int_trailing:
  assumes "n < 2 ^ 63" and "junk \<noteq> []" and "\<not> is_digit (hd junk)" and "CHR ''e'' \<notin> set junk"
  shows "Decode (CHR ''i'' # utoa n @ junk @ CHR ''e'' # rest) = Inr (BInt (int n), rest)"
proof -
  have "CHR ''e'' \<notin> set (utoa n @ junk)" using assms(4) by (simp add: utoa_stop)
  then have "read_until CHR ''e'' (utoa n @ junk @ CHR ''e'' # rest) = Some (utoa n @ junk, rest)"
    using read_until_append [of "CHR ''e''" "utoa n @ junk" rest] by simp
  moreover have "Sscanf_d (utoa n @ junk) = Inr (int n)"
    using Sscanf_d_digits [of "utoa n" junk] assms(1,3) utoa_digits ParseInt_itoa [of "int n"]
    by (auto simp: itoa_def int64_ok_def)
  ultimately show ?thesis by (simp add: parseInt_def)
qed

theorem Decode_int_trailing_witness:
  "Decode (CHR ''i'' # utoa 42 @ ''x'' @ CHR ''e'' # []) = Inr (BInt 42, [])"
  using Decode_int_trailing [of 42 "''x''" "[]"] by (simp add: is_digit_def)

end
