(* ===== verification/Bencode_Marshal.thy ===== *)
theory Bencode_Marshal
  imports Bencode "HOL-Library.Char_ord" "HOL-Library.List_Lexorder"
begin

text \<open>
  The encoder the tracker calls, \<open>Marshal\<close> of the package \<open>bencode-go\<close>, is not part of the
  repository: it is the parameter \<open>marshal\<close> of the definitions that use it.  What they rely on is
  \<open>marshals\<close>: every value whose strings and integers fit is written as a text of the format.  The
  function \<open>benc\<close> is such an encoder, with the keys in ascending order; it shows that the hypothesis
  can hold, and that every value has a text which the program's own decoder reads back.
\<close>

definition marshals :: "(node \<Rightarrow> string option) \<Rightarrow> bool" where
  "marshals marshal \<longleftrightarrow> (\<forall>v. node_ok v \<longrightarrow> (\<exists>bs. marshal v = Some bs \<and> bencodes bs v))"

primrec benc :: "node \<Rightarrow> string" where
  "benc (BInt i) = bint i"
| "benc (BString s) = bstr s"
| "benc (BList xs) = ''l'' @ concat (map benc xs) @ ''e''"
| "benc (BDict d) = ''d'' @ concat (map (\<lambda>(k, t). bstr k @ t) (sorted_list_of_fmap (fmmap benc d))) @ ''e''"

lemma dict_of_lookup:
  "distinct (map fst kvs) \<Longrightarrow>
    fmlookup (dict_of d kvs) k = (case map_of kvs k of Some v \<Rightarrow> Some v | None \<Rightarrow> fmlookup d k)"
proof (induction kvs arbitrary: d)
  case Nil
  then show ?case by simp
next
  case (Cons kv kvs)
  obtain k' v' where kv: "kv = (k', v')" by fastforce
  have "map_of kvs k' = None" using Cons.prems kv by (simp add: map_of_eq_None_iff)
  then show ?case using Cons kv by (auto split: option.splits)
qed

lemma fst_sorted_list_of_fmap: "map fst (sorted_list_of_fmap d) = sorted_list_of_fset (fmdom d)"
  by (simp add: sorted_list_of_fmap_def comp_def)

lemma distinct_sorted_list_of_fset [simp]: "distinct (sorted_list_of_fset S)"
  by (simp add: sorted_list_of_fset_def)

lemma dict_of_sorted [simp]: "dict_of fmempty (sorted_list_of_fmap d) = d"
  by (rule fmap_ext) (simp add: dict_of_lookup fst_sorted_list_of_fmap split: option.split)

lemma bencodes_list_benc:
  "\<forall>x \<in> set xs. bencodes (benc x) x \<Longrightarrow> bencodes_list (concat (map benc xs)) xs"
  by (induction xs) (auto intro: bencodes_intros)

lemma bencodes_dict_benc:
  "\<forall>(k, v) \<in> set kvs. str_ok k \<and> bencodes (benc v) v \<Longrightarrow>
    bencodes_dict (concat (map (\<lambda>(k, v). bstr k @ benc v) kvs)) kvs"
  by (induction kvs) (auto intro: bencodes_intros)

lemma sorted_list_of_fmap_benc:
  "map (\<lambda>(k, t). bstr k @ t) (sorted_list_of_fmap (fmmap benc d)) =
     map (\<lambda>(k, v). bstr k @ benc v) (sorted_list_of_fmap d)"
  by (auto simp: sorted_list_of_fmap_def fmlookup_dom_iff)

lemma sorted_list_of_fmap_lookup: "(k, v) \<in> set (sorted_list_of_fmap d) \<Longrightarrow> fmlookup d k = Some v"
  by (auto simp: sorted_list_of_fmap_def fmlookup_dom_iff)

lemma bencodes_benc: "node_ok v \<Longrightarrow> bencodes (benc v) v"
proof (induction v rule: node_ok.induct)
  case (ok_dict d)
  then have "bencodes_dict (concat (map (\<lambda>(k, v). bstr k @ benc v) (sorted_list_of_fmap d))) (sorted_list_of_fmap d)"
    by (intro bencodes_dict_benc) (auto dest: sorted_list_of_fmap_lookup)
  from benc_dict [OF this] show ?case by (simp add: sorted_list_of_fmap_benc)
next
  case (ok_list xs)
  then show ?case using benc_list [OF bencodes_list_benc, of xs] by simp
qed (auto intro: bencodes_intros)

lemma marshals_benc [simp]: "marshals (\<lambda>v. Some (benc v))"
  by (simp add: marshals_def bencodes_benc)

text \<open>What a marshalled value is read back as.\<close>

lemma marshal_decode:
  assumes "marshals marshal" and "node_ok v"
  obtains bs where "marshal v = Some bs" and "\<And>r. Decode (bs @ r) = Inr (v, r)" and "Decode bs = Inr (v, [])"
proof -
  obtain bs where "marshal v = Some bs" "bencodes bs v" using assms by (auto simp: marshals_def)
  then show thesis using that [of bs] bencodes_decode(1) [of bs v] by (metis append_Nil2)
qed

end
