(* ===== verification/Tracker_Server.thy ===== *)
theory Tracker_Server
  imports Memory_Storage Go_Http Bencode_Marshal
begin

text \<open>
  The tracker's HTTP handlers, \<open>src/tracker/server.go\<close>, over any storage.  A request is what the
  handlers read of it: the path, the raw query, two headers and the remote address; a response is its
  status and body.  The clock is an argument, and so is the order in which the storage walks its sets.
  The handlers of one tracker run one after the other here; the storage operations in between are
  atomic, and the properties over histories hold for every interleaving of them.
\<close>

section \<open>Decoding a request\<close>

datatype hash_err = HashEscape | HashLength

text \<open>The query has been unescaped once when it was parsed; the info hash is unescaped again here.\<close>

definition decodeInfoHash :: "string \<Rightarrow> hash_err + id20" where
  "decodeInfoHash s =
     (case QueryUnescape s of
        None \<Rightarrow> Inl HashEscape
      | Some decoded \<Rightarrow> if length decoded \<noteq> 20 then Inl HashLength else Inr (bytes_of_string decoded))"

definition getClientIP :: "http_request \<Rightarrow> string" where
  "getClientIP r =
     (if X_Real_IP r \<noteq> [] then X_Real_IP r
      else if X_Forwarded_For r \<noteq> [] then hd (split_at CHR '','' (X_Forwarded_For r))
      else let ip = split_host (RemoteAddr r) in if ip = ''::1'' then ''127.0.0.1'' else ip)"

section \<open>Responses\<close>

definition peer_node :: "tpeer \<Rightarrow> node" where
  "peer_node p = BDict (fmap_of_list [(''peer id'', BString (ID p)), (''ip'', BString (IP p)), (''port'', BInt (Port p))])"

definition convertPeersToList :: "tpeer list \<Rightarrow> node" where
  "convertPeersToList ps = BList (map peer_node ps)"

definition announce_node :: "tpeer list \<Rightarrow> int \<Rightarrow> node" where
  "announce_node ps interval =
     BDict (fmap_of_list [(''interval'', BInt interval), (''peers'', convertPeersToList ps)])"

definition send_node :: "(node \<Rightarrow> string option) \<Rightarrow> node \<Rightarrow> http_response" where
  "send_node marshal v =
     (case marshal v of
        None \<Rightarrow> \<lparr>StatusCode = 500, Body = ''Encoding error'' @ [CHR 0x0A]\<rparr>
      | Some bs \<Rightarrow> \<lparr>StatusCode = 200, Body = bs\<rparr>)"

definition sendAnnounceResponse :: "(node \<Rightarrow> string option) \<Rightarrow> tpeer list \<Rightarrow> int \<Rightarrow> http_response" where
  "sendAnnounceResponse marshal ps interval = send_node marshal (announce_node ps interval)"

text \<open>The error of the encoder is dropped here, and the body is then empty.\<close>

definition failure_node :: "string \<Rightarrow> node" where
  "failure_node reason = BDict (fmap_of_list [(''failure reason'', BString reason)])"

definition sendErrorResponse :: "(node \<Rightarrow> string option) \<Rightarrow> string \<Rightarrow> http_response" where
  "sendErrorResponse marshal reason =
     \<lparr>StatusCode = 200, Body = (case marshal (failure_node reason) of None \<Rightarrow> [] | Some bs \<Rightarrow> bs)\<rparr>"

section \<open>Announce\<close>

definition announced_peer :: "http_request \<Rightarrow> int \<Rightarrow> tpeer" where
  "announced_peer r now =
     (let q = ParseQuery (req_RawQuery r) in
      \<lparr>ID = query_Get q ''peer_id'', IP = getClientIP r,
       Port = fst (Atoi (query_Get q ''port'')),
       Uploaded = fst (ParseInt (query_Get q ''uploaded'')),
       Downloaded = fst (ParseInt (query_Get q ''downloaded'')),
       Left = fst (ParseInt (query_Get q ''left'')), LastSeen = now\<rparr>)"

definition num_want :: "http_request \<Rightarrow> int" where
  "num_want r =
     (let numWant = fst (Atoi (query_Get (ParseQuery (req_RawQuery r)) ''numwant''))
      in if numWant = 0 then 50 else numWant)"

text \<open>The list that answers an announcement: the storage's peers, without the one that asked.\<close>

definition announce_reply ::
  "(node \<Rightarrow> string option) \<Rightarrow> ('s, 'o) Storage \<Rightarrow> 's \<Rightarrow> 'o \<Rightarrow> id20 \<Rightarrow> int \<Rightarrow> string \<Rightarrow> http_response" where
  "announce_reply marshal st s c infoHash numWant peerID =
     (case st_GetPeers st s c infoHash numWant of
        Inl _ \<Rightarrow> sendErrorResponse marshal ''Failed to get peers''
      | Inr ps \<Rightarrow> sendAnnounceResponse marshal (filter (\<lambda>p. ID p \<noteq> peerID) ps) 1800)"

definition handleAnnounce ::
  "(node \<Rightarrow> string option) \<Rightarrow> ('s, 'o) Storage \<Rightarrow> 's \<Rightarrow> 'o \<Rightarrow> int \<Rightarrow> http_request \<Rightarrow> http_response \<times> 's" where
  "handleAnnounce marshal st s c now r =
     (let q = ParseQuery (req_RawQuery r);
          infoHashStr = query_Get q ''info_hash''; peerID = query_Get q ''peer_id'';
          portStr = query_Get q ''port''; event = query_Get q ''event''
      in
      if infoHashStr = [] \<or> peerID = [] \<or> portStr = []
      then (sendErrorResponse marshal ''Missing required parameters'', s)
      else (case decodeInfoHash infoHashStr of
          Inl _ \<Rightarrow> (sendErrorResponse marshal ''Invalid info_hash'', s)
        | Inr infoHash \<Rightarrow>
            let peer = announced_peer r now in
            if event = ''stopped'' then
              (case st_RemovePeer st s infoHash peerID of
                 (Some _, s') \<Rightarrow> (sendErrorResponse marshal ''Failed to remove peer'', s')
               | (None, s') \<Rightarrow> (sendAnnounceResponse marshal [] 1800, s'))
            else
              let (err, s') =
                (if event = ''completed'' then
                   (let (err, s1) = st_AddPeer st s infoHash (peer\<lparr>Left := 0\<rparr>)
                    in (err, snd (st_IncrementCompleted st s1 infoHash)))
                 else st_AddPeer st s infoHash peer)
              in (case err of
                    Some _ \<Rightarrow> (sendErrorResponse marshal ''Storage error'', s')
                  | None \<Rightarrow> (announce_reply marshal st s' c infoHash (num_want r) peerID, s'))))"

section \<open>Scrape\<close>

definition stats_node :: "int \<Rightarrow> int \<Rightarrow> int \<Rightarrow> node" where
  "stats_node seeders leechers downloaded =
     BDict (fmap_of_list [(''complete'', BInt seeders), (''incomplete'', BInt leechers),
       (''downloaded'', BInt downloaded)])"

definition scrape_step ::
  "('s, 'o) Storage \<Rightarrow> 's \<Rightarrow> 'o \<Rightarrow> (string, node) fmap \<Rightarrow> string \<Rightarrow> (string, node) fmap" where
  "scrape_step st s c files infoHashStr =
     (case decodeInfoHash infoHashStr of
        Inl _ \<Rightarrow> files
      | Inr infoHash \<Rightarrow>
          (case st_GetTorrentStats st s c infoHash of
             Inl _ \<Rightarrow> fmupd infoHashStr (stats_node 0 0 0) files
           | Inr t \<Rightarrow>
               fmupd infoHashStr
                 (stats_node (int (length (Seeders t))) (int (length (Leechers t))) (Completed t)) files))"

definition scrape_node :: "(string, node) fmap \<Rightarrow> node" where
  "scrape_node files = BDict (fmap_of_list [(''files'', BDict files)])"

definition handleScrape ::
  "(node \<Rightarrow> string option) \<Rightarrow> ('s, 'o) Storage \<Rightarrow> 's \<Rightarrow> 'o \<Rightarrow> http_request \<Rightarrow> http_response" where
  "handleScrape marshal st s c r =
     (let infoHashParams = query_all (ParseQuery (req_RawQuery r)) ''info_hash'';
          files = foldl (scrape_step st s c) fmempty infoHashParams
      in send_node marshal (scrape_node files))"

text \<open>
  The two routes of \<open>NewTracker\<close>, for a path in the multiplexer's canonical form; on every other such path
  it answers 404.  (A path like \<open>//announce\<close> it first redirects to its canonical form; the client and the
  theorems use the two routes only.)
\<close>

definition NewTracker ::
  "(node \<Rightarrow> string option) \<Rightarrow> ('s, 'o) Storage \<Rightarrow> 's \<Rightarrow> 'o \<Rightarrow> int \<Rightarrow> http_request \<Rightarrow> http_response \<times> 's" where
  "NewTracker marshal st s c now r =
     (if req_Path r = ''/announce'' then handleAnnounce marshal st s c now r
      else if req_Path r = ''/scrape'' then (handleScrape marshal st s c r, s)
      else (\<lparr>StatusCode = 404, Body = ''404 page not found'' @ [CHR 0x0A]\<rparr>, s))"


section \<open>What an announcement does\<close>

abbreviation arg :: "http_request \<Rightarrow> string \<Rightarrow> string" where
  "arg r k \<equiv> query_Get (ParseQuery (req_RawQuery r)) k"

definition announce_valid :: "http_request \<Rightarrow> id20 \<Rightarrow> bool" where
  "announce_valid r h \<longleftrightarrow> arg r ''info_hash'' \<noteq> [] \<and> arg r ''peer_id'' \<noteq> [] \<and> arg r ''port'' \<noteq> [] \<and>
     decodeInfoHash (arg r ''info_hash'') = Inr h"

definition recorded_peer :: "http_request \<Rightarrow> int \<Rightarrow> tpeer" where
  "recorded_peer r now =
     (if arg r ''event'' = ''completed'' then (announced_peer r now)\<lparr>Left := 0\<rparr> else announced_peer r now)"

text \<open>The list of a reply to \<open>who\<close> over a view: distinct others, and all of them when they fit.\<close>

definition reply_list :: "(string \<Rightarrow> tpeer option) \<Rightarrow> int \<Rightarrow> string \<Rightarrow> tpeer list \<Rightarrow> bool" where
  "reply_list v n who ps \<longleftrightarrow>
     distinct (map ID ps) \<and> (\<forall>p \<in> set ps. ID p \<noteq> who \<and> v (ID p) = Some p) \<and>
     int (length ps) \<le> max 0 n \<and>
     (int (card (dom v)) \<le> n \<longrightarrow> (\<forall>i p. v i = Some p \<and> i \<noteq> who \<longrightarrow> p \<in> set ps))"

lemma recorded_peer_ID [simp]: "ID (recorded_peer r now) = arg r ''peer_id''"
  by (simp add: recorded_peer_def announced_peer_def Let_def)

lemma decodeInfoHash_is20: "decodeInfoHash s = Inr h \<Longrightarrow> is20 h"
  by (auto simp: decodeInfoHash_def is20_def split: option.splits if_splits)

lemma announce_valid_is20: "announce_valid r h \<Longrightarrow> is20 h"
  by (auto simp: announce_valid_def dest: decodeInfoHash_is20)

lemma peers_of_view_all:
  assumes "peers_of_view v n ps" and "finite (dom v)" and "int (card (dom v)) \<le> n" and "v i = Some p"
  shows "p \<in> set ps"
proof -
  have len: "length ps = card (dom v)" and d: "distinct (map ID ps)"
    and mem: "\<And>q. q \<in> set ps \<Longrightarrow> v (ID q) = Some q"
    using assms(1,3) by (auto simp: peers_of_view_def)
  have "set (map ID ps) \<subseteq> dom v" using mem by auto
  moreover have "card (set (map ID ps)) = card (dom v)"
    using len distinct_card [OF d] by simp
  ultimately have "set (map ID ps) = dom v" using assms(2) by (intro card_subset_eq)
  with assms(4) have "i \<in> ID ` set ps" by (auto simp: dom_def)
  then obtain q where "q \<in> set ps" "ID q = i" by blast
  with mem assms(4) show ?thesis by fastforce
qed

lemma reply_list_filter:
  assumes "peers_of_view v n ps" and "finite (dom v)" and "\<And>i p. v i = Some p \<Longrightarrow> ID p = i"
  shows "reply_list v n who (filter (\<lambda>p. ID p \<noteq> who) ps)"
proof -
  have "distinct (map ID (filter (\<lambda>p. ID p \<noteq> who) ps))"
    using assms(1) by (auto simp: peers_of_view_def intro: distinct_map_filter)
  moreover have "int (length (filter (\<lambda>p. ID p \<noteq> who) ps)) \<le> max 0 n"
    using length_filter_le [of "\<lambda>p. ID p \<noteq> who" ps] assms(1) unfolding peers_of_view_def by linarith
  moreover have "p \<in> set (filter (\<lambda>p. ID p \<noteq> who) ps)"
    if "int (card (dom v)) \<le> n" "v i = Some p" "i \<noteq> who" for i p
    using peers_of_view_all [OF assms(1,2) that(1,2)] assms(3) [OF that(2)] that(3) by simp
  ultimately show ?thesis using assms(1) unfolding reply_list_def peers_of_view_def by auto
qed

context peer_storage
begin

lemma reply_sent:
  assumes "inv s" and "is20 h" and "ok c"
  shows "\<exists>ps. announce_reply marshal st s c h n who = sendAnnounceResponse marshal ps 1800 \<and>
    reply_list (view s h) n who ps"
proof -
  obtain ps where ps: "st_GetPeers st s c h n = Inr ps" "peers_of_view (view s h) n ps"
    using get_peers [OF assms] by blast
  have "reply_list (view s h) n who (filter (\<lambda>p. ID p \<noteq> who) ps)"
    using ps(2) view_finite [OF assms(1,2)] view_ID [OF assms(1,2)] by (rule reply_list_filter)
  with ps(1) show ?thesis by (auto simp: announce_reply_def)
qed

lemma announce_recorded:
  assumes "inv s" and "ok c" and "announce_valid r h" and "arg r ''event'' \<noteq> ''stopped''"
    and run: "handleAnnounce marshal st s c now r = (resp, s')"
  shows "inv s' \<and> view s' h (arg r ''peer_id'') = Some (recorded_peer r now) \<and>
    (\<forall>h' i. is20 h' \<and> i \<noteq> arg r ''peer_id'' \<longrightarrow> view s' h' i = view s h' i) \<and>
    (\<forall>h' q. is20 h' \<and> view s' h' (arg r ''peer_id'') = Some q \<longrightarrow> q = recorded_peer r now) \<and>
    count s' h = (if arg r ''event'' = ''completed'' then wrap64 (count s h + 1) else count s h) \<and>
    (\<exists>ps. resp = sendAnnounceResponse marshal ps 1800 \<and>
      reply_list (view s' h) (num_want r) (arg r ''peer_id'') ps)"
proof -
  have h: "is20 h" using assms(3) by (rule announce_valid_is20)
  obtain e s1 where add: "st_AddPeer st s h (recorded_peer r now) = (e, s1)" by fastforce
  have e: "e = None" and inv1: "inv s1" using add_ok [OF assms(1) h add] by simp_all
  obtain e2 s2 where inc: "st_IncrementCompleted st s1 h = (e2, s2)" by fastforce
  note add_facts = add_view [OF assms(1) h add] add_other [OF assms(1) h add] add_range [OF assms(1) h add]
    add_count [OF assms(1) h add]
  note inc_facts = increment_ok [OF inv1 h inc]
  let ?fin = "if arg r ''event'' = ''completed'' then s2 else s1"
  have "handleAnnounce marshal st s c now r =
      (announce_reply marshal st ?fin c h (num_want r) (arg r ''peer_id''), ?fin)"
    using assms(3,4) add inc e
    by (cases "arg r ''event'' = ''completed''")
      (simp_all add: handleAnnounce_def announce_valid_def recorded_peer_def Let_def)
  with run have s': "s' = ?fin"
    and resp: "resp = announce_reply marshal st ?fin c h (num_want r) (arg r ''peer_id'')" by auto
  have inv': "inv ?fin" using inv1 inc_facts [of h] by simp
  have same: "view ?fin h' = view s1 h'" if "is20 h'" for h' using inc_facts [of h'] that by simp
  have cnt: "count ?fin h = (if arg r ''event'' = ''completed'' then wrap64 (count s h + 1) else count s h)"
    using inc_facts [of h] add_facts(4) [OF h] h by simp
  have "view ?fin h' i = view s h' i" if "is20 h'" "i \<noteq> arg r ''peer_id''" for h' i
    using same [OF that(1)] add_facts(2) [OF that(1)] that(2) by simp
  moreover have "q = recorded_peer r now" if "is20 h'" "view ?fin h' (arg r ''peer_id'') = Some q" for h' q
    using same [OF that(1)] add_facts(3) [OF that(1)] that(2) by simp
  moreover have "view ?fin h (arg r ''peer_id'') = Some (recorded_peer r now)"
    using same [OF h] add_facts(1) by simp
  ultimately show ?thesis
    unfolding s' resp using inv' cnt reply_sent [OF inv' h assms(2)] by blast
qed

lemma announce_stopped:
  assumes "inv s" and "announce_valid r h" and "arg r ''event'' = ''stopped''"
    and run: "handleAnnounce marshal st s c now r = (resp, s')"
  shows "inv s' \<and> view s' h (arg r ''peer_id'') = None \<and> resp = sendAnnounceResponse marshal [] 1800 \<and>
    (\<forall>h' i q. is20 h' \<and> view s' h' i = Some q \<longrightarrow> view s h' i = Some q)"
proof -
  have h: "is20 h" using assms(2) by (rule announce_valid_is20)
  obtain e s1 where rem: "st_RemovePeer st s h (arg r ''peer_id'') = (e, s1)" by fastforce
  have e: "e = None" and inv1: "inv s1" using remove_ok [OF assms(1) h rem] by simp_all
  have "handleAnnounce marshal st s c now r = (sendAnnounceResponse marshal [] 1800, s1)"
    using assms(2,3) rem e by (simp add: handleAnnounce_def announce_valid_def Let_def)
  with run have "s' = s1" "resp = sendAnnounceResponse marshal [] 1800" by simp_all
  then show ?thesis
    using inv1 remove_view [OF assms(1) h rem] remove_view_cases [OF assms(1) h rem] by blast
qed

end

text \<open>An invalid request changes nothing.\<close>

lemma announce_rejected:
  assumes "\<nexists>h. announce_valid r h"
  shows "handleAnnounce marshal st s c now r = (sendErrorResponse marshal ''Missing required parameters'', s) \<or>
    handleAnnounce marshal st s c now r = (sendErrorResponse marshal ''Invalid info_hash'', s)"
proof (cases "arg r ''info_hash'' = [] \<or> arg r ''peer_id'' = [] \<or> arg r ''port'' = []")
  case True
  then show ?thesis by (auto simp: handleAnnounce_def Let_def)
next
  case False
  then obtain e where "decodeInfoHash (arg r ''info_hash'') = Inl e"
    using assms by (cases "decodeInfoHash (arg r ''info_hash'')") (auto simp: announce_valid_def)
  with False show ?thesis by (simp add: handleAnnounce_def Let_def)
qed

section \<open>Scraping\<close>

definition seeders_of :: "(string \<Rightarrow> tpeer option) \<Rightarrow> string set" where
  "seeders_of v = {i. \<exists>p. v i = Some p \<and> Left p = 0}"

definition leechers_of :: "(string \<Rightarrow> tpeer option) \<Rightarrow> string set" where
  "leechers_of v = {i. \<exists>p. v i = Some p \<and> Left p \<noteq> 0}"

definition view_stats :: "(string \<Rightarrow> tpeer option) \<Rightarrow> int \<Rightarrow> node" where
  "view_stats v n = stats_node (int (card (seeders_of v))) (int (card (leechers_of v))) n"

lemma seeders_leechers: "finite (dom v) \<Longrightarrow> card (seeders_of v) + card (leechers_of v) = card (dom v)"
proof -
  assume fin: "finite (dom v)"
  have "dom v = seeders_of v \<union> leechers_of v" "seeders_of v \<inter> leechers_of v = {}"
    by (auto simp: seeders_of_def leechers_of_def)
  with fin show ?thesis by (metis card_Un_disjoint finite_Un)
qed

context peer_storage
begin

lemma scrape_step_view:
  assumes "inv s" and "ok c"
  shows "scrape_step st s c files k =
    (case decodeInfoHash k of Inl _ \<Rightarrow> files | Inr h \<Rightarrow> fmupd k (view_stats (view s h) (count s h)) files)"
proof (cases "decodeInfoHash k")
  case (Inr h)
  obtain t where t: "st_GetTorrentStats st s c h = Inr t" "Completed t = count s h"
      "distinct (Seeders t)" "distinct (Leechers t)"
      "set (Seeders t) = seeders_of (view s h)" "set (Leechers t) = leechers_of (view s h)"
    using stats [OF assms(1) decodeInfoHash_is20 [OF Inr] assms(2)]
    by (auto simp: seeders_of_def leechers_of_def)
  have "length (Seeders t) = card (seeders_of (view s h))" "length (Leechers t) = card (leechers_of (view s h))"
    using t(3-6) distinct_card by metis+
  with t Inr show ?thesis by (simp add: scrape_step_def view_stats_def)
qed (simp add: scrape_step_def)

lemma scrape_files:
  assumes "inv s" and "ok c"
  shows "fmlookup (foldl (scrape_step st s c) files ks) k =
    (case decodeInfoHash k of
       Inl _ \<Rightarrow> fmlookup files k
     | Inr h \<Rightarrow> if k \<in> set ks then Some (view_stats (view s h) (count s h)) else fmlookup files k)"
proof (induction ks arbitrary: files)
  case Nil
  show ?case by (simp split: sum.split)
next
  case (Cons k' ks)
  show ?case unfolding foldl_Cons Cons.IH
    by (auto simp: scrape_step_view [OF assms] split: sum.split)
qed

end

section \<open>Well-formed replies\<close>

text \<open>
  The bounds a Go program meets by itself: a string is at most as long as an allocation, and an
  \<open>int\<close> has 64 bits.
\<close>

definition tpeer_ok :: "tpeer \<Rightarrow> bool" where
  "tpeer_ok p \<longleftrightarrow> str_ok (ID p) \<and> str_ok (IP p) \<and> int64_ok (Port p)"

definition request_ok :: "http_request \<Rightarrow> bool" where
  "request_ok r \<longleftrightarrow> str_ok (req_RawQuery r) \<and> str_ok (X_Real_IP r) \<and> str_ok (X_Forwarded_For r) \<and> str_ok (RemoteAddr r)"

definition view_ok :: "('s \<Rightarrow> id20 \<Rightarrow> string \<Rightarrow> tpeer option) \<Rightarrow> 's \<Rightarrow> bool" where
  "view_ok view s \<longleftrightarrow> (\<forall>h i p. is20 h \<and> view s h i = Some p \<longrightarrow> tpeer_ok p)"

definition view_small :: "('s \<Rightarrow> id20 \<Rightarrow> string \<Rightarrow> tpeer option) \<Rightarrow> 's \<Rightarrow> bool" where
  "view_small view s \<longleftrightarrow> (\<forall>h. is20 h \<longrightarrow> card (dom (view s h)) < 2 ^ 62)"

text \<open>A body that carries a value: the program's decoder reads exactly that value from it.\<close>

definition carries :: "http_response \<Rightarrow> node \<Rightarrow> bool" where
  "carries resp v \<longleftrightarrow> StatusCode resp = 200 \<and> Decode (Body resp) = Inr (v, [])"

lemma str_ok_le: "str_ok s \<Longrightarrow> length t \<le> length s \<Longrightarrow> str_ok t"
  by (simp add: str_ok_def)

lemma getClientIP_ok: "request_ok r \<Longrightarrow> str_ok (getClientIP r)"
  using hd_split_at_length [of "CHR '',''" "X_Forwarded_For r"] split_host_length [of "RemoteAddr r"]
  by (auto simp: getClientIP_def request_ok_def Let_def str_ok_def max_alloc_def)

lemma arg_ok: "request_ok r \<Longrightarrow> str_ok (arg r k)"
  using query_Get_length str_ok_le by (auto simp: request_ok_def)

lemma recorded_peer_ok: "request_ok r \<Longrightarrow> tpeer_ok (recorded_peer r now)"
  by (simp add: tpeer_ok_def recorded_peer_def announced_peer_def Let_def getClientIP_ok arg_ok
      Atoi_def ParseInt_range)

lemma node_ok_dict: "\<forall>(k, v) \<in> set kvs. str_ok k \<and> node_ok v \<Longrightarrow> node_ok (BDict (fmap_of_list kvs))"
  by (auto simp: node_ok_simps fmlookup_of_list dest: map_of_SomeD)

lemma str_ok_lits [simp]: "str_ok []" "length s < 100 \<Longrightarrow> str_ok s"
  by (simp_all add: str_ok_def max_alloc_def)

lemma announce_node_ok:
  assumes "\<forall>p \<in> set ps. tpeer_ok p"
  shows "node_ok (announce_node ps 1800)"
proof -
  have "node_ok (peer_node p)" if "p \<in> set ps" for p
    unfolding peer_node_def using assms that by (intro node_ok_dict) (auto simp: tpeer_ok_def node_ok_simps)
  then have "node_ok (convertPeersToList ps)" by (simp add: convertPeersToList_def node_ok_simps)
  then show ?thesis unfolding announce_node_def
    by (intro node_ok_dict) (auto simp: node_ok_simps int64_ok_def)
qed

lemma failure_node_ok: "str_ok reason \<Longrightarrow> node_ok (failure_node reason)"
  unfolding failure_node_def by (intro node_ok_dict) (auto simp: node_ok_simps)

lemma send_node_carries: "marshals marshal \<Longrightarrow> node_ok v \<Longrightarrow> carries (send_node marshal v) v"
  by (erule (1) marshal_decode) (simp add: send_node_def carries_def)

lemma announce_carries:
  "marshals marshal \<Longrightarrow> \<forall>p \<in> set ps. tpeer_ok p \<Longrightarrow>
    carries (sendAnnounceResponse marshal ps 1800) (announce_node ps 1800)"
  by (simp add: sendAnnounceResponse_def send_node_carries announce_node_ok)

lemma error_carries:
  "marshals marshal \<Longrightarrow> str_ok reason \<Longrightarrow> carries (sendErrorResponse marshal reason) (failure_node reason)"
proof -
  assume "marshals marshal" and "str_ok reason"
  then obtain bs where "marshal (failure_node reason) = Some bs" "Decode bs = Inr (failure_node reason, [])"
    using marshal_decode failure_node_ok by blast
  then show ?thesis unfolding sendErrorResponse_def carries_def by simp
qed


definition announce_answer :: "http_response \<Rightarrow> bool" where
  "announce_answer resp \<longleftrightarrow>
     (\<exists>reason. carries resp (failure_node reason)) \<or>
     (\<exists>ps. distinct (map ID ps) \<and> carries resp (announce_node ps 1800))"

lemma view_stats_ok:
  assumes "finite (dom v)" and "card (dom v) < 2 ^ 62" and "int64_ok n"
  shows "node_ok (view_stats v n)"
proof -
  have "card (seeders_of v) < 2 ^ 62" "card (leechers_of v) < 2 ^ 62"
    using seeders_leechers [OF assms(1)] assms(2) by linarith+
  then show ?thesis unfolding view_stats_def stats_node_def
    by (intro node_ok_dict) (auto simp: node_ok_simps assms(3) int64_ok_of_nat)
qed

context peer_storage
begin

lemma view_ok_recorded:
  assumes "view_ok view s" and "request_ok r"
    and "\<forall>h' i. is20 h' \<and> i \<noteq> arg r ''peer_id'' \<longrightarrow> view s' h' i = view s h' i"
    and "\<forall>h' q. is20 h' \<and> view s' h' (arg r ''peer_id'') = Some q \<longrightarrow> q = recorded_peer r now"
  shows "view_ok view s'"
  unfolding view_ok_def
proof (intro allI impI)
  fix h i p
  assume a: "is20 h \<and> view s' h i = Some p"
  show "tpeer_ok p"
  proof (cases "i = arg r ''peer_id''")
    case True
    then have "p = recorded_peer r now" using a assms(4) by blast
    then show ?thesis using recorded_peer_ok [OF assms(2)] by simp
  next
    case False
    then have "view s h i = Some p" using a assms(3) by auto
    then show ?thesis using assms(1) a unfolding view_ok_def by blast
  qed
qed

lemma handleAnnounce_ok:
  assumes "marshals marshal" and "inv s" and "view_ok view s" and "request_ok r" and "ok c"
    and run: "handleAnnounce marshal st s c now r = (resp, s')"
  shows "inv s' \<and> view_ok view s' \<and> announce_answer resp"
proof (cases "\<exists>h. announce_valid r h")
  case False
  have lits: "str_ok ''Missing required parameters''" "str_ok ''Invalid info_hash''" by simp_all
  have "(resp, s') = (sendErrorResponse marshal ''Missing required parameters'', s) \<or>
      (resp, s') = (sendErrorResponse marshal ''Invalid info_hash'', s)"
    using announce_rejected [OF False, of marshal st s c now] run by simp
  then have "s' = s" and "\<exists>reason. str_ok reason \<and> resp = sendErrorResponse marshal reason"
    using lits by blast+
  then show ?thesis using assms(2,3) error_carries [OF assms(1)] unfolding announce_answer_def by blast
next
  case True
  then obtain h where h: "announce_valid r h" by blast
  then have h20: "is20 h" by (rule announce_valid_is20)
  show ?thesis
  proof (cases "arg r ''event'' = ''stopped''")
    case True
    note facts = announce_stopped [OF assms(2) h True run]
    have "view_ok view s'" using assms(3) facts unfolding view_ok_def by blast
    moreover have "announce_answer resp"
      unfolding announce_answer_def using facts announce_carries [OF assms(1), of "[]"]
      by (intro disjI2 exI [of _ "[]"]) simp
    ultimately show ?thesis using facts by blast
  next
    case False
    note facts = announce_recorded [OF assms(2,5) h False run]
    then obtain ps where ps: "resp = sendAnnounceResponse marshal ps 1800"
        "reply_list (view s' h) (num_want r) (arg r ''peer_id'') ps" by blast
    have v: "view_ok view s'" by (rule view_ok_recorded [OF assms(3,4)]) (use facts in blast)+
    have "\<forall>p \<in> set ps. tpeer_ok p" using ps(2) v h20 unfolding reply_list_def view_ok_def by blast
    then have "announce_answer resp"
      using ps announce_carries [OF assms(1)] unfolding announce_answer_def reply_list_def by blast
    with v facts show ?thesis by blast
  qed
qed

lemma handleScrape_carries:
  assumes "marshals marshal" and "inv s" and "view_small view s" and "request_ok r" and "ok c"
  shows "carries (handleScrape marshal st s c r)
    (scrape_node (foldl (scrape_step st s c) fmempty (query_all (ParseQuery (req_RawQuery r)) ''info_hash'')))"
proof -
  let ?ks = "query_all (ParseQuery (req_RawQuery r)) ''info_hash''"
  let ?files = "foldl (scrape_step st s c) fmempty ?ks"
  have "str_ok k \<and> node_ok v" if l: "fmlookup ?files k = Some v" for k v
  proof -
    obtain h where h: "decodeInfoHash k = Inr h" "k \<in> set ?ks" "v = view_stats (view s h) (count s h)"
      using l scrape_files [OF assms(2,5), of fmempty ?ks k]
      by (cases "decodeInfoHash k") (auto split: if_splits)
    have "is20 h" using h(1) by (rule decodeInfoHash_is20)
    then have "node_ok v" unfolding h(3)
      using assms(2,3) view_finite count_range by (intro view_stats_ok) (auto simp: view_small_def)
    moreover have "str_ok k"
      using query_all_length [OF h(2)] assms(4) str_ok_le by (auto simp: request_ok_def)
    ultimately show ?thesis by blast
  qed
  then have "node_ok (BDict ?files)" by (simp add: node_ok_simps)
  then have "node_ok (scrape_node ?files)"
    unfolding scrape_node_def by (intro node_ok_dict) auto
  then show ?thesis unfolding handleScrape_def Let_def using assms(1) by (intro send_node_carries)
qed

end

section \<open>Properties of the tracker on the in-memory storage\<close>

text \<open>A concrete request, for the witnesses.\<close>

definition sample_request :: "string \<Rightarrow> http_request" where
  "sample_request event =
     \<lparr>req_Path = ''/announce'',
      req_RawQuery = Values_Encode [(''event'', event), (''info_hash'', ''aaaaaaaaaaaaaaaaaaaa''), (''left'', ''7''),
        (''peer_id'', ''p1''), (''port'', ''6881'')],
      X_Real_IP = [], X_Forwarded_For = [], RemoteAddr = ''10.0.0.1:4000''\<rparr>"

definition sample_hash :: id20 where
  "sample_hash = bytes_of_string ''aaaaaaaaaaaaaaaaaaaa''"

lemma sample_args [simp]:
  "arg (sample_request event) ''event'' = event"
  "arg (sample_request event) ''peer_id'' = ''p1''"
  "query_all (ParseQuery (req_RawQuery (sample_request event))) ''info_hash'' = [''aaaaaaaaaaaaaaaaaaaa'']"
  by (simp_all add: sample_request_def query_Get_def query_all_def)

lemma sample_decode [simp]: "decodeInfoHash ''aaaaaaaaaaaaaaaaaaaa'' = Inr sample_hash"
  by (simp add: decodeInfoHash_def sample_hash_def)

lemma sample_valid [simp]: "announce_valid (sample_request event) sample_hash"
  by (simp add: announce_valid_def) (simp add: sample_request_def query_Get_def)

lemma mem_inv_New [simp]: "mem_inv NewMemoryStorage"
  by (simp add: mem_inv_def NewMemoryStorage_def)

lemma mem_view_New [simp]: "mem_view NewMemoryStorage h i = None"
  by (simp add: mem_view_def NewMemoryStorage_def)

lemma view_ok_New [simp]: "view_ok mem_view NewMemoryStorage" "view_small mem_view NewMemoryStorage"
  by (simp_all add: view_ok_def view_small_def dom_def)

text \<open>
  C14.  An announcement is recorded and answered: after a valid request that is not a stop, the storage
  holds exactly the announced values for that peer and torrent (nothing left to download when the event
  is a completion, which also counts once), every other peer's record is as before, and the reply lists
  distinct peers of that torrent, never the one that asked, never more than it wanted, and all of
  them when they fit.
\<close>

theorem announce_registers:
  assumes "mem_inv m" and "order_ok c" and "announce_valid r h" and "arg r ''event'' \<noteq> ''stopped''"
    and "handleAnnounce marshal memory_store m c now r = (resp, m')"
  shows "mem_view m' h (arg r ''peer_id'') = Some (recorded_peer r now) \<and>
    (\<forall>h' i. is20 h' \<and> i \<noteq> arg r ''peer_id'' \<longrightarrow> mem_view m' h' i = mem_view m h' i) \<and>
    mem_count m' h = (if arg r ''event'' = ''completed'' then wrap64 (mem_count m h + 1) else mem_count m h) \<and>
    (\<exists>ps. resp = sendAnnounceResponse marshal ps 1800 \<and>
      reply_list (mem_view m' h) (num_want r) (arg r ''peer_id'') ps)"
  using memory.announce_recorded [OF assms] by blast

theorem announce_registers_witness:
  "mem_view (snd (handleAnnounce (\<lambda>v. Some (benc v)) memory_store NewMemoryStorage key_order 5 (sample_request ''started'')))
     sample_hash ''p1'' = Some (recorded_peer (sample_request ''started'') 5)"
  using announce_registers [OF mem_inv_New order_ok_key_order sample_valid [of "''started''"] _ prod.collapse [symmetric],
      of "\<lambda>v. Some (benc v)" 5]
  by simp

text \<open>
  A stop is recorded and answered with an empty list: the peer is no longer on record for the
  torrent, and nothing appears that was not there before.
\<close>

theorem announce_stop:
  assumes "mem_inv m" and "announce_valid r h" and "arg r ''event'' = ''stopped''"
    and "handleAnnounce marshal memory_store m c now r = (resp, m')"
  shows "mem_view m' h (arg r ''peer_id'') = None \<and> resp = sendAnnounceResponse marshal [] 1800 \<and>
    (\<forall>h' i q. is20 h' \<and> mem_view m' h' i = Some q \<longrightarrow> mem_view m h' i = Some q)"
  using memory.announce_stopped [OF assms] by blast

theorem announce_stop_witness:
  "mem_view (snd (handleAnnounce (\<lambda>v. Some (benc v)) memory_store
      (mem_AddPeer NewMemoryStorage sample_hash (recorded_peer (sample_request ''started'') 5)) key_order 9 (sample_request ''stopped'')))
      sample_hash ''p1'' = None"
proof -
  have "mem_inv (mem_AddPeer NewMemoryStorage sample_hash (recorded_peer (sample_request ''started'') 5))" by auto
  from announce_stop [OF this sample_valid [of "''stopped''"] _ prod.collapse [symmetric],
      of "\<lambda>v. Some (benc v)" key_order 9]
  show ?thesis by simp
qed

text \<open>
  C24.  Every announcement gets a reply the client's decoder reads: whatever the request, the body is
  the text of a failure or of an interval with a list of distinct peers, with nothing behind it, and the
  storage's invariants hold afterwards.
\<close>

theorem announce_reply_well_formed:
  assumes "marshals marshal" and "mem_inv m" and "view_ok mem_view m" and "request_ok r" and "order_ok c"
    and "handleAnnounce marshal memory_store m c now r = (resp, m')"
  shows "mem_inv m' \<and> view_ok mem_view m' \<and> announce_answer resp"
  using memory.handleAnnounce_ok [OF assms] .

lemma sample_request_ok [simp]: "length event < 60 \<Longrightarrow> request_ok (sample_request event)"
proof -
  assume "length event < 60"
  moreover have "length (QueryEscape s) \<le> 3 * length s" for s
    by (induction s) (auto simp: QueryEscape_def escape_char_def)
  from this [of event] have "length (QueryEscape event) \<le> 3 * length event" .
  ultimately have "length (QueryEscape event) \<le> 180" by linarith
  then show ?thesis
    by (simp add: request_ok_def sample_request_def Values_Encode_def encode_part_def str_ok_def max_alloc_def
        QueryEscape_def escape_char_def unreserved_def)
qed

theorem announce_reply_well_formed_witness:
  "announce_answer (fst (handleAnnounce (\<lambda>v. Some (benc v)) memory_store NewMemoryStorage key_order 5 (sample_request ''started'')))"
  using announce_reply_well_formed [OF marshals_benc mem_inv_New view_ok_New(1) sample_request_ok order_ok_key_order
      prod.collapse [symmetric], of "''started''" 5]
  by simp

text \<open>
  A scrape reports the storage: the reply maps each requested info hash that decodes to twenty
  bytes to the number of its peers with nothing left, the number of the others, and its completion
  count; a hash that does not decode is left out.
\<close>

theorem scrape_reports:
  assumes "marshals marshal" and "mem_inv m" and "view_small mem_view m" and "request_ok r" and "order_ok c"
  shows "\<exists>files. carries (handleScrape marshal memory_store m c r) (scrape_node files) \<and>
    (\<forall>k. fmlookup files k =
      (case decodeInfoHash k of
         Inl _ \<Rightarrow> None
       | Inr h \<Rightarrow> if k \<in> set (query_all (ParseQuery (req_RawQuery r)) ''info_hash'')
           then Some (view_stats (mem_view m h) (mem_count m h)) else None))"
proof (intro exI conjI allI)
  let ?files = "foldl (scrape_step memory_store m c) fmempty (query_all (ParseQuery (req_RawQuery r)) ''info_hash'')"
  show "carries (handleScrape marshal memory_store m c r) (scrape_node ?files)"
    using assms by (rule memory.handleScrape_carries)
  fix k
  show "fmlookup ?files k =
      (case decodeInfoHash k of
         Inl _ \<Rightarrow> None
       | Inr h \<Rightarrow> if k \<in> set (query_all (ParseQuery (req_RawQuery r)) ''info_hash'')
           then Some (view_stats (mem_view m h) (mem_count m h)) else None)"
    using memory.scrape_files [OF assms(2,5), of fmempty "query_all (ParseQuery (req_RawQuery r)) ''info_hash''" k]
    by (simp split: sum.split)
qed

theorem scrape_reports_witness:
  "\<exists>files. carries (handleScrape (\<lambda>v. Some (benc v)) memory_store NewMemoryStorage key_order (sample_request [])) (scrape_node files) \<and>
     fmlookup files ''aaaaaaaaaaaaaaaaaaaa'' = Some (stats_node 0 0 0)"
proof -
  have empty: "view_stats (mem_view NewMemoryStorage h) (mem_count NewMemoryStorage h) = stats_node 0 0 0" for h
    by (simp add: view_stats_def seeders_of_def leechers_of_def mem_count_def completed_of_def NewMemoryStorage_def mem_view_def)
  show ?thesis
    using scrape_reports [OF marshals_benc mem_inv_New view_ok_New(2) sample_request_ok order_ok_key_order, of "[]"]
    by (auto simp: empty)
qed

end
