(* ===== verification/Tracker_Run.thy ===== *)
theory Tracker_Run
  imports Tracker_Server
begin

text \<open>
  Concurrent announcements.  The HTTP server runs every request in a goroutine of its own, and only the
  single storage operations are atomic, so two announcements interleave between their operations.  Here
  a handler is a job that makes one storage operation a step; running a job alone is the handler of the
  theory \<open>Tracker_Server\<close>.  A run of the tracker is any interleaving of jobs, arrivals and clean-ups.
\<close>

section \<open>A handler in steps\<close>

datatype job =
    Begin http_request                     \<comment> \<open>the request has been received\<close>
  | Count bool id20 string int             \<comment> \<open>completed: the peer is added (or that failed)\<close>
  | Listing id20 string int                \<comment> \<open>the peer is added, the list is next\<close>
  | Replied string http_response           \<comment> \<open>to the peer with this id\<close>

definition after_add ::
  "(node \<Rightarrow> string option) \<Rightarrow> bool \<Rightarrow> id20 \<Rightarrow> string \<Rightarrow> int \<Rightarrow> job" where
  "after_add marshal failed h who n =
     (if failed then Replied who (sendErrorResponse marshal ''Storage error'') else Listing h who n)"

fun job_step ::
  "(node \<Rightarrow> string option) \<Rightarrow> ('s, 'o) Storage \<Rightarrow> 'o \<Rightarrow> int \<Rightarrow> 's \<times> job \<Rightarrow> 's \<times> job" where
  "job_step marshal st c now (s, Begin r) =
     (let who = arg r ''peer_id'' in
      if arg r ''info_hash'' = [] \<or> who = [] \<or> arg r ''port'' = []
      then (s, Replied who (sendErrorResponse marshal ''Missing required parameters''))
      else (case decodeInfoHash (arg r ''info_hash'') of
          Inl _ \<Rightarrow> (s, Replied who (sendErrorResponse marshal ''Invalid info_hash''))
        | Inr h \<Rightarrow>
            if arg r ''event'' = ''stopped'' then
              (case st_RemovePeer st s h who of
                 (Some _, s') \<Rightarrow> (s', Replied who (sendErrorResponse marshal ''Failed to remove peer''))
               | (None, s') \<Rightarrow> (s', Replied who (sendAnnounceResponse marshal [] 1800)))
            else if arg r ''event'' = ''completed'' then
              (case st_AddPeer st s h ((announced_peer r now)\<lparr>Left := 0\<rparr>) of
                 (err, s') \<Rightarrow> (s', Count (err \<noteq> None) h who (num_want r)))
            else
              (case st_AddPeer st s h (announced_peer r now) of
                 (err, s') \<Rightarrow> (s', after_add marshal (err \<noteq> None) h who (num_want r)))))"
| "job_step marshal st c now (s, Count failed h who n) =
     (snd (st_IncrementCompleted st s h), after_add marshal failed h who n)"
| "job_step marshal st c now (s, Listing h who n) = (s, Replied who (announce_reply marshal st s c h n who))"
| "job_step marshal st c now (s, Replied who resp) = (s, Replied who resp)"

text \<open>The steps agree with the handler: three steps of a job on its own give its response and storage.\<close>

lemma job_alone:
  "(job_step marshal st c now ^^ 3) (s, Begin r) =
     (case handleAnnounce marshal st s c now r of (resp, s') \<Rightarrow> (s', Replied (arg r ''peer_id'') resp))"
proof (cases "arg r ''info_hash'' = [] \<or> arg r ''peer_id'' = [] \<or> arg r ''port'' = []")
  case True
  then show ?thesis by (auto simp: numeral_3_eq_3 handleAnnounce_def Let_def)
next
  case False
  show ?thesis
  proof (cases "decodeInfoHash (arg r ''info_hash'')")
    case (Inl e)
    with False show ?thesis by (simp add: numeral_3_eq_3 handleAnnounce_def Let_def)
  next
    case (Inr h)
    consider "arg r ''event'' = ''stopped''" | "arg r ''event'' = ''completed''"
      | "arg r ''event'' \<noteq> ''stopped''" "arg r ''event'' \<noteq> ''completed''" by blast
    then show ?thesis
      by cases (use False Inr in \<open>simp_all add: numeral_3_eq_3 handleAnnounce_def Let_def after_add_def
          split: prod.split option.split\<close>)
  qed
qed

section \<open>Runs\<close>






lemma memory_ops [simp]:
  "st_AddPeer memory_store = (\<lambda>m h p. (None, mem_AddPeer m h p))"
  "st_RemovePeer memory_store = (\<lambda>m h i. (None, mem_RemovePeer m h i))"
  "st_IncrementCompleted memory_store = (\<lambda>m h. (None, mem_IncrementCompleted m h))"
  by (simp_all add: memory_store_def)













end
