(* ===== verification/Go_Float.thy ===== *)
theory Go_Float
  imports Pix_Prelude
begin

text \<open>
  The part of \<open>float64\<close> arithmetic that the transfer rates use.  A finite \<open>float64\<close> is the rational it
  denotes; every operation is exact and then rounded to 53 significant bits, to nearest and ties to
  even.  The values that occur (64-bit counts divided by at least one second) stay far from overflow
  and from subnormal numbers, so rounding to 53 bits is all there is.
\<close>

definition round_half_even :: "rat \<Rightarrow> int" where
  "round_half_even q =
     (let f = floor q; d = q - of_int f in
      if d < 1 / 2 then f else if d > 1 / 2 then f + 1 else if even f then f else f + 1)"

fun bit_length :: "nat \<Rightarrow> nat" where
  "bit_length n = (if n = 0 then 0 else Suc (bit_length (n div 2)))"

declare bit_length.simps [simp del]

text \<open>\<open>floor (log 2 x)\<close> for a positive rational.\<close>

definition rat_exponent :: "rat \<Rightarrow> int" where
  "rat_exponent x =
     (case quotient_of x of (a, b) \<Rightarrow>
        let k = int (bit_length (nat a)) - int (bit_length (nat b)) in
        if power_int 2 k \<le> x then k else k - 1)"

definition fl_pos :: "rat \<Rightarrow> rat" where
  "fl_pos x = (let ulp = power_int 2 (rat_exponent x - 52) in of_int (round_half_even (x / ulp)) * ulp)"

definition fl :: "rat \<Rightarrow> rat" where
  "fl x = (if x = 0 then 0 else if x < 0 then - fl_pos (- x) else fl_pos x)"

text \<open>\<open>time.Duration.Seconds\<close>, for a duration in nanoseconds.\<close>

definition duration_seconds :: "int \<Rightarrow> rat" where
  "duration_seconds d =
     (let sec = d sdiv 1000000000; nsec = d smod 1000000000 in
      fl (fl (of_int sec) + fl (fl (of_int nsec) / 1000000000)))"

text \<open>\<open>time.Time.Sub\<close> saturates at the ends of the 64-bit range.\<close>

definition time_Sub :: "int \<Rightarrow> int \<Rightarrow> int" where
  "time_Sub t u = (if t - u < - (2 ^ 63) then - (2 ^ 63) else if t - u \<ge> 2 ^ 63 then 2 ^ 63 - 1 else t - u)"

lemma fl_0 [simp]: "fl 0 = 0"
  by (simp add: fl_def)

section \<open>Numbers that need no rounding\<close>

lemma bit_length_bounds: "0 < n \<Longrightarrow> 2 ^ (bit_length n - 1) \<le> n \<and> n < 2 ^ bit_length n \<and> 0 < bit_length n"
proof (induction n rule: bit_length.induct)
  case (1 n)
  show ?case
  proof (cases "n div 2 = 0")
    case True
    with "1.prems" have "n = 1" by simp
    then show ?thesis by (simp add: bit_length.simps)
  next
    case False
    with 1 have IH: "2 ^ (bit_length (n div 2) - 1) \<le> n div 2" "n div 2 < 2 ^ bit_length (n div 2)" "0 < bit_length (n div 2)"
      by simp_all
    have len: "bit_length n = Suc (bit_length (n div 2))" using "1.prems" by (subst bit_length.simps) simp
    have "(2 :: nat) ^ bit_length (n div 2) = 2 * 2 ^ (bit_length (n div 2) - 1)"
      using IH(3) by (metis power_eq_if less_numeral_extra(3))
    with IH have "2 ^ bit_length (n div 2) \<le> n" and "n < 2 * 2 ^ bit_length (n div 2)" by linarith+
    with len show ?thesis by simp
  qed
qed

lemma bit_length_rat:
  assumes "0 < a"
  defines "k \<equiv> bit_length (nat a)"
  shows "power_int 2 (int k - 1) \<le> (of_int a :: rat)" and "(of_int a :: rat) < power_int 2 (int k)"
proof -
  have n: "2 ^ (k - 1) \<le> nat a" "nat a < 2 ^ k" "0 < k"
    using bit_length_bounds [of "nat a"] assms(1) by (simp_all add: k_def)
  have "int (2 ^ (k - 1)) \<le> a" "a < int (2 ^ k)" using n(1,2) assms(1) by linarith+
  then have "(2 :: int) ^ (k - 1) \<le> a" "a < 2 ^ k" by simp_all
  then have "(of_int (2 ^ (k - 1)) :: rat) \<le> of_int a" "(of_int a :: rat) < of_int (2 ^ k)"
    by (simp_all only: of_int_le_iff of_int_less_iff)
  moreover have "power_int 2 (int k - 1) = (2 :: rat) ^ (k - 1)"
    using n(3) power_int_of_nat [of "2 :: rat" "k - 1"] by (simp add: of_nat_diff)
  ultimately show "power_int 2 (int k - 1) \<le> (of_int a :: rat)" and "(of_int a :: rat) < power_int 2 (int k)"
    by simp_all
qed

lemma rat_exponent_spec:
  assumes "0 < x"
  shows "power_int 2 (rat_exponent x) \<le> x" and "x < power_int 2 (rat_exponent x + 1)"
proof -
  obtain a b where ab: "quotient_of x = (a, b)" by fastforce
  then have b: "0 < b" and x: "x = of_int a / of_int b" by (simp_all add: quotient_of_denom_pos quotient_of_div)
  with assms have a: "0 < a" by (simp add: zero_less_divide_iff)
  let ?ka = "int (bit_length (nat a))" and ?kb = "int (bit_length (nat b))"
  note la = bit_length_rat [OF a] and lb = bit_length_rat [OF b]
  have "power_int 2 (?ka - 1) / power_int 2 ?kb < (of_int a :: rat) / of_int b"
    using la(1) lb(2) b by (intro frac_less2) simp_all
  moreover have "power_int 2 (?ka - ?kb - 1) = power_int 2 (?ka - 1) / (power_int 2 ?kb :: rat)"
    using power_int_diff [of "2 :: rat" "?ka - 1" ?kb] by (simp add: algebra_simps)
  ultimately have low: "power_int 2 (?ka - ?kb - 1) < x" by (simp only: x)
  have "(of_int a :: rat) / of_int b < power_int 2 ?ka / power_int 2 (?kb - 1)"
    using la(2) lb(1) a by (intro frac_less) simp_all
  moreover have "power_int 2 (?ka - ?kb + 1) = power_int 2 ?ka / (power_int 2 (?kb - 1) :: rat)"
    using power_int_diff [of "2 :: rat" ?ka "?kb - 1"] by (simp add: algebra_simps)
  ultimately have high: "x < power_int 2 (?ka - ?kb + 1)" by (simp only: x)
  have "rat_exponent x = (if power_int 2 (?ka - ?kb) \<le> x then ?ka - ?kb else ?ka - ?kb - 1)"
    by (simp add: rat_exponent_def ab Let_def)
  with low high show "power_int 2 (rat_exponent x) \<le> x" and "x < power_int 2 (rat_exponent x + 1)" by auto
qed

lemma round_half_even_int [simp]: "round_half_even (of_int m) = m"
  by (simp add: round_half_even_def)

text \<open>A fraction whose numerator has at most 53 bits and whose denominator is a power of two is exact.\<close>

lemma fl_dyadic:
  assumes "0 < m" and "m < 2 ^ 53"
  shows "fl (of_int m / 2 ^ j) = of_int m / 2 ^ j"
proof -
  let ?x = "of_int m / 2 ^ j :: rat" and ?e = "rat_exponent (of_int m / 2 ^ j)"
  have pos: "0 < ?x" using assms(1) by simp
  have "power_int 2 ?e \<le> ?x" using pos by (rule rat_exponent_spec)
  also have "?x < 2 ^ 53 / 2 ^ j"
  proof (rule divide_strict_right_mono)
    have "(of_int m :: rat) < of_int (2 ^ 53)" using assms(2) by (simp only: of_int_less_iff)
    then show "(of_int m :: rat) < 2 ^ 53" by simp
  qed simp
  also have "(2 ^ 53 / 2 ^ j :: rat) = power_int 2 (53 - int j)"
    using power_int_diff [of "2 :: rat" 53 "int j"] by simp
  finally have "\<not> 53 - int j \<le> ?e" using power_int_increasing [of "53 - int j" ?e "2 :: rat"] by force
  then have e: "0 \<le> 52 - int j - ?e" by simp
  define u where "u = nat (52 - int j - ?e)"
  have "?x / power_int 2 (?e - 52) = of_int m * power_int 2 (52 - int j - ?e)"
    by (simp add: power_int_diff)
  also have "\<dots> = of_int (m * 2 ^ u)" using e power_int_of_nat [of "2 :: rat" u] by (simp add: u_def)
  finally have "?x / power_int 2 (?e - 52) = of_int (m * 2 ^ u)" .
  then have "fl_pos ?x = of_int (m * 2 ^ u) * power_int 2 (?e - 52)"
    by (simp only: fl_pos_def Let_def round_half_even_int)
  also have "\<dots> = ?x" using \<open>?x / power_int 2 (?e - 52) = of_int (m * 2 ^ u)\<close> by (simp add: field_simps)
  finally show ?thesis using pos by (simp add: fl_def)
qed

lemma fl_int: "0 < m \<Longrightarrow> m < 2 ^ 53 \<Longrightarrow> fl (of_int m) = of_int m"
  using fl_dyadic [of m 0] by simp

end
