(* ===== verification/Peer_State.thy ===== *)
theory Peer_State
  imports Go_Float
begin

text \<open>
  The state kept for each peer, \<open>src/p2p/peer_state.go\<close>: who chokes whom, who is interested, the byte
  counters and the rates computed from them.  The counters are 64-bit and wrap; times are in
  nanoseconds; the current time of \<open>time.Now\<close> is an argument.  Each method holds the lock throughout,
  so it is one function of the state.
\<close>

record peer_state =
  AmChoking :: bool
  AmInterested :: bool
  PeerChoking :: bool
  PeerInterested :: bool
  Uploaded :: int
  Downloaded :: int
  uploadRate :: rat
  downloadRate :: rat
  lastStatTime :: int
  lastUploaded :: int
  lastDownloaded :: int

definition NewPeerState :: "int \<Rightarrow> peer_state" where
  "NewPeerState now =
     \<lparr>AmChoking = True, AmInterested = False, PeerChoking = True, PeerInterested = False,
      Uploaded = 0, Downloaded = 0, uploadRate = 0, downloadRate = 0,
      lastStatTime = now, lastUploaded = 0, lastDownloaded = 0\<rparr>"

definition SetAmChoking :: "bool \<Rightarrow> peer_state \<Rightarrow> peer_state" where
  "SetAmChoking v ps = ps\<lparr>AmChoking := v\<rparr>"

definition SetAmInterested :: "bool \<Rightarrow> peer_state \<Rightarrow> peer_state" where
  "SetAmInterested v ps = ps\<lparr>AmInterested := v\<rparr>"

definition ps_SetPeerChoking :: "bool \<Rightarrow> peer_state \<Rightarrow> peer_state" where
  "ps_SetPeerChoking v ps = ps\<lparr>PeerChoking := v\<rparr>"

definition ps_SetPeerInterested :: "bool \<Rightarrow> peer_state \<Rightarrow> peer_state" where
  "ps_SetPeerInterested v ps = ps\<lparr>PeerInterested := v\<rparr>"

definition AddUploaded :: "int \<Rightarrow> peer_state \<Rightarrow> peer_state" where
  "AddUploaded n ps = ps\<lparr>Uploaded := wrap64 (Uploaded ps + n)\<rparr>"

definition AddDownloaded :: "int \<Rightarrow> peer_state \<Rightarrow> peer_state" where
  "AddDownloaded n ps = ps\<lparr>Downloaded := wrap64 (Downloaded ps + n)\<rparr>"

definition UpdateRates :: "int \<Rightarrow> peer_state \<Rightarrow> peer_state" where
  "UpdateRates now ps =
     (let elapsed = duration_seconds (time_Sub now (lastStatTime ps)) in
      if elapsed < 1 then ps
      else ps\<lparr>uploadRate := fl (fl (of_int (wrap64 (Uploaded ps - lastUploaded ps))) / elapsed),
              downloadRate := fl (fl (of_int (wrap64 (Downloaded ps - lastDownloaded ps))) / elapsed),
              lastUploaded := Uploaded ps, lastDownloaded := Downloaded ps,
              lastStatTime := now\<rparr>)"

definition UploadRate :: "peer_state \<Rightarrow> rat" where
  "UploadRate ps = uploadRate ps"

definition DownloadRate :: "peer_state \<Rightarrow> rat" where
  "DownloadRate ps = downloadRate ps"

definition IsAmChoking :: "peer_state \<Rightarrow> bool" where
  "IsAmChoking ps = AmChoking ps"

definition IsPeerChoking :: "peer_state \<Rightarrow> bool" where
  "IsPeerChoking ps = PeerChoking ps"

definition IsPeerInterested :: "peer_state \<Rightarrow> bool" where
  "IsPeerInterested ps = PeerInterested ps"

definition IsAmInterested :: "peer_state \<Rightarrow> bool" where
  "IsAmInterested ps = AmInterested ps"

lemma UpdateRates_frame [simp]:
  "AmChoking (UpdateRates now ps) = AmChoking ps"
  "PeerInterested (UpdateRates now ps) = PeerInterested ps"
  "PeerChoking (UpdateRates now ps) = PeerChoking ps"
  "Uploaded (UpdateRates now ps) = Uploaded ps"
  "Downloaded (UpdateRates now ps) = Downloaded ps"
  by (simp_all add: UpdateRates_def Let_def)

lemma SetAmChoking_frame [simp]:
  "AmChoking (SetAmChoking v ps) = v"
  "PeerInterested (SetAmChoking v ps) = PeerInterested ps"
  "downloadRate (SetAmChoking v ps) = downloadRate ps"
  by (simp_all add: SetAmChoking_def)

text \<open>Counters stay in the 64-bit range.\<close>

definition ps_ok :: "peer_state \<Rightarrow> bool" where
  "ps_ok ps \<longleftrightarrow> int64_ok (Uploaded ps) \<and> int64_ok (Downloaded ps) \<and>
     int64_ok (lastUploaded ps) \<and> int64_ok (lastDownloaded ps)"

lemma ps_ok_ops:
  "ps_ok (NewPeerState now)"
  "ps_ok ps \<Longrightarrow> ps_ok (SetAmChoking v ps)"
  "ps_ok ps \<Longrightarrow> ps_ok (ps_SetPeerChoking v ps)"
  "ps_ok ps \<Longrightarrow> ps_ok (ps_SetPeerInterested v ps)"
  "ps_ok ps \<Longrightarrow> ps_ok (AddUploaded n ps)"
  "ps_ok ps \<Longrightarrow> ps_ok (AddDownloaded n ps)"
  "ps_ok ps \<Longrightarrow> ps_ok (UpdateRates now ps)"
  by (simp_all add: ps_ok_def NewPeerState_def SetAmChoking_def ps_SetPeerChoking_def
      ps_SetPeerInterested_def AddUploaded_def AddDownloaded_def UpdateRates_def Let_def int64_ok_small)

end
