(* ===== verification/Wire.thy ===== *)
theory Wire
  imports Prefix_Code "HOL-Library.Sublist"
begin

text \<open>
  The wire format, \<open>src/p2p/encoding.go\<close>, and the peer's two ends of it, \<open>src/p2p/tcp_transport.go\<close>:
  \<open>Send\<close> queues a length-prefixed frame, \<open>writeLoop\<close> writes the queue to the connection, and
  \<open>BinaryDecoder.Decode\<close> reads frames back.  A connection's incoming side is the list of the bytes that
  still arrive and the error with which it then ends (\<open>io.EOF\<close>, or another network error); buffering
  does not change what is read, because every read is an \<open>io.ReadFull\<close>.
\<close>

section \<open>Reading\<close>

datatype io_err = EOF | UnexpectedEOF | NetworkError

definition io_ReadFull :: "io_err \<Rightarrow> nat \<Rightarrow> bytes \<Rightarrow> io_err + bytes \<times> bytes" where
  "io_ReadFull e n s =
     (if n \<le> length s then Inr (take n s, drop n s)
      else Inl (if e = EOF \<and> s \<noteq> [] then UnexpectedEOF else e))"

datatype wire_err = ReadError io_err | MessageTooLong "32 word"

definition MaxMessageLength :: nat where
  "MaxMessageLength = 16 * 1024 * 1024"

text \<open>
  \<open>Decode\<close> sets \<open>rpc.Payload\<close>: \<open>nil\<close> (here the empty list) for a keep-alive, the message otherwise.
\<close>

definition wire_Decode :: "io_err \<Rightarrow> bytes \<Rightarrow> wire_err + bytes \<times> bytes" where
  "wire_Decode e s =
     (case io_ReadFull e 4 s of
        Inl err \<Rightarrow> Inl (ReadError err)
      | Inr (hdr, r) \<Rightarrow>
          let len = get_u32 hdr in
          if len = 0 then Inr ([], r)
          else if unat len > MaxMessageLength then Inl (MessageTooLong len)
          else (case io_ReadFull e (unat len) r of
              Inl err \<Rightarrow> Inl (ReadError err)
            | Inr (buf, r') \<Rightarrow> Inr (buf, r')))"

text \<open>The read loop of \<open>handleConn\<close>: the payloads in order, and the error that ends it.\<close>

lemma wire_Decode_shorter: "wire_Decode e s = Inr (m, r) \<Longrightarrow> length r < length s"
  by (auto simp: wire_Decode_def io_ReadFull_def Let_def split: if_splits)

function read_loop :: "io_err \<Rightarrow> bytes \<Rightarrow> bytes list \<times> wire_err" where
  "read_loop e s =
     (case wire_Decode e s of
        Inl err \<Rightarrow> ([], err)
      | Inr (m, r) \<Rightarrow> (case read_loop e r of (ms, err) \<Rightarrow> (m # ms, err)))"
  by pat_completeness auto
termination read_loop
  by (relation "measure (\<lambda>(e, s). length s)") (auto dest: wire_Decode_shorter)

declare read_loop.simps [simp del]

section \<open>Writing\<close>

text \<open>The frame that \<open>Send\<close> puts into the outbox.\<close>

definition frame :: "bytes \<Rightarrow> bytes" where
  "frame data = put_u32 (word_of_nat (length data)) @ data"

text \<open>
  What one \<open>Write\<close> on a connection does: it takes some bytes, or takes some and fails.  A write that
  never returns is the end of the list of outcomes.
\<close>

datatype write_outcome = Wrote nat | WriteFailed nat

fun write_buf :: "bytes \<Rightarrow> write_outcome list \<Rightarrow> bytes \<times> write_outcome list \<times> bool" where
  "write_buf [] os = ([], os, True)"
| "write_buf (b # bs) [] = ([], [], False)"
| "write_buf (b # bs) (Wrote n # os) =
     (case write_buf (drop n (b # bs)) os of (w, os', ok) \<Rightarrow> (take n (b # bs) @ w, os', ok))"
| "write_buf (b # bs) (WriteFailed n # os) = (take n (b # bs), os, False)"

fun writeLoop :: "bytes list \<Rightarrow> write_outcome list \<Rightarrow> bytes \<times> bool" where
  "writeLoop [] os = ([], True)"
| "writeLoop (buf # outbox) os =
     (case write_buf buf os of
        (w, os', True) \<Rightarrow> (case writeLoop outbox os' of (w', ok) \<Rightarrow> (w @ w', ok))
      | (w, os', False) \<Rightarrow> (w, False))"

section \<open>Frames are a prefix code\<close>

definition message_ok :: "bytes \<Rightarrow> bool" where
  "message_ok m \<longleftrightarrow> length m \<le> MaxMessageLength"

definition frames :: "bytes \<Rightarrow> bytes \<Rightarrow> bool" where
  "frames s m \<longleftrightarrow> s = frame m \<and> message_ok m"

lemma unat_frame_length: "length m < 2 ^ 32 \<Longrightarrow> unat (word_of_nat (length m) :: 32 word) = length m"
  by (simp add: unat_of_nat take_bit_eq_mod)

lemma io_ReadFull_append: "io_ReadFull e (length m) (m @ rest) = Inr (m, rest)"
  by (simp add: io_ReadFull_def)

lemma wire_Decode_frame_gen:
  assumes "length m < 2 ^ 32"
  shows "wire_Decode e (frame m @ rest) =
    (if message_ok m then Inr (m, rest) else Inl (MessageTooLong (word_of_nat (length m))))"
proof -
  define len :: "32 word" where "len = word_of_nat (length m)"
  have unat: "unat len = length m" unfolding len_def using assms by (rule unat_frame_length)
  have zero: "len = 0 \<longleftrightarrow> m = []" by (metis length_0_conv unat unat_eq_zero)
  have "frame m @ rest = put_u32 len @ m @ rest" by (simp add: frame_def len_def)
  then have header: "io_ReadFull e 4 (frame m @ rest) = Inr (put_u32 len, m @ rest)"
    by (simp add: io_ReadFull_def)
  show ?thesis
    unfolding len_def [symmetric]
    by (auto simp: wire_Decode_def header Let_def unat zero io_ReadFull_append message_ok_def MaxMessageLength_def)
qed

lemma wire_Decode_frame: "message_ok m \<Longrightarrow> wire_Decode e (frame m @ rest) = Inr (m, rest)"
  by (subst wire_Decode_frame_gen) (auto simp: message_ok_def MaxMessageLength_def)

interpretation wire: prefix_code frames "wire_Decode e"
  by unfold_locales (auto simp: frames_def wire_Decode_frame)

lemma read_loop_frames:
  assumes "list_all message_ok ms"
  shows "read_loop e (concat (map frame ms) @ rest) = (case read_loop e rest of (ms', err) \<Rightarrow> (ms @ ms', err))"
  using assms
proof (induction ms)
  case Nil
  show ?case by (simp split: prod.split)
next
  case (Cons m ms)
  have "read_loop e (concat (map frame (m # ms)) @ rest) =
    (case read_loop e (concat (map frame ms) @ rest) of (ms', err) \<Rightarrow> (m # ms', err))"
    using Cons.prems by (subst read_loop.simps) (simp add: wire_Decode_frame)
  also have "\<dots> = (case read_loop e rest of (ms', err) \<Rightarrow> (m # ms @ ms', err))"
    using Cons by (simp split: prod.split)
  finally show ?case by (simp split: prod.split)
qed

text \<open>A stream cut inside a frame: the decoder reports an error and no message.\<close>

lemma wire_Decode_cut:
  assumes "length m < 2 ^ 32" and "strict_prefix s (frame m)"
  shows "\<exists>err. wire_Decode e s = Inl err"
proof (cases "length s < 4")
  case True
  then show ?thesis by (simp add: wire_Decode_def io_ReadFull_def)
next
  case False
  define len :: "32 word" where "len = word_of_nat (length m)"
  from assms(2) obtain c cs where split: "put_u32 len @ m = s @ c # cs"
    by (auto simp: frame_def len_def elim: strict_prefixE')
  have "take 4 (put_u32 len @ m) = take 4 s" and "drop 4 (put_u32 len @ m) = drop 4 s @ c # cs"
    unfolding split using False by simp_all
  then have hdr: "take 4 s = put_u32 len" and m: "m = drop 4 s @ c # cs" using False by simp_all
  have unat: "unat len = length m"
    unfolding len_def using assms(1) by (rule unat_frame_length)
  have "len \<noteq> 0" using unat m by (metis length_0_conv unat_0 append_is_Nil_conv list.distinct(1))
  moreover have "\<not> length m \<le> length (drop 4 s)" by (subst m) simp
  ultimately show ?thesis
    using False unat by (simp add: wire_Decode_def io_ReadFull_def hdr Let_def)
qed

text \<open>
  Reading any prefix of a stream of frames: the messages come out in order, up to the cut or to the
  first message that is too long.
\<close>

lemma read_loop_prefix:
  assumes "\<forall>m \<in> set ms. length m < 2 ^ 32" and "prefix s (concat (map frame ms))"
  shows "prefix (fst (read_loop e s)) (takeWhile message_ok ms)"
  using assms
proof (induction ms arbitrary: s)
  case Nil
  then show ?case by (subst read_loop.simps) (simp add: wire_Decode_def io_ReadFull_def)
next
  case (Cons m ms)
  have m: "length m < 2 ^ 32" using Cons.prems(1) by simp
  consider "strict_prefix s (frame m)" | s' where "s = frame m @ s'" "prefix s' (concat (map frame ms))"
    using Cons.prems(2) by (force simp: prefix_append strict_prefix_def)
  then show ?case
  proof cases
    case 1
    then obtain err where "wire_Decode e s = Inl err" using wire_Decode_cut [OF m] by blast
    then show ?thesis by (subst read_loop.simps) simp
  next
    case 2
    then have "prefix (fst (read_loop e s')) (takeWhile message_ok ms)" using Cons by simp
    then show ?thesis
      unfolding 2(1) by (subst read_loop.simps)
        (auto simp: wire_Decode_frame_gen [OF m] split: prod.splits)
  qed
qed

lemma read_loop_all:
  assumes "\<forall>m \<in> set ms. length m < 2 ^ 32"
  shows "fst (read_loop e (concat (map frame ms))) = takeWhile message_ok ms"
  using assms
proof (induction ms)
  case Nil
  show ?case by (subst read_loop.simps) (simp add: wire_Decode_def io_ReadFull_def)
next
  case (Cons m ms)
  then show ?case
    by (subst read_loop.simps) (auto simp: wire_Decode_frame_gen split: prod.splits)
qed

section \<open>The write loop\<close>

lemma write_buf_prefix: "write_buf buf os = (w, os', ok) \<Longrightarrow> prefix w buf \<and> (ok \<longrightarrow> w = buf)"
proof (induction buf os arbitrary: w rule: write_buf.induct)
  case (3 b bs n os)
  then obtain v where v: "write_buf (drop n (b # bs)) os = (v, os', ok)" and w: "w = take n (b # bs) @ v"
    by (auto split: prod.splits)
  have "prefix v (drop n (b # bs))" and "ok \<longrightarrow> v = drop n (b # bs)" using "3.IH" [OF v] by simp_all
  then show ?case unfolding w by (metis append_take_drop_id same_prefix_prefix)
qed (auto simp: take_is_prefix split: prod.splits)

lemma writeLoop_prefix:
  "prefix (fst (writeLoop outbox os)) (concat outbox) \<and>
   (snd (writeLoop outbox os) \<longrightarrow> fst (writeLoop outbox os) = concat outbox)"
proof (induction outbox os rule: writeLoop.induct)
  case (1 os)
  show ?case by simp
next
  case (2 buf outbox os)
  obtain w os' ok where w: "write_buf buf os = (w, os', ok)" by (cases "write_buf buf os")
  with write_buf_prefix have "prefix w buf" "ok \<longrightarrow> w = buf" by blast+
  with w 2 show ?case by (cases ok) (auto split: prod.splits)
qed

end
