(* ===== verification/Handshake.thy ===== *)
theory Handshake
  imports Wire
begin

text \<open>
  The handshake, \<open>src/p2p/handshake.go\<close>: 68 bytes in each direction,
  \<open>pstrlen pstr reserved info_hash peer_id\<close>.  The dialing side writes first, the accepting side reads
  first.  The definitions return what was written to the connection, and the outcome with the bytes of
  the incoming stream that are left.
\<close>

definition pstr :: string where
  "pstr = ''piXTorrent protocol''"

datatype handshake_err =
    HandshakeWrite
  | HandshakeRead io_err
  | UnexpectedProtocol string
  | InfohashMismatch bytes
  | ConnectedToSelf id20

definition buildHandshake :: "id20 \<Rightarrow> id20 \<Rightarrow> bytes" where
  "buildHandshake infoHash localPeerID =
     word_of_nat (length pstr) # bytes_of_string pstr @ replicate 8 0 @ infoHash @ localPeerID"

text \<open>
  The checks on the 68 bytes received, in the order of the code; each slice expression panics when it
  is out of range.
\<close>

definition liftP :: "go_panic + 'a \<Rightarrow> 'e fail + 'a" where
  "liftP m = (case m of Inl p \<Rightarrow> Inl (Panic p) | Inr x \<Rightarrow> Inr x)"

definition check_response :: "id20 \<Rightarrow> id20 \<Rightarrow> bytes \<Rightarrow> handshake_err fail + id20" where
  "check_response infoHash localID resp =
     (let pstrlen = uint (resp ! 0) in
      bindE (liftP (go_slice resp 1 (1 + pstrlen))) (\<lambda>ps.
        if string_of_bytes ps \<noteq> pstr then Inl (Err (UnexpectedProtocol (string_of_bytes ps)))
        else
          bindE (liftP (go_slice resp (1 + pstrlen + 8) (1 + pstrlen + 8 + 20))) (\<lambda>receivedInfoHash.
            if receivedInfoHash \<noteq> infoHash then Inl (Err (InfohashMismatch receivedInfoHash))
            else
              bindE (liftP (go_slice resp (1 + pstrlen + 8 + 20) (int (length resp)))) (\<lambda>receivedPeerID.
                if receivedPeerID = localID then Inl (Err (ConnectedToSelf receivedPeerID))
                else Inr receivedPeerID))))"

definition read_response :: "io_err \<Rightarrow> nat \<Rightarrow> bytes \<Rightarrow> handshake_err fail + bytes \<times> bytes" where
  "read_response e n input =
     (case io_ReadFull e n input of Inl err \<Rightarrow> Inl (Err (HandshakeRead err)) | Inr (resp, r) \<Rightarrow> Inr (resp, r))"

text \<open>
  \<open>write_ok\<close> says whether the one \<open>Write\<close> of the handshake succeeds; a failed write is recorded as
  writing nothing.
\<close>

definition DefaultHandshakeFunc ::
  "id20 \<Rightarrow> id20 \<Rightarrow> bool \<Rightarrow> bool \<Rightarrow> io_err \<Rightarrow> bytes \<Rightarrow> bytes \<times> (handshake_err fail + id20 \<times> bytes)" where
  "DefaultHandshakeFunc infoHash localID outbound write_ok e input =
     (let hs = buildHandshake infoHash localID;
          n = length hs;
          check = (\<lambda>(resp, r). bindE (check_response infoHash localID resp) (\<lambda>peerID. Inr (peerID, r)))
      in if outbound then
           (if \<not> write_ok then ([], Inl (Err HandshakeWrite))
            else (hs, bindE (read_response e n input) check))
         else
           (case read_response e n input of
              Inl err \<Rightarrow> ([], Inl err)
            | Inr (resp, r) \<Rightarrow>
                if \<not> write_ok then ([], Inl (Err HandshakeWrite))
                else (hs, check (resp, r))))"

definition NOPHandshakeFunc :: "id20 \<Rightarrow> id20 \<Rightarrow> bool \<Rightarrow> bool \<Rightarrow> io_err \<Rightarrow> bytes \<Rightarrow> bytes \<times> (handshake_err fail + unit)" where
  "NOPHandshakeFunc infoHash localID outbound write_ok e input = ([], Inr ())"

section \<open>What a response looks like\<close>

text \<open>A handshake as sent by anyone who follows the format: the reserved bytes are free.\<close>

definition handshake_bytes :: "bytes \<Rightarrow> id20 \<Rightarrow> id20 \<Rightarrow> bytes" where
  "handshake_bytes reserved infoHash peerID = 19 # bytes_of_string pstr @ reserved @ infoHash @ peerID"

lemma length_pstr [simp]: "length pstr = 19"
  by (simp add: pstr_def)

lemma buildHandshake_bytes: "buildHandshake infoHash localID = handshake_bytes (replicate 8 0) infoHash localID"
  by (simp add: buildHandshake_def handshake_bytes_def)

lemma length_handshake_bytes:
  "length reserved = 8 \<Longrightarrow> is20 infoHash \<Longrightarrow> is20 peerID \<Longrightarrow> length (handshake_bytes reserved infoHash peerID) = 68"
  by (simp add: handshake_bytes_def is20_def)

lemma go_slice_at:
  "a = int (length xs) \<Longrightarrow> b = int (length xs + length ys) \<Longrightarrow> go_slice (xs @ ys @ zs) a b = Inr ys"
  using go_slice_nat [of "length xs" "length xs + length ys" "xs @ ys @ zs"] by simp

lemma check_response_bytes:
  assumes "length reserved = 8" and "is20 infoHash'" and "is20 peerID"
  shows "check_response infoHash localID (handshake_bytes reserved infoHash' peerID) =
    (if infoHash' \<noteq> infoHash then Inl (Err (InfohashMismatch infoHash'))
     else if peerID = localID then Inl (Err (ConnectedToSelf peerID))
     else Inr peerID)"
proof -
  define resp where "resp = handshake_bytes reserved infoHash' peerID"
  have len: "length resp = 68" unfolding resp_def using assms by (rule length_handshake_bytes)
  have p: "uint (resp ! 0) = 19" by (simp add: handshake_bytes_def resp_def)
  have "go_slice resp 1 20 = Inr (bytes_of_string pstr)"
    using go_slice_at [of 1 "[19]" 20 "bytes_of_string pstr"] by (simp add: handshake_bytes_def resp_def)
  moreover have "go_slice resp 28 48 = Inr infoHash'"
    using go_slice_at [of 28 "19 # bytes_of_string pstr @ reserved" 48 infoHash' peerID] assms
    by (simp add: handshake_bytes_def is20_def resp_def)
  moreover have "go_slice resp 48 68 = Inr peerID"
    using go_slice_at [of 48 "19 # bytes_of_string pstr @ reserved @ infoHash'" 68 peerID "[]"] assms
    by (simp add: handshake_bytes_def is20_def resp_def)
  ultimately show ?thesis unfolding resp_def [symmetric]
    by (simp add: check_response_def Let_def liftP_def len p)
qed

text \<open>Conversely, a response is accepted only if it is of this form.\<close>

lemma go_slice_Inr: "go_slice xs a b = Inr ys \<longleftrightarrow>
    0 \<le> a \<and> a \<le> b \<and> b \<le> int (length xs) \<and> ys = take (nat (b - a)) (drop (nat a) xs)"
  by (auto simp: go_slice_def)

lemma drop_split: "drop a xs = take n (drop a xs) @ drop (a + n) xs"
  by (metis add.commute append_take_drop_id drop_drop)

lemma check_response_Inr:
  assumes "check_response infoHash localID resp = Inr peerID" and "length resp = 68"
  shows "\<exists>reserved. length reserved = 8 \<and> resp = handshake_bytes reserved infoHash peerID \<and>
    is20 infoHash \<and> is20 peerID \<and> peerID \<noteq> localID"
proof -
  define p where "p = uint (resp ! 0)"
  have "0 \<le> p" by (simp add: p_def)
  obtain ps where ps: "go_slice resp 1 (1 + p) = Inr ps" and "string_of_bytes ps = pstr"
    using assms(1) unfolding check_response_def p_def [symmetric]
    by (auto simp: Let_def bindE_Inr_iff liftP_def split: sum.splits if_splits)
  then have ps': "ps = bytes_of_string pstr" by (metis bytes_of_string_inverse)
  then have "int (length ps) = 19" by simp
  moreover have "int (length ps) = p" using ps assms(2) \<open>0 \<le> p\<close> by (auto simp: go_slice_Inr)
  ultimately have p: "p = 19" by simp
  have info: "go_slice resp 28 48 = Inr infoHash" and id: "go_slice resp 48 68 = Inr peerID"
    and new: "peerID \<noteq> localID"
    using assms unfolding check_response_def p_def [symmetric] p
    by (auto simp: Let_def bindE_Inr_iff liftP_def split: sum.splits if_splits)
  obtain b t where resp: "resp = b # t" using assms(2) by (cases resp) auto
  have "b = 19" using p by (simp add: p_def resp word_uint_eq_iff)
  have "t = take 19 t @ take 8 (drop 19 t) @ take 20 (drop 27 t) @ drop 47 t"
    using drop_split [of 0 t 19] drop_split [of 19 t 8] drop_split [of 27 t 20] by simp
  moreover have "take 19 t = bytes_of_string pstr" "take 20 (drop 27 t) = infoHash" "drop 47 t = peerID"
    using ps info id assms(2) by (auto simp: go_slice_Inr resp p ps')
  ultimately have "resp = handshake_bytes (take 8 (drop 19 t)) infoHash peerID"
    unfolding resp handshake_bytes_def \<open>b = 19\<close> by simp
  moreover have "length (take 8 (drop 19 t)) = 8" and "is20 infoHash" and "is20 peerID"
    using info id assms(2) by (auto simp: go_slice_Inr resp is20_def)
  ultimately show ?thesis using new by blast
qed

lemma length_buildHandshake: "is20 infoHash \<Longrightarrow> is20 localID \<Longrightarrow> length (buildHandshake infoHash localID) = 68"
  by (simp add: buildHandshake_bytes length_handshake_bytes)

lemma read_response_append:
  "length resp = n \<Longrightarrow> read_response e n (resp @ r) = Inr (resp, r)"
  by (simp add: read_response_def io_ReadFull_def)

lemma read_response_Inr:
  "read_response e n input = Inr (resp, r) \<Longrightarrow> length resp = n \<and> input = resp @ r"
  by (auto simp: read_response_def io_ReadFull_def split: if_splits)

text \<open>Both sides in one line: what is written, and what becomes of the response.\<close>

lemma DefaultHandshakeFunc_response:
  assumes "is20 infoHash" and "is20 localID" and "length resp = 68"
  shows "DefaultHandshakeFunc infoHash localID outbound True e (resp @ r) =
    (buildHandshake infoHash localID,
     bindE (check_response infoHash localID resp) (\<lambda>peerID. Inr (peerID, r)))"
  using assms by (simp add: DefaultHandshakeFunc_def Let_def length_buildHandshake read_response_append)

lemma DefaultHandshakeFunc_bytes:
  assumes "is20 infoHash" and "is20 localID" and "is20 peerID" and "peerID \<noteq> localID" and "length reserved = 8"
  shows "DefaultHandshakeFunc infoHash localID outbound True e (handshake_bytes reserved infoHash peerID @ r) =
    (buildHandshake infoHash localID, Inr (peerID, r))"
  using DefaultHandshakeFunc_response [OF assms(1,2) length_handshake_bytes [OF assms(5,1,3)]]
  by (simp add: check_response_bytes assms)

lemma DefaultHandshakeFunc_Inr:
  assumes "DefaultHandshakeFunc infoHash localID outbound write_ok e input = (w, Inr (peerID, r))"
    and "is20 infoHash" and "is20 localID"
  obtains resp where "input = resp @ r" and "length resp = 68" and "w = buildHandshake infoHash localID"
    and "check_response infoHash localID resp = Inr peerID"
  using assms
  by (auto simp: DefaultHandshakeFunc_def Let_def bindE_Inr_iff length_buildHandshake
      split: if_splits sum.splits dest!: read_response_Inr)

lemma check_response_panic:
  assumes "length resp = 68"
  shows "(\<exists>p. check_response infoHash localID resp = Inl (Panic p)) \<longleftrightarrow> 67 < uint (resp ! 0)"
proof -
  define p where "p = uint (resp ! 0)"
  have "0 \<le> p" by (simp add: p_def)
  show ?thesis
  proof (cases "67 < p")
    case True
    then show ?thesis using assms
      unfolding check_response_def p_def [symmetric] by (simp add: Let_def go_slice_def liftP_def)
  next
    case False
    with assms \<open>0 \<le> p\<close> have ps: "go_slice resp 1 (1 + p) = Inr (take (nat p) (drop 1 resp))"
      by (simp add: go_slice_def)
    have "p = 19" if "string_of_bytes (take (nat p) (drop 1 resp)) = pstr"
    proof -
      have "length (take (nat p) (drop 1 resp)) = 19" using that by (metis length_pstr length_string_of_bytes)
      with False assms \<open>0 \<le> p\<close> show ?thesis by (simp add: min_def split: if_splits)
    qed
    then show ?thesis using False assms
      unfolding check_response_def p_def [symmetric]
      using \<open>0 \<le> p\<close> by (auto simp: Let_def ps liftP_def go_slice_def bindE_def)
  qed
qed

section \<open>Properties\<close>

text \<open>
  C37.  Two peers of the same torrent with different ids connect: each side succeeds on what the other
  wrote, learns the other's id, and leaves everything behind the handshake unread.
\<close>

theorem handshake_connects:
  assumes "is20 infoHash" and "is20 a" and "is20 b" and "a \<noteq> b"
  shows "\<exists>wa wb. DefaultHandshakeFunc infoHash a True True e (wb @ ra) = (wa, Inr (b, ra)) \<and>
    DefaultHandshakeFunc infoHash b False True e' (wa @ rb) = (wb, Inr (a, rb))"
proof (intro exI conjI)
  have "DefaultHandshakeFunc infoHash l outbound True e (buildHandshake infoHash p @ r) =
      (buildHandshake infoHash l, Inr (p, r))" if "is20 l" "is20 p" "l \<noteq> p" for l p outbound e r
    using that assms(1) by (simp add: DefaultHandshakeFunc_bytes buildHandshake_bytes [of _ p])
  with assms show "DefaultHandshakeFunc infoHash a True True e (buildHandshake infoHash b @ ra) =
      (buildHandshake infoHash a, Inr (b, ra))"
    and "DefaultHandshakeFunc infoHash b False True e' (buildHandshake infoHash a @ rb) =
      (buildHandshake infoHash b, Inr (a, rb))" by simp_all
qed

theorem handshake_connects_witness:
  "\<exists>wa wb. DefaultHandshakeFunc zero20 (replicate 20 1) True True EOF (wb @ [7]) = (wa, Inr (replicate 20 2, [7])) \<and>
    DefaultHandshakeFunc zero20 (replicate 20 2) False True EOF (wa @ [8]) = (wb, Inr (replicate 20 1, [8]))"
proof -
  have "is20 (replicate 20 1)" and "is20 (replicate 20 2)" and "replicate 20 (1 :: byte) \<noteq> replicate 20 2"
    by (simp_all add: is20_def)
  from handshake_connects [OF is20_zero20 this] show ?thesis .
qed

text \<open>
  C39.  A handshake that succeeds has received a well-formed handshake of the same torrent, from a peer
  with another id than the local one, has consumed exactly these 68 bytes, and has sent its own.
\<close>

theorem handshake_authentic:
  assumes "DefaultHandshakeFunc infoHash localID outbound write_ok e input = (w, Inr (peerID, r))"
    and "is20 infoHash" and "is20 localID"
  shows "\<exists>reserved. length reserved = 8 \<and> input = handshake_bytes reserved infoHash peerID @ r \<and>
    is20 peerID \<and> peerID \<noteq> localID \<and> w = buildHandshake infoHash localID"
proof -
  obtain resp where "input = resp @ r" "length resp = 68" "w = buildHandshake infoHash localID"
    and check: "check_response infoHash localID resp = Inr peerID"
    using assms by (rule DefaultHandshakeFunc_Inr)
  with check_response_Inr [OF check] show ?thesis by auto
qed

theorem handshake_authentic_witness:
  "\<exists>w r. DefaultHandshakeFunc zero20 (replicate 20 1) False True EOF
      (handshake_bytes [1, 2, 3, 4, 5, 6, 7, 8] zero20 (replicate 20 2) @ [9]) = (w, Inr (replicate 20 2, r)) \<and>
    (\<exists>reserved. handshake_bytes [1, 2, 3, 4, 5, 6, 7, 8] zero20 (replicate 20 2) @ [9] =
       handshake_bytes reserved zero20 (replicate 20 2) @ r \<and> length reserved = 8 \<and>
       w = buildHandshake zero20 (replicate 20 1))"
proof -
  have ids: "is20 (replicate 20 1)" "is20 (replicate 20 2)" "replicate 20 (2 :: byte) \<noteq> replicate 20 1"
    by (simp_all add: is20_def)
  have "DefaultHandshakeFunc zero20 (replicate 20 1) False True EOF
      (handshake_bytes [1, 2, 3, 4, 5, 6, 7, 8] zero20 (replicate 20 2) @ [9]) =
      (buildHandshake zero20 (replicate 20 1), Inr (replicate 20 2, [9]))"
    by (rule DefaultHandshakeFunc_bytes) (use ids in simp_all)
  with handshake_authentic [OF this is20_zero20 ids(1)] show ?thesis by blast
qed

text \<open>
  A remote peer can crash the process: with the 68 bytes of a response read, the handshake panics
  exactly when the first byte, the length of the protocol string, is above 67.
\<close>

theorem handshake_panic_iff:
  assumes "is20 infoHash" and "is20 localID" and "length resp = 68"
  shows "(\<exists>p. snd (DefaultHandshakeFunc infoHash localID outbound True e (resp @ r)) = Inl (Panic p)) \<longleftrightarrow>
    67 < uint (resp ! 0)"
  using check_response_panic [OF assms(3), of infoHash localID]
  by (auto simp: DefaultHandshakeFunc_response [OF assms] bindE_Inl_iff)

theorem handshake_panic_iff_witness:
  "\<exists>p. snd (DefaultHandshakeFunc zero20 zero20 False True EOF (replicate 68 255)) = Inl (Panic p)"
  using handshake_panic_iff [OF is20_zero20 is20_zero20, of "replicate 68 255" False EOF "[]"] by simp

end
