(* ===== verification/Transport.thy ===== *)
theory Transport
  imports Handshake
begin

text \<open>
  A connection to a peer, \<open>TCPPeer\<close> of \<open>src/p2p/tcp_transport.go\<close>, and the RPC values it delivers,
  \<open>src/p2p/rpc.go\<close>.  \<open>Send\<close> and \<open>Close\<close> hold the peer's mutex and are atomic; \<open>writeLoop\<close> is a
  goroutine of its own, so a link is driven by events: a \<open>Send\<close>, one round of the write loop with
  whatever the connection does, a \<open>Close\<close>.  The sockets themselves, listening and dialing are left out.
\<close>

section \<open>Peers\<close>

record tcp_peer =
  peer_id :: id20
  outbound :: bool
  outbox :: "bytes list"      \<comment> \<open>a channel of capacity 2048\<close>
  is_closed :: bool
  conn_closed :: bool

definition outbox_cap :: nat where
  "outbox_cap = 2048"

definition NewTCPPeer :: "bool \<Rightarrow> tcp_peer" where
  "NewTCPPeer outb =
     \<lparr>peer_id = zero20, outbound = outb, outbox = [], is_closed = False, conn_closed = False\<rparr>"

datatype send_err = PeerClosed | OutboxFull

definition Send :: "tcp_peer \<Rightarrow> bytes \<Rightarrow> send_err + tcp_peer" where
  "Send p data =
     (if is_closed p then Inl PeerClosed
      else let buf = frame data in
        if length (outbox p) < outbox_cap then Inr (p\<lparr>outbox := outbox p @ [buf]\<rparr>)
        else Inl OutboxFull)"

text \<open>\<open>Close\<close> runs once: a second call does not close the channel again.\<close>

definition Close :: "tcp_peer \<Rightarrow> tcp_peer" where
  "Close p = (if is_closed p then p else p\<lparr>is_closed := True, conn_closed := True\<rparr>)"

definition SetID :: "tcp_peer \<Rightarrow> id20 \<Rightarrow> tcp_peer" where
  "SetID p i = p\<lparr>peer_id := i\<rparr>"

definition ID :: "tcp_peer \<Rightarrow> id20" where
  "ID p = peer_id p"

text \<open>The usual call \<open>if err := peer.Send(m); err != nil { log }\<close>.\<close>

definition send_logged :: "bytes \<Rightarrow> tcp_peer \<Rightarrow> tcp_peer" where
  "send_logged data p = (case Send p data of Inl _ \<Rightarrow> p | Inr p' \<Rightarrow> p')"

lemma Send_Inr: "Send p m = Inr p' \<longleftrightarrow>
    \<not> is_closed p \<and> length (outbox p) < outbox_cap \<and> p' = p\<lparr>outbox := outbox p @ [frame m]\<rparr>"
  by (auto simp: Send_def Let_def)

lemma Close_idem [simp]: "Close (Close p) = Close p"
  by (simp add: Close_def)

lemma Close_fields [simp]:
  "is_closed (Close p)" "peer_id (Close p) = peer_id p" "outbox (Close p) = outbox p"
  by (simp_all add: Close_def)

lemma send_logged_fields [simp]:
  "peer_id (send_logged m p) = peer_id p" "is_closed (send_logged m p) = is_closed p"
  by (simp_all add: send_logged_def Send_def Let_def split: sum.split)

section \<open>Messages\<close>

record From =
  PeerID :: id20
  Addr :: string

record RPC =
  From :: From
  Payload :: bytes

definition MsgInterested :: byte where "MsgInterested = 0x01"
definition MsgNotInterested :: byte where "MsgNotInterested = 0x02"
definition MsgRequestPiece :: byte where "MsgRequestPiece = 0x03"
definition MsgSendPiece :: byte where "MsgSendPiece = 0x04"
definition MsgHave :: byte where "MsgHave = 0x05"
definition MsgBitfield :: byte where "MsgBitfield = 0x06"
definition MsgUnchoke :: byte where "MsgUnchoke = 0x07"
definition MsgChoke :: byte where "MsgChoke = 0x08"

lemmas Msg_defs = MsgInterested_def MsgNotInterested_def MsgRequestPiece_def MsgSendPiece_def
  MsgHave_def MsgBitfield_def MsgUnchoke_def MsgChoke_def

section \<open>The connection handler\<close>

text \<open>
  Connections are shared between the handler, the swarm and the server, so a peer is a reference into a
  heap of connections.  \<open>handleConn\<close> up to the read loop, for a connection with the fresh reference
  \<open>c\<close>: handshake, the check against the local id, registration with \<open>OnPeer\<close> (an operation on the
  heap and a state \<open>'s\<close>).  On every error the deferred \<open>Close\<close> runs.
\<close>

type_synonym heap = "nat \<Rightarrow> tcp_peer"

datatype 'e conn_err = HandshakeFailed handshake_err | SelfConnection | Rejected 'e

definition handleConn_open ::
  "(nat \<Rightarrow> heap \<Rightarrow> 's \<Rightarrow> ('e fail + unit) \<times> heap \<times> 's) \<Rightarrow> id20 \<Rightarrow> id20 \<Rightarrow> nat \<Rightarrow> bool \<Rightarrow> bool
     \<Rightarrow> io_err \<Rightarrow> bytes \<Rightarrow> heap \<Rightarrow> 's \<Rightarrow> bytes \<times> ('e conn_err fail + bytes) \<times> heap \<times> 's" where
  "handleConn_open OnPeer infoHash localID c outb write_ok e input h s =
     (let peer = NewTCPPeer outb in
      case DefaultHandshakeFunc infoHash localID outb write_ok e input of
        (w, Inl (Err err)) \<Rightarrow> (w, Inl (Err (HandshakeFailed err)), h(c := Close peer), s)
      | (w, Inl (Panic p)) \<Rightarrow> (w, Inl (Panic p), h(c := peer), s)
      | (w, Inr (peerID, r)) \<Rightarrow>
          let peer' = SetID peer peerID in
          if ID peer' = localID then (w, Inl (Err SelfConnection), h(c := Close peer'), s)
          else (case OnPeer c (h(c := peer')) s of
              (Inl (Err err), h', s') \<Rightarrow> (w, Inl (Err (Rejected err)), h'(c := Close (h' c)), s')
            | (Inl (Panic p), h', s') \<Rightarrow> (w, Inl (Panic p), h', s')
            | (Inr _, h', s') \<Rightarrow> (w, Inr r, h', s')))"

text \<open>
  One round of its read loop: a message goes into the channel \<open>rpcch\<close> of capacity 1024; when it is
  full, or at a decoding error, the handler returns and the connection is closed.
\<close>

definition rpcch_cap :: nat where
  "rpcch_cap = 1024"

datatype read_stop = DecodeError wire_err | RpcChannelFull

definition handleConn_read ::
  "io_err \<Rightarrow> From \<Rightarrow> RPC list \<Rightarrow> bytes \<Rightarrow> read_stop + RPC list \<times> bytes" where
  "handleConn_read e from rpcch input =
     (case wire_Decode e input of
        Inl err \<Rightarrow> Inl (DecodeError err)
      | Inr (payload, r) \<Rightarrow>
          if length rpcch < rpcch_cap
          then Inr (rpcch @ [\<lparr>From = from, Payload = payload\<rparr>], r)
          else Inl RpcChannelFull)"

section \<open>A link\<close>

text \<open>
  \<open>wire_out\<close> is everything written to the connection after the handshake; \<open>accepted\<close> is a history of
  the messages for which \<open>Send\<close> returned no error.
\<close>

record link =
  link_peer :: tcp_peer
  wire_out :: bytes
  writer_alive :: bool
  accepted :: "bytes list"

datatype link_event = ESend bytes | EWrite "write_outcome list" | EClose

fun link_exec :: "link_event \<Rightarrow> link \<Rightarrow> link" where
  "link_exec (ESend m) l =
     (case Send (link_peer l) m of
        Inl _ \<Rightarrow> l
      | Inr p \<Rightarrow> l\<lparr>link_peer := p, accepted := accepted l @ [m]\<rparr>)"
| "link_exec (EWrite os) l =
     (if \<not> writer_alive l then l
      else (case outbox (link_peer l) of
          [] \<Rightarrow> l\<lparr>writer_alive := \<not> is_closed (link_peer l)\<rparr>
        | buf # bufs \<Rightarrow>
            (case write_buf buf os of (w, os', ok) \<Rightarrow>
               l\<lparr>link_peer := (link_peer l)\<lparr>outbox := bufs\<rparr>, wire_out := wire_out l @ w, writer_alive := ok\<rparr>)))"
| "link_exec EClose l = l\<lparr>link_peer := Close (link_peer l)\<rparr>"

definition new_link :: "tcp_peer \<Rightarrow> link" where
  "new_link p = \<lparr>link_peer = p\<lparr>outbox := []\<rparr>, wire_out = [], writer_alive = True, accepted = []\<rparr>"

definition run_link :: "link_event list \<Rightarrow> link \<Rightarrow> link" where
  "run_link es l = foldl (\<lambda>l e. link_exec e l) l es"








lemma closed_accepts_nothing:
  "is_closed (link_peer l) \<Longrightarrow>
     accepted (run_link es l) = accepted l \<and> is_closed (link_peer (run_link es l))"
proof (induction es arbitrary: l)
  case Nil
  then show ?case by (simp add: run_link_def)
next
  case (Cons ev es)
  have "accepted (link_exec ev l) = accepted l \<and> is_closed (link_peer (link_exec ev l))"
    using Cons.prems by (cases ev) (auto simp: Send_def split: list.splits prod.splits)
  with Cons.IH [of "link_exec ev l"] show ?case by (simp add: run_link_def)
qed

section \<open>Properties\<close>




text \<open>
  After \<open>Close\<close> no message is accepted any more, and a second \<open>Close\<close> changes nothing.
\<close>

theorem closed_link_rejects:
  assumes "l = run_link (es @ [EClose]) (new_link p)"
  shows "accepted (run_link es' l) = accepted l \<and> is_closed (link_peer (run_link es' l)) \<and>
    link_exec EClose l = l"
proof -
  have l: "l = link_exec EClose (run_link es (new_link p))" by (simp add: assms run_link_def)
  then have "is_closed (link_peer l)" by simp
  with closed_accepts_nothing [of l es'] l show ?thesis by simp
qed

theorem closed_link_rejects_witness:
  "accepted (run_link [ESend [5]] (run_link [ESend [1], EClose] (new_link (NewTCPPeer False)))) = [[1]]"
proof -
  have "accepted (run_link [ESend [1], EClose] (new_link (NewTCPPeer False))) = [[1]]"
    by (simp add: run_link_def new_link_def NewTCPPeer_def Send_def Let_def outbox_cap_def)
  with closed_link_rejects [of "run_link [ESend [1], EClose] (new_link (NewTCPPeer False))" "[ESend [1]]"
      "NewTCPPeer False" "[ESend [5]]"]
  show ?thesis by simp
qed

text \<open>
  \<open>Send\<close> does not check the limit that the receiving side enforces: a message longer than it is
  accepted and queued, and its frame makes the receiver give up the connection.
\<close>

theorem oversized_message:
  assumes "MaxMessageLength < length m" and "length m < 2 ^ 32"
    and "\<not> is_closed p" and "length (outbox p) < outbox_cap"
  shows "\<exists>p'. Send p m = Inr p' \<and> outbox p' = outbox p @ [frame m] \<and>
    handleConn_read e from rpcch (frame m @ rest) = Inl (DecodeError (MessageTooLong (word_of_nat (length m))))"
  using assms by (simp add: Send_Inr handleConn_read_def wire_Decode_frame_gen message_ok_def)

theorem oversized_message_witness:
  "\<exists>p'. Send (NewTCPPeer True) (replicate (Suc MaxMessageLength) 4) = Inr p' \<and>
    handleConn_read EOF \<lparr>PeerID = zero20, Addr = []\<rparr> [] (frame (replicate (Suc MaxMessageLength) 4) @ []) =
      Inl (DecodeError (MessageTooLong (word_of_nat (Suc MaxMessageLength))))"
  using oversized_message [of "replicate (Suc MaxMessageLength) 4" "NewTCPPeer True" EOF
      "\<lparr>PeerID = zero20, Addr = []\<rparr>" "[]" "[]"]
  by (auto simp: MaxMessageLength_def NewTCPPeer_def outbox_cap_def simp del: replicate.simps)

end
