(* ===== verification/Bitfield.thy ===== *)
theory Bitfield
  imports Pix_Prelude
begin

text \<open>
  Piece bitfields: bit \<open>i\<close> of the field is bit \<open>7 - i mod 8\<close> of byte \<open>i div 8\<close>, most significant bit
  first.  \<open>PieceManager.Bitfield\<close>, \<open>PieceManager.MissingPieces\<close>, \<open>Swarm.SetPeerHasPiece\<close> and
  \<open>Swarm.GetRarestMissingPieces\<close> share this arithmetic; here it is two operations and the contract
  \<open>bit_array\<close> that their clients use.
\<close>

definition bf_bit :: "bytes \<Rightarrow> nat \<Rightarrow> bool" where
  "bf_bit bf i \<longleftrightarrow> (bf ! (i div 8)) AND push_bit (7 - i mod 8) 1 \<noteq> 0"

definition bf_get :: "bytes \<Rightarrow> nat \<Rightarrow> bool" where
  "bf_get bf i \<longleftrightarrow> i div 8 < length bf \<and> bf_bit bf i"

definition bf_set :: "bytes \<Rightarrow> nat \<Rightarrow> bytes" where
  "bf_set bf i = bf[i div 8 := (bf ! (i div 8)) OR push_bit (7 - i mod 8) 1]"

locale bit_array =
  fixes get :: "'a \<Rightarrow> nat \<Rightarrow> bool"
    and put :: "'a \<Rightarrow> nat \<Rightarrow> 'a"
    and cap :: "'a \<Rightarrow> nat"
  assumes cap_put: "cap (put a i) = cap a"
    and get_put: "i < cap a \<Longrightarrow> get (put a i) j \<longleftrightarrow> get a j \<or> i = j"
begin

text \<open>A loop that sets some of the bits of a range sets exactly these.\<close>

lemma cap_fold: "cap (fold (\<lambda>i a. if P i then put a i else a) is a) = cap a"
  by (induction "is" arbitrary: a) (simp_all add: cap_put)

lemma get_fold:
  assumes "\<forall>i \<in> set is. i < cap a"
  shows "get (fold (\<lambda>i a. if P i then put a i else a) is a) j \<longleftrightarrow> get a j \<or> j \<in> set is \<and> P j"
  using assms
proof (induction "is" arbitrary: a)
  case Nil
  then show ?case by simp
next
  case (Cons i "is")
  then have "\<forall>k \<in> set is. k < cap (if P i then put a i else a)" by (simp add: cap_put)
  from Cons.IH [OF this] Cons.prems show ?case by (auto simp: get_put)
qed

end

lemma bf_bit_iff: "bf_bit bf i \<longleftrightarrow> bit (bf ! (i div 8)) (7 - i mod 8)"
  by (simp add: bf_bit_def bit_iff_and_push_bit_not_eq_0)

lemma length_bf_set [simp]: "length (bf_set bf i) = length bf"
  by (simp add: bf_set_def not_less)

lemma bit_position_eq: "i div 8 = j div 8 \<Longrightarrow> 7 - i mod 8 = 7 - j mod 8 \<Longrightarrow> i = j" for i j :: nat
proof -
  assume d: "i div 8 = j div 8" and m: "7 - i mod 8 = 7 - j mod 8"
  have "i mod 8 < 8" "j mod 8 < 8" by simp_all
  with m have "i mod 8 = j mod 8" by linarith
  with d show "i = j" by (metis div_mult_mod_eq)
qed

lemma bf_get_set:
  assumes "i < 8 * length bf"
  shows "bf_get (bf_set bf i) j \<longleftrightarrow> bf_get bf j \<or> i = j"
proof (cases "i div 8 = j div 8")
  case True
  have "i div 8 < length bf" using assms by (simp add: less_mult_imp_div_less mult.commute)
  moreover have "7 - i mod 8 = 7 - j mod 8 \<longleftrightarrow> i = j" using True bit_position_eq by blast
  moreover have "7 - j mod 8 < LENGTH(8)" by simp
  ultimately show ?thesis
    using True by (simp add: bf_get_def bf_bit_iff bf_set_def bit_or_iff bit_exp_iff) auto
next
  case False
  then have "(bf_set bf i) ! (j div 8) = bf ! (j div 8)" by (simp add: bf_set_def)
  with False show ?thesis by (auto simp: bf_get_def bf_bit_iff)
qed

interpretation bf: bit_array bf_get bf_set "\<lambda>bf. 8 * length bf"
  by unfold_locales (simp_all add: bf_get_set)

lemma bf_get_replicate_0 [simp]: "\<not> bf_get (replicate n 0) i"
  by (simp add: bf_get_def bf_bit_def)

lemma bf_set_out_of_range: "\<not> i div 8 < length bf \<Longrightarrow> bf_set bf i = bf"
  by (simp add: bf_set_def not_less list_update_beyond)

end
