(* ===== verification/Sha1.thy ===== *)
theory Sha1
  imports Pix_Prelude
begin

text \<open>
  \<open>sha1.Sum\<close> of Go's \<open>crypto/sha1\<close>: the SHA-1 function of FIPS 180-1 on byte lists.  The program
  hashes info dictionaries, files and pieces with it.  Having the function itself, rather than a
  parameter with assumed properties, the length of the digest is a theorem.
\<close>

type_synonym u32 = "32 word"

record sha1_state =
  sha_a :: u32
  sha_b :: u32
  sha_c :: u32
  sha_d :: u32
  sha_e :: u32

definition sha1_init :: sha1_state where
  "sha1_init = \<lparr>sha_a = 0x67452301, sha_b = 0xEFCDAB89, sha_c = 0x98BADCFE, sha_d = 0x10325476,
     sha_e = 0xC3D2E1F0\<rparr>"

definition rotl :: "nat \<Rightarrow> u32 \<Rightarrow> u32" where
  "rotl n w = push_bit n w OR drop_bit (32 - n) w"

definition put_u64 :: "64 word \<Rightarrow> bytes" where
  "put_u64 v = put_u32 (ucast (drop_bit 32 v)) @ put_u32 (ucast v)"

definition sha1_pad :: "bytes \<Rightarrow> bytes" where
  "sha1_pad bs =
     bs @ [0x80] @ replicate ((119 - length bs mod 64) mod 64) 0 @ put_u64 (of_nat (8 * length bs))"

fun sha1_blocks :: "nat \<Rightarrow> bytes \<Rightarrow> bytes list" where
  "sha1_blocks 0 bs = []"
| "sha1_blocks (Suc n) bs = take 64 bs # sha1_blocks n (drop 64 bs)"

fun sha1_words :: "nat \<Rightarrow> bytes \<Rightarrow> u32 list" where
  "sha1_words 0 bs = []"
| "sha1_words (Suc n) bs = get_u32 bs # sha1_words n (drop 4 bs)"

text \<open>The message schedule, newest word first.\<close>

fun sha1_schedule :: "nat \<Rightarrow> u32 list \<Rightarrow> u32 list" where
  "sha1_schedule 0 ws = ws"
| "sha1_schedule (Suc n) ws =
     sha1_schedule n (rotl 1 (ws ! 2 XOR ws ! 7 XOR ws ! 13 XOR ws ! 15) # ws)"

definition sha1_f :: "nat \<Rightarrow> u32 \<Rightarrow> u32 \<Rightarrow> u32 \<Rightarrow> u32" where
  "sha1_f t b c d =
     (if t < 20 then (b AND c) OR (NOT b AND d)
      else if t < 40 then b XOR c XOR d
      else if t < 60 then (b AND c) OR (b AND d) OR (c AND d)
      else b XOR c XOR d)"

definition sha1_k :: "nat \<Rightarrow> u32" where
  "sha1_k t =
     (if t < 20 then 0x5A827999 else if t < 40 then 0x6ED9EBA1
      else if t < 60 then 0x8F1BBCDC else 0xCA62C1D6)"

fun sha1_rounds :: "nat \<Rightarrow> u32 list \<Rightarrow> sha1_state \<Rightarrow> sha1_state" where
  "sha1_rounds t [] s = s"
| "sha1_rounds t (w # ws) s =
     sha1_rounds (Suc t) ws
       \<lparr>sha_a = rotl 5 (sha_a s) + sha1_f t (sha_b s) (sha_c s) (sha_d s) + sha_e s + w + sha1_k t,
        sha_b = sha_a s, sha_c = rotl 30 (sha_b s), sha_d = sha_c s, sha_e = sha_d s\<rparr>"

definition sha1_block :: "sha1_state \<Rightarrow> bytes \<Rightarrow> sha1_state" where
  "sha1_block s blk =
     (let r = sha1_rounds 0 (rev (sha1_schedule 64 (rev (sha1_words 16 blk)))) s in
      \<lparr>sha_a = sha_a s + sha_a r, sha_b = sha_b s + sha_b r, sha_c = sha_c s + sha_c r,
       sha_d = sha_d s + sha_d r, sha_e = sha_e s + sha_e r\<rparr>)"

definition sha1_Sum :: "bytes \<Rightarrow> id20" where
  "sha1_Sum bs =
     (let p = sha1_pad bs;
          s = foldl sha1_block sha1_init (sha1_blocks (length p div 64) p)
      in put_u32 (sha_a s) @ put_u32 (sha_b s) @ put_u32 (sha_c s) @ put_u32 (sha_d s) @ put_u32 (sha_e s))"

lemma length_sha1_Sum [simp]: "length (sha1_Sum bs) = 20"
  by (simp add: sha1_Sum_def Let_def)

lemma is20_sha1_Sum [simp]: "is20 (sha1_Sum bs)"
  by (simp add: is20_def)

text \<open>The padded message fills whole blocks: no byte of the message is left out of the hash.\<close>

lemma sha1_pad_blocks: "64 dvd length (sha1_pad bs)"
proof -
  define n where "n = length bs"
  define r where "r = n mod 64"
  have r: "r < 64" by (simp add: r_def)
  have n: "n = 64 * (n div 64) + r" by (simp add: r_def)
  have len: "length (sha1_pad bs) = n + 9 + (119 - r) mod 64"
    by (simp add: sha1_pad_def put_u64_def n_def r_def)
  have "(119 - r) mod 64 = (if r \<le> 55 then 55 - r else 119 - r)"
  proof (cases "r \<le> 55")
    case True
    then have "119 - r = 64 + (55 - r)" by simp
    then have "(119 - r) mod 64 = (55 - r) mod 64" by (simp only: mod_add_self1)
    with True show ?thesis by simp
  next
    case False
    with r have "119 - r < 64" by simp
    with False show ?thesis by simp
  qed
  then have "length (sha1_pad bs) = 64 * (n div 64) + (if r \<le> 55 then 64 else 128)"
    using len n r by (simp split: if_splits)
  then show ?thesis by simp
qed

end
