(* ===== verification/Piece_Manager.thy ===== *)
theory Piece_Manager
  imports Bitfield Sha1
begin

text \<open>
  The piece manager, \<open>src/p2p/piece_manager.go\<close>: the number of pieces, the pieces held, and the
  expected SHA-1 hashes (20 bytes per piece, or none).  The number of pieces comes from a command
  line flag and is any Go \<open>int\<close>; \<open>Bitfield\<close> panics when it is so negative that the size of the field
  is.  The mutex makes each method atomic, so each is one function of the state.
\<close>

record piece_manager =
  numPieces :: int
  pieces :: "(int, bytes) fmap"
  pieceHashes :: "bytes option"

definition NewPieceManager :: "int \<Rightarrow> piece_manager" where
  "NewPieceManager n = \<lparr>numPieces = n, pieces = fmempty, pieceHashes = None\<rparr>"

definition NewPieceManagerWithHashes :: "int \<Rightarrow> bytes \<Rightarrow> piece_manager" where
  "NewPieceManagerWithHashes n hashes = \<lparr>numPieces = n, pieces = fmempty, pieceHashes = Some hashes\<rparr>"

definition SetPieceHashes :: "piece_manager \<Rightarrow> bytes option \<Rightarrow> piece_manager" where
  "SetPieceHashes pm hashes = pm\<lparr>pieceHashes := hashes\<rparr>"

text \<open>
  \<open>VerifyPiece\<close> multiplies the index by 20; the callers pass an index below \<open>2 ^ 32\<close> or a loop counter,
  so the product stays in range.
\<close>

definition VerifyPiece :: "piece_manager \<Rightarrow> int \<Rightarrow> bytes \<Rightarrow> bool" where
  "VerifyPiece pm idx data =
     (case pieceHashes pm of
        None \<Rightarrow> True
      | Some hashes \<Rightarrow>
          if idx < 0 \<or> idx \<ge> numPieces pm then False
          else
            let hashStart = idx * 20; hashEnd = hashStart + 20 in
            if hashEnd > int (length hashes) then False
            else take 20 (drop (nat hashStart) hashes) = sha1_Sum data)"

definition GetPiece :: "piece_manager \<Rightarrow> int \<Rightarrow> bytes option" where
  "GetPiece pm idx = fmlookup (pieces pm) idx"

datatype piece_err = PieceIndexOutOfRange | PieceAlreadyExists int

definition AddPiece :: "piece_manager \<Rightarrow> int \<Rightarrow> bytes \<Rightarrow> piece_err + piece_manager" where
  "AddPiece pm idx data =
     (if idx < 0 \<or> idx \<ge> numPieces pm then Inl PieceIndexOutOfRange
      else if fmlookup (pieces pm) idx \<noteq> None then Inl (PieceAlreadyExists idx)
      else Inr (pm\<lparr>pieces := fmupd idx data (pieces pm)\<rparr>))"

definition has_piece :: "piece_manager \<Rightarrow> nat \<Rightarrow> bool" where
  "has_piece pm i \<longleftrightarrow> fmlookup (pieces pm) (int i) \<noteq> None"

definition bitfield_size :: "int \<Rightarrow> int" where
  "bitfield_size n = wrap64 (n + 7) sdiv 8"

definition BitfieldOf :: "piece_manager \<Rightarrow> go_panic + bytes" where
  "BitfieldOf pm =
     bindE (make_bytes (bitfield_size (numPieces pm))) (\<lambda>bitfield.
       Inr (fold (\<lambda>i bf. if has_piece pm i then bf_set bf i else bf) [0..<nat (numPieces pm)] bitfield))"

text \<open>The loop of \<open>MissingPieces\<close> stops at the first index behind the end of the peer's bitfield.\<close>

fun missing_loop :: "piece_manager \<Rightarrow> bytes \<Rightarrow> nat list \<Rightarrow> int list" where
  "missing_loop pm bitfield [] = []"
| "missing_loop pm bitfield (i # is) =
     (if i div 8 \<ge> length bitfield then []
      else if bf_bit bitfield i \<and> \<not> has_piece pm i then int i # missing_loop pm bitfield is
      else missing_loop pm bitfield is)"

definition MissingPieces :: "piece_manager \<Rightarrow> bytes \<Rightarrow> int list" where
  "MissingPieces pm bitfield = missing_loop pm bitfield [0..<nat (numPieces pm)]"

definition ReceivedCount :: "piece_manager \<Rightarrow> int" where
  "ReceivedCount pm = int (fcard (fmdom (pieces pm)))"

definition NumPieces :: "piece_manager \<Rightarrow> int" where
  "NumPieces pm = numPieces pm"

definition AllPiecesReceived :: "piece_manager \<Rightarrow> bool" where
  "AllPiecesReceived pm \<longleftrightarrow> ReceivedCount pm = numPieces pm"

section \<open>The contract of a verified piece store\<close>

text \<open>
  What the swarm and the torrent server rely on: a piece is added at most once and never replaced,
  adding does not change what is verified, and so a store filled only through verified additions
  holds verified pieces only.  \<open>offer\<close> is the client's pattern: verify, then add, and ignore the
  error of a rejected addition.
\<close>

definition offer :: "('s \<Rightarrow> int \<Rightarrow> bytes \<Rightarrow> bool) \<Rightarrow> ('s \<Rightarrow> int \<Rightarrow> bytes \<Rightarrow> 'e + 's) \<Rightarrow> 's \<Rightarrow> int \<Rightarrow> bytes \<Rightarrow> 's" where
  "offer verify add s i d =
     (if verify s i d then (case add s i d of Inl _ \<Rightarrow> s | Inr s' \<Rightarrow> s') else s)"

locale verified_store =
  fixes get :: "'s \<Rightarrow> int \<Rightarrow> bytes option"
    and add :: "'s \<Rightarrow> int \<Rightarrow> bytes \<Rightarrow> 'e + 's"
    and verify :: "'s \<Rightarrow> int \<Rightarrow> bytes \<Rightarrow> bool"
  assumes add_get: "add s i d = Inr s' \<Longrightarrow> get s' j = (if j = i then Some d else get s j)"
    and add_fresh: "add s i d = Inr s' \<Longrightarrow> get s i = None"
    and add_verify: "add s i d = Inr s' \<Longrightarrow> verify s' = verify s"
begin

lemma add_mono: "add s i d = Inr s' \<Longrightarrow> get s j = Some x \<Longrightarrow> get s' j = Some x"
  using add_fresh by (fastforce simp: add_get)

lemma offer_mono: "get s j = Some x \<Longrightarrow> get (offer verify add s i d) j = Some x"
  by (auto simp: offer_def add_mono split: sum.splits)

lemma offer_verify: "verify (offer verify add s i d) = verify s"
  by (auto simp: offer_def add_verify split: sum.splits)

lemma offer_integrity:
  assumes "\<And>j x. get s j = Some x \<Longrightarrow> verify s j x" and "get (offer verify add s i d) j = Some x"
  shows "verify (offer verify add s i d) j x"
  using assms
  by (auto simp: offer_def add_get add_verify split: sum.splits if_splits)

lemma offers_integrity:
  assumes "\<And>j x. get s j = Some x \<Longrightarrow> verify s j x"
    and "get (foldl (\<lambda>s (i, d). offer verify add s i d) s ps) j = Some x"
  shows "verify s j x"
  using assms
proof (induction ps arbitrary: s)
  case Nil
  then show ?case by simp
next
  case (Cons p ps)
  obtain i d where p: "p = (i, d)" by fastforce
  have "verify (offer verify add s i d) j x"
    by (rule Cons.IH) (use offer_integrity Cons.prems p in auto)
  then show ?case by (simp add: offer_verify)
qed

lemma offers_source:
  "get (foldl (\<lambda>s (i, d). offer verify add s i d) s ps) j = Some x \<Longrightarrow>
     get s j = Some x \<or> (j, x) \<in> set ps"
proof (induction ps arbitrary: s)
  case Nil
  then show ?case by simp
next
  case (Cons p ps)
  obtain i d where p: "p = (i, d)" by fastforce
  from Cons p have "get (offer verify add s i d) j = Some x \<or> (j, x) \<in> set ps" by simp
  with p show ?case by (auto simp: offer_def add_get split: if_splits sum.splits)
qed

end

lemma VerifyPiece_frame:
  "numPieces pm' = numPieces pm \<Longrightarrow> pieceHashes pm' = pieceHashes pm \<Longrightarrow> VerifyPiece pm' = VerifyPiece pm"
  by (intro ext) (simp add: VerifyPiece_def Let_def split: option.split)

lemma AddPiece_Inr_iff:
  "AddPiece pm i d = Inr pm' \<longleftrightarrow>
     0 \<le> i \<and> i < numPieces pm \<and> fmlookup (pieces pm) i = None \<and>
     pm' = pm\<lparr>pieces := fmupd i d (pieces pm)\<rparr>"
  by (auto simp: AddPiece_def)

interpretation pm_store: verified_store GetPiece AddPiece VerifyPiece
proof unfold_locales
  fix s s' :: piece_manager and i j d
  assume "AddPiece s i d = Inr s'"
  then have s': "s' = s\<lparr>pieces := fmupd i d (pieces s)\<rparr>" and "fmlookup (pieces s) i = None"
    by (simp_all add: AddPiece_Inr_iff)
  then show "GetPiece s' j = (if j = i then Some d else GetPiece s j)" and "GetPiece s i = None"
    by (auto simp: GetPiece_def)
  show "VerifyPiece s' = VerifyPiece s" by (rule VerifyPiece_frame) (simp_all add: s')
qed

section \<open>Bitfields\<close>

text \<open>The piece counts whose bitfield fits an allocation.\<close>

definition count_ok :: "int \<Rightarrow> bool" where
  "count_ok n \<longleftrightarrow> 0 \<le> n \<and> n \<le> 8 * max_alloc"

lemma bitfield_size_nonneg: "count_ok n \<Longrightarrow> bitfield_size n = (n + 7) div 8"
  by (simp add: bitfield_size_def count_ok_def max_alloc_def int64_ok_def signed_divide_int_def)

lemma bitfield_size_ok:
  assumes "count_ok n"
  shows "0 \<le> bitfield_size n \<and> bitfield_size n \<le> max_alloc"
proof -
  have "0 \<le> n" and "n \<le> 8 * max_alloc" using assms by (simp_all add: count_ok_def)
  then have "0 \<le> (n + 7) div 8" and "(n + 7) div 8 \<le> max_alloc" by arith+
  then show ?thesis by (simp add: bitfield_size_nonneg assms)
qed

lemma BitfieldOf_ok:
  assumes "count_ok (numPieces pm)"
  obtains bf where "BitfieldOf pm = Inr bf" and "length bf = (nat (numPieces pm) + 7) div 8"
    and "\<And>i. bf_get bf i \<longleftrightarrow> i < nat (numPieces pm) \<and> has_piece pm i"
proof -
  let ?n = "nat (numPieces pm)"
  let ?z = "replicate ((?n + 7) div 8) (0 :: byte)"
  let ?bf = "fold (\<lambda>i bf. if has_piece pm i then bf_set bf i else bf) [0..<?n] ?z"
  have "nat (bitfield_size (numPieces pm)) = (?n + 7) div 8"
    using assms by (simp add: bitfield_size_nonneg count_ok_def nat_div_distrib nat_add_distrib)
  then have "BitfieldOf pm = Inr ?bf"
    using bitfield_size_ok [OF assms] by (simp add: BitfieldOf_def make_bytes_def)
  moreover have "length ?bf = (?n + 7) div 8"
    using bf.cap_fold [of "has_piece pm" "[0..<?n]" ?z] by simp
  moreover have "bf_get ?bf i \<longleftrightarrow> i < ?n \<and> has_piece pm i" for i
  proof -
    have "\<forall>k \<in> set [0..<?n]. k < 8 * length ?z" by auto
    from bf.get_fold [OF this, of "has_piece pm" i] show ?thesis by simp
  qed
  ultimately show thesis by (rule that)
qed

lemma missing_loop_filter:
  assumes "sorted is"
  shows "missing_loop pm bf is = map int (filter (\<lambda>i. bf_get bf i \<and> \<not> has_piece pm i) is)"
  using assms
proof (induction "is")
  case Nil
  show ?case by simp
next
  case (Cons i "is")
  show ?case
  proof (cases "i div 8 \<ge> length bf")
    case True
    have "\<not> bf_get bf j" if "j \<in> set (i # is)" for j
    proof -
      have "i \<le> j" using Cons.prems that by auto
      then have "i div 8 \<le> j div 8" by (rule div_le_mono)
      with True show ?thesis by (simp add: bf_get_def)
    qed
    with True show ?thesis by (simp add: filter_empty_conv)
  next
    case False
    with Cons show ?thesis by (simp add: bf_get_def)
  qed
qed

lemma MissingPieces_filter:
  "MissingPieces pm bf = map int (filter (\<lambda>i. bf_get bf i \<and> \<not> has_piece pm i) [0..<nat (numPieces pm)])"
  by (simp add: MissingPieces_def missing_loop_filter)

section \<open>The invariant\<close>

text \<open>Every piece held has an index in range; with hashes, every piece held is verified.\<close>

definition pm_inv :: "piece_manager \<Rightarrow> bool" where
  "pm_inv pm \<longleftrightarrow> (\<forall>i \<in> fset (fmdom (pieces pm)). 0 \<le> i \<and> i < numPieces pm)"

definition pm_verified :: "piece_manager \<Rightarrow> bool" where
  "pm_verified pm \<longleftrightarrow> (\<forall>i d. GetPiece pm i = Some d \<longrightarrow> VerifyPiece pm i d)"

lemma pm_inv_new [simp]:
  "pm_inv (NewPieceManager n)" "pm_inv (NewPieceManagerWithHashes n hs)"
  "pm_verified (NewPieceManager n)" "pm_verified (NewPieceManagerWithHashes n hs)"
  by (simp_all add: pm_inv_def pm_verified_def GetPiece_def NewPieceManager_def NewPieceManagerWithHashes_def)

lemma AddPiece_inv: "pm_inv pm \<Longrightarrow> AddPiece pm i d = Inr pm' \<Longrightarrow> pm_inv pm'"
  by (auto simp: pm_inv_def AddPiece_Inr_iff)

lemma pm_inv_range: "pm_inv pm \<Longrightarrow> GetPiece pm i = Some d \<Longrightarrow> 0 \<le> i \<and> i < numPieces pm"
  by (auto simp: pm_inv_def GetPiece_def fmlookup_dom_iff)

lemma ReceivedCount_le:
  assumes "pm_inv pm" and "0 \<le> numPieces pm"
  shows "ReceivedCount pm \<le> numPieces pm"
    and "ReceivedCount pm = numPieces pm \<longleftrightarrow> (\<forall>i. 0 \<le> i \<and> i < numPieces pm \<longrightarrow> GetPiece pm i \<noteq> None)"
proof -
  let ?D = "fset (fmdom (pieces pm))"
  have sub: "?D \<subseteq> {0..<numPieces pm}" using assms(1) by (auto simp: pm_inv_def)
  have card: "ReceivedCount pm = int (card ?D)" by (simp add: ReceivedCount_def fcard.rep_eq)
  have le: "card ?D \<le> card {0..<numPieces pm}" using sub by (intro card_mono) simp_all
  with card assms(2) show "ReceivedCount pm \<le> numPieces pm" by simp
  have "ReceivedCount pm = numPieces pm \<longleftrightarrow> card ?D = card {0..<numPieces pm}"
    using card assms(2) by auto
  also have "\<dots> \<longleftrightarrow> ?D = {0..<numPieces pm}"
    using card_subset_eq [OF _ sub] by auto
  also have "\<dots> \<longleftrightarrow> (\<forall>i. 0 \<le> i \<and> i < numPieces pm \<longrightarrow> GetPiece pm i \<noteq> None)"
    using sub by (auto simp: GetPiece_def fmlookup_dom_iff)
  finally show "ReceivedCount pm = numPieces pm \<longleftrightarrow>
    (\<forall>i. 0 \<le> i \<and> i < numPieces pm \<longrightarrow> GetPiece pm i \<noteq> None)" .
qed

section \<open>Properties\<close>

text \<open>
  C27.  Bitfields carry what they should between two peers of the same torrent: the bitfield of a
  piece manager is produced without a panic, and the pieces another manager finds missing in it
  are, in increasing order, exactly those the first holds and the second does not.
\<close>

theorem MissingPieces_BitfieldOf:
  assumes "count_ok (numPieces peer)" and "numPieces pm = numPieces peer"
  shows "\<exists>bf. BitfieldOf peer = Inr bf \<and>
    MissingPieces pm bf =
      map int (filter (\<lambda>i. has_piece peer i \<and> \<not> has_piece pm i) [0..<nat (numPieces pm)])"
proof -
  obtain bf where bf: "BitfieldOf peer = Inr bf"
    "\<And>i. bf_get bf i \<longleftrightarrow> i < nat (numPieces peer) \<and> has_piece peer i"
    using assms(1) by (rule BitfieldOf_ok) blast
  have "filter (\<lambda>i. bf_get bf i \<and> \<not> has_piece pm i) [0..<nat (numPieces pm)] =
    filter (\<lambda>i. has_piece peer i \<and> \<not> has_piece pm i) [0..<nat (numPieces pm)]"
    by (rule filter_cong) (simp_all add: bf(2) assms(2))
  with bf(1) show ?thesis by (simp add: MissingPieces_filter)
qed

definition example_pm :: piece_manager where
  "example_pm = \<lparr>numPieces = 10, pieces = fmupd 9 [1, 2] (fmupd 0 [3] fmempty), pieceHashes = None\<rparr>"

theorem MissingPieces_BitfieldOf_witness:
  "\<exists>bf. BitfieldOf example_pm = Inr bf \<and> MissingPieces (NewPieceManager 10) bf = [0, 9]"
proof -
  have eq: "map int (filter (\<lambda>i. has_piece example_pm i \<and> \<not> has_piece (NewPieceManager 10) i)
      [0..<nat (numPieces (NewPieceManager 10))]) = [0, 9]"
    by (simp add: has_piece_def example_pm_def NewPieceManager_def upt_rec)
  have "count_ok (numPieces example_pm)" and "numPieces (NewPieceManager 10) = numPieces example_pm"
    by (simp_all add: example_pm_def NewPieceManager_def count_ok_def max_alloc_def)
  from MissingPieces_BitfieldOf [OF this] show ?thesis unfolding eq .
qed

text \<open>
  Exactly which piece counts make the construction of a bitfield panic: those below \<open>- 14\<close>, for
  which the size in bytes is negative, and those whose field exceeds an allocation.
\<close>

theorem BitfieldOf_panic_iff:
  assumes ok: "int64_ok (numPieces pm)"
  shows "BitfieldOf pm = Inl MakesliceLen \<longleftrightarrow> numPieces pm \<le> - 15 \<or> 8 * max_alloc < numPieces pm"
proof -
  let ?n = "numPieces pm"
  have iff: "BitfieldOf pm = Inl MakesliceLen \<longleftrightarrow> bitfield_size ?n < 0 \<or> bitfield_size ?n > max_alloc"
    by (simp add: BitfieldOf_def make_bytes_def)
  consider "?n \<le> - 15" | "- 15 < ?n" "?n < 0" | "count_ok ?n" | "8 * max_alloc < ?n" "?n < 2 ^ 63 - 7"
    | "2 ^ 63 - 7 \<le> ?n"
    unfolding count_ok_def by linarith
  then show "BitfieldOf pm = Inl MakesliceLen \<longleftrightarrow> ?n \<le> - 15 \<or> 8 * max_alloc < ?n"
  proof cases
    case 1
    with ok have "bitfield_size ?n = - ((- (?n + 7)) div 8)"
      by (simp add: bitfield_size_def int64_ok_def signed_divide_int_def)
    also have "\<dots> < 0" using 1 by (simp add: pos_imp_zdiv_pos_iff)
    finally show ?thesis using 1 iff by simp
  next
    case 2
    then have "?n \<in> {- 14 .. - 1}" by simp
    then have "bitfield_size ?n = 0"
      by (auto simp: atLeastAtMost_iff bitfield_size_def int64_ok_def signed_divide_int_def zdiv_eq_0_iff sgn_if)
    with 2 iff show ?thesis by (simp add: max_alloc_def)
  next
    case 3
    then show ?thesis using iff bitfield_size_ok [OF 3] by (auto simp: count_ok_def)
  next
    case 4
    then have "bitfield_size ?n = (?n + 7) div 8"
      by (simp add: bitfield_size_def max_alloc_def int64_ok_def signed_divide_int_def)
    moreover have "max_alloc < (?n + 7) div 8" using 4(1) by arith
    ultimately show ?thesis using 4(1) iff by (simp add: max_alloc_def)
  next
    case 5
    define r where "r = ?n + 7 + 2 ^ 63 - 2 ^ 64"
    have r: "0 \<le> r" "r < 2 ^ 63" using 5 ok by (simp_all add: r_def int64_ok_def)
    have "(?n + 7 + 2 ^ 63) mod 2 ^ 64 = (r + 2 ^ 64) mod 2 ^ 64" by (simp add: r_def)
    also have "\<dots> = r mod 2 ^ 64" by (rule mod_add_self2)
    also have "\<dots> = r" using r by (intro mod_pos_pos_trivial) simp_all
    finally have w: "wrap64 (?n + 7) = r - 2 ^ 63" by (simp add: wrap64_def)
    have "r \<le> 7" using ok by (simp add: r_def int64_ok_def)
    then have "r - 2 ^ 63 \<le> - 8" by simp
    then have "(r - 2 ^ 63) sdiv 8 < 0"
      by (simp add: signed_divide_int_def sgn_if pos_imp_zdiv_pos_iff)
    then have "bitfield_size ?n < 0" by (simp add: bitfield_size_def w)
    with 5 iff show ?thesis by (simp add: max_alloc_def)
  qed
qed

theorem BitfieldOf_panic_iff_witness:
  "BitfieldOf (NewPieceManager (- 20)) = Inl MakesliceLen \<and> int64_ok (- 20)"
proof -
  have "int64_ok (numPieces (NewPieceManager (- 20)))"
    by (simp add: NewPieceManager_def int64_ok_def)
  from BitfieldOf_panic_iff [OF this] show ?thesis
    by (simp add: NewPieceManager_def int64_ok_def)
qed

end
