(* ===== verification/Go_Sort.thy ===== *)
theory Go_Sort
  imports Pix_Prelude
begin

text \<open>
  \<open>sort.Slice\<close>.  The library's comparator is a closure that may read random numbers, so here it takes
  and returns a state \<open>'c\<close> (a stream of coins, or nothing).  The model is the library's insertion
  sort, which is the algorithm it runs on slices of at most twelve elements.  On longer slices the
  library runs pattern-defeating quicksort, which is not modelled: there the order of elements with equal
  keys may differ from the model's.  What the theorems about clients use is the locale \<open>slice_order\<close>: the
  comparator agrees with a key wherever two keys differ, and then the model's result is a permutation of
  the input sorted by that key, whatever the comparator answers on ties.
\<close>

fun slice_insert :: "('a \<Rightarrow> 'a \<Rightarrow> 'c \<Rightarrow> bool \<times> 'c) \<Rightarrow> 'a \<Rightarrow> 'a list \<Rightarrow> 'c \<Rightarrow> 'a list \<times> 'c" where
  "slice_insert lessf x [] c = ([x], c)"
| "slice_insert lessf x (y # ys) c =
     (case lessf x y c of
        (True, c') \<Rightarrow> (case slice_insert lessf x ys c' of (zs, c'') \<Rightarrow> (y # zs, c''))
      | (False, c') \<Rightarrow> (x # y # ys, c'))"

text \<open>The sorted prefix is kept with its last element first, as the inner loop walks it.\<close>

fun slice_loop :: "('a \<Rightarrow> 'a \<Rightarrow> 'c \<Rightarrow> bool \<times> 'c) \<Rightarrow> 'a list \<Rightarrow> 'a list \<Rightarrow> 'c \<Rightarrow> 'a list \<times> 'c" where
  "slice_loop lessf pre [] c = (pre, c)"
| "slice_loop lessf pre (x # xs) c =
     (case slice_insert lessf x pre c of (pre', c') \<Rightarrow> slice_loop lessf pre' xs c')"

definition sort_Slice :: "('a \<Rightarrow> 'a \<Rightarrow> 'c \<Rightarrow> bool \<times> 'c) \<Rightarrow> 'a list \<Rightarrow> 'c \<Rightarrow> 'a list \<times> 'c" where
  "sort_Slice lessf xs c = (case slice_loop lessf [] xs c of (pre, c') \<Rightarrow> (rev pre, c'))"

lemma mset_slice_insert: "mset (fst (slice_insert lessf x ys c)) = add_mset x (mset ys)"
  by (induction lessf x ys c rule: slice_insert.induct) (auto split: prod.splits bool.splits)

lemma mset_slice_loop: "mset (fst (slice_loop lessf pre xs c)) = mset pre + mset xs"
proof (induction xs arbitrary: pre c)
  case Nil
  show ?case by simp
next
  case (Cons x xs)
  obtain pre' c' where ins: "slice_insert lessf x pre c = (pre', c')" by fastforce
  then have "mset pre' = add_mset x (mset pre)" using mset_slice_insert [of lessf x pre c] by simp
  with ins Cons.IH [of pre' c'] show ?case by simp
qed

lemma mset_sort_Slice [go_std]: "mset (fst (sort_Slice lessf xs c)) = mset xs"
  using mset_slice_loop [of lessf "[]" xs c] by (auto simp: sort_Slice_def split: prod.splits)

lemma length_sort_Slice: "length (fst (sort_Slice lessf xs c)) = length xs"
  by (metis mset_sort_Slice size_mset)

lemma set_sort_Slice: "set (fst (sort_Slice lessf xs c)) = set xs"
  by (metis mset_sort_Slice set_mset_mset)

lemma distinct_sort_Slice: "distinct (fst (sort_Slice lessf xs c)) = distinct xs"
  by (rule mset_eq_imp_distinct_iff) (rule mset_sort_Slice)

locale slice_order =
  fixes lessf :: "'a \<Rightarrow> 'a \<Rightarrow> 'c \<Rightarrow> bool \<times> 'c"
    and key :: "'a \<Rightarrow> 'k::linorder"
  assumes less_true: "lessf x y c = (True, c') \<Longrightarrow> key x \<le> key y"
    and less_false: "lessf x y c = (False, c') \<Longrightarrow> key y \<le> key x"
begin

lemma insert_desc:
  assumes "sorted_wrt (\<lambda>a b. key b \<le> key a) ys"
  shows "sorted_wrt (\<lambda>a b. key b \<le> key a) (fst (slice_insert lessf x ys c))"
  using assms
proof (induction ys arbitrary: c)
  case Nil
  show ?case by simp
next
  case (Cons y ys)
  obtain b c' where l: "lessf x y c = (b, c')" by fastforce
  show ?case
  proof (cases b)
    case True
    obtain zs c'' where ins: "slice_insert lessf x ys c' = (zs, c'')" by fastforce
    have "set zs = insert x (set ys)"
      using mset_slice_insert [of lessf x ys c'] ins by (metis fst_conv set_mset_add_mset_insert set_mset_mset)
    moreover have "sorted_wrt (\<lambda>a b. key b \<le> key a) zs"
      using Cons.IH [of c'] Cons.prems ins by simp
    ultimately show ?thesis using Cons.prems True l ins less_true by auto
  next
    case False
    with l have "key y \<le> key x" using less_false by simp
    with Cons.prems False l show ?thesis by (auto intro: order_trans)
  qed
qed

lemma loop_desc:
  assumes "sorted_wrt (\<lambda>a b. key b \<le> key a) pre"
  shows "sorted_wrt (\<lambda>a b. key b \<le> key a) (fst (slice_loop lessf pre xs c))"
  using assms
proof (induction xs arbitrary: pre c)
  case Nil
  then show ?case by simp
next
  case (Cons x xs)
  obtain pre' c' where ins: "slice_insert lessf x pre c = (pre', c')" by fastforce
  with Cons.prems insert_desc have "sorted_wrt (\<lambda>a b. key b \<le> key a) pre'" by (metis fst_conv)
  from Cons.IH [OF this] ins show ?case by simp
qed

lemma sort_sorted: "sorted_wrt (\<lambda>a b. key a \<le> key b) (fst (sort_Slice lessf xs c))"
  using loop_desc [of "[]" xs c] by (auto simp: sort_Slice_def sorted_wrt_rev split: prod.splits)

lemma sort_take_min:
  assumes "x \<in> set (take n (fst (sort_Slice lessf xs c)))"
    and "y \<in> set (drop n (fst (sort_Slice lessf xs c)))"
  shows "key x \<le> key y"
  using sorted_wrt_take_drop [OF sort_sorted assms] .

end

end
