(* ===== verification/Swarm.thy ===== *)
theory Swarm
  imports Peer_State Transport Piece_Manager Go_Sort
begin

text \<open>
  The swarm, \<open>src/p2p/swarm.go\<close>: the peers of a torrent by id, their state and their bitfields, the
  choking algorithm and the choice of the rarest pieces.  The swarm's mutex makes every method atomic,
  so each is one function of the state; a peer is a reference into the heap of connections.

  What Go leaves open is an argument: the order in which a map is iterated (\<open>ord\<close>, a list that
  enumerates the keys), the clock, and the random numbers drawn.
\<close>

definition MaxUnchokedPeers :: nat where
  "MaxUnchokedPeers = 4"

definition OptimisticUnchokeInterval :: int where
  "OptimisticUnchokeInterval = 3"

record swarm =
  peers :: "(id20, nat) fmap"
  peerStates :: "(id20, peer_state) fmap"
  peerBitfields :: "(id20, bytes) fmap"
  swarm_infoHash :: id20
  swarm_pieces :: piece_manager
  localPeerID :: id20
  optimisticPeer :: id20
  unchokeRound :: int

definition NewSwarm :: "id20 \<Rightarrow> id20 \<Rightarrow> piece_manager \<Rightarrow> swarm" where
  "NewSwarm localPeerId hash pieceMgr =
     \<lparr>peers = fmempty, peerStates = fmempty, peerBitfields = fmempty, swarm_infoHash = hash,
      swarm_pieces = pieceMgr, localPeerID = localPeerId, optimisticPeer = zero20, unchokeRound = 0\<rparr>"

datatype swarm_err = PeerAlreadyExists id20 | SendBitfieldFailed id20 send_err

section \<open>Joining and leaving\<close>

definition AddPeer :: "int \<Rightarrow> nat \<Rightarrow> heap \<Rightarrow> swarm \<Rightarrow> swarm_err + swarm" where
  "AddPeer now c h s =
     (if fmlookup (peers s) (ID (h c)) \<noteq> None then Inl (PeerAlreadyExists (ID (h c)))
      else Inr (s\<lparr>peers := fmupd (ID (h c)) c (peers s),
                  peerStates := fmupd (ID (h c)) (NewPeerState now) (peerStates s)\<rparr>))"

definition RemovePeer :: "id20 \<Rightarrow> heap \<Rightarrow> swarm \<Rightarrow> heap \<times> swarm" where
  "RemovePeer i h s =
     (case fmlookup (peers s) i of
        None \<Rightarrow> (h, s)
      | Some c \<Rightarrow>
          (h(c := Close (h c)),
           s\<lparr>peers := fmdrop i (peers s), peerStates := fmdrop i (peerStates s),
             peerBitfields := fmdrop i (peerBitfields s)\<rparr>))"

definition GetPeer :: "swarm \<Rightarrow> id20 \<Rightarrow> nat option" where
  "GetPeer s i = fmlookup (peers s) i"

definition OnPeer :: "int \<Rightarrow> nat \<Rightarrow> heap \<Rightarrow> swarm \<Rightarrow> (swarm_err fail + unit) \<times> heap \<times> swarm" where
  "OnPeer now c h s =
     (let i = ID (h c) in
      if fmlookup (peers s) i \<noteq> None then (Inl (Err (PeerAlreadyExists i)), h(c := Close (h c)), s)
      else
        let s1 = s\<lparr>peers := fmupd i c (peers s), peerStates := fmupd i (NewPeerState now) (peerStates s)\<rparr> in
        case BitfieldOf (swarm_pieces s1) of
          Inl p \<Rightarrow> (Inl (Panic p), h, s1)
        | Inr bitfield \<Rightarrow>
            (case Send (h c) (MsgBitfield # bitfield) of
               Inl e \<Rightarrow>
                 (Inl (Err (SendBitfieldFailed i e)), h(c := Close (h c)),
                  s1\<lparr>peers := fmdrop i (peers s1), peerStates := fmdrop i (peerStates s1)\<rparr>)
             | Inr p' \<Rightarrow> (Inr (), h(c := p'), s1)))"

definition Peers :: "id20 list \<Rightarrow> swarm \<Rightarrow> nat list" where
  "Peers ord s = List.map_filter (fmlookup (peers s)) ord"

definition swarm_Close :: "id20 list \<Rightarrow> heap \<Rightarrow> swarm \<Rightarrow> heap \<times> swarm" where
  "swarm_Close ord h s =
     foldl (\<lambda>(h, s) i. case fmlookup (peers s) i of
         None \<Rightarrow> (h, s)
       | Some c \<Rightarrow> (h(c := Close (h c)), s\<lparr>peers := fmdrop i (peers s)\<rparr>)) (h, s) ord"

section \<open>Pieces\<close>

definition swarm_MissingPieces :: "swarm \<Rightarrow> bytes \<Rightarrow> int list" where
  "swarm_MissingPieces s bitfield = MissingPieces (swarm_pieces s) bitfield"

definition swarm_GetPiece :: "swarm \<Rightarrow> int \<Rightarrow> bytes option" where
  "swarm_GetPiece s idx = GetPiece (swarm_pieces s) idx"

definition swarm_NumPieces :: "swarm \<Rightarrow> int" where
  "swarm_NumPieces s = NumPieces (swarm_pieces s)"

definition swarm_AddPiece :: "swarm \<Rightarrow> int \<Rightarrow> bytes \<Rightarrow> piece_err + swarm" where
  "swarm_AddPiece s idx data =
     (case AddPiece (swarm_pieces s) idx data of Inl e \<Rightarrow> Inl e | Inr pm' \<Rightarrow> Inr (s\<lparr>swarm_pieces := pm'\<rparr>))"

definition swarm_AllPiecesReceived :: "swarm \<Rightarrow> bool" where
  "swarm_AllPiecesReceived s = AllPiecesReceived (swarm_pieces s)"

definition swarm_Bitfield :: "swarm \<Rightarrow> go_panic + bytes" where
  "swarm_Bitfield s = BitfieldOf (swarm_pieces s)"

definition MissingPiecesCount :: "swarm \<Rightarrow> int" where
  "MissingPiecesCount s = wrap64 (NumPieces (swarm_pieces s) - ReceivedCount (swarm_pieces s))"

definition swarm_VerifyPiece :: "swarm \<Rightarrow> int \<Rightarrow> bytes \<Rightarrow> bool" where
  "swarm_VerifyPiece s idx data = VerifyPiece (swarm_pieces s) idx data"

definition swarm_SetPieceHashes :: "swarm \<Rightarrow> bytes option \<Rightarrow> swarm" where
  "swarm_SetPieceHashes s hashes = s\<lparr>swarm_pieces := SetPieceHashes (swarm_pieces s) hashes\<rparr>"

section \<open>Peer states\<close>

definition GetPeerState :: "swarm \<Rightarrow> id20 \<Rightarrow> peer_state option" where
  "GetPeerState s i = fmlookup (peerStates s) i"

text \<open>\<open>if state, exists := s.peerStates[id]; exists { ... }\<close>\<close>

definition on_state :: "(peer_state \<Rightarrow> peer_state) \<Rightarrow> id20 \<Rightarrow> swarm \<Rightarrow> swarm" where
  "on_state f i s =
     (case fmlookup (peerStates s) i of
        None \<Rightarrow> s
      | Some ps \<Rightarrow> s\<lparr>peerStates := fmupd i (f ps) (peerStates s)\<rparr>)"

definition SetPeerInterested :: "id20 \<Rightarrow> bool \<Rightarrow> swarm \<Rightarrow> swarm" where
  "SetPeerInterested i v s = on_state (ps_SetPeerInterested v) i s"

definition SetPeerChoking :: "id20 \<Rightarrow> bool \<Rightarrow> swarm \<Rightarrow> swarm" where
  "SetPeerChoking i v s = on_state (ps_SetPeerChoking v) i s"

definition RecordUpload :: "id20 \<Rightarrow> int \<Rightarrow> swarm \<Rightarrow> swarm" where
  "RecordUpload i n s = on_state (AddUploaded n) i s"

definition RecordDownload :: "id20 \<Rightarrow> int \<Rightarrow> swarm \<Rightarrow> swarm" where
  "RecordDownload i n s = on_state (AddDownloaded n) i s"

definition IsChoking :: "swarm \<Rightarrow> id20 \<Rightarrow> bool" where
  "IsChoking s i = (case fmlookup (peerStates s) i of Some ps \<Rightarrow> IsAmChoking ps | None \<Rightarrow> True)"

section \<open>The choking algorithm\<close>

record peerRanking =
  pr_id :: id20
  pr_rate :: rat

record UnchokeAction =
  ua_PeerID :: id20
  ua_Unchoke :: bool

text \<open>
  The environment of one run: the clock each state reads, the orders of the three loops over
  \<open>peerStates\<close> that build lists, and the random number drawn.
\<close>

record unchoke_env =
  clock :: "id20 \<Rightarrow> int"
  rank_ord :: "id20 list"
  choked_ord :: "id20 list"
  action_ord :: "id20 list"
  draw :: nat

definition state_at :: "(id20, peer_state) fmap \<Rightarrow> id20 \<Rightarrow> peer_state" where
  "state_at sts i = the (fmlookup sts i)"

definition rate_greater :: "peerRanking \<Rightarrow> peerRanking \<Rightarrow> unit \<Rightarrow> bool \<times> unit" where
  "rate_greater x y c = (pr_rate x > pr_rate y, c)"

definition interested_ranking :: "id20 list \<Rightarrow> (id20, peer_state) fmap \<Rightarrow> peerRanking list" where
  "interested_ranking ord sts =
     map (\<lambda>i. \<lparr>pr_id = i, pr_rate = DownloadRate (state_at sts i)\<rparr>)
       (filter (\<lambda>i. IsPeerInterested (state_at sts i)) ord)"

fun mark_top :: "nat \<Rightarrow> peerRanking list \<Rightarrow> id20 fset \<Rightarrow> id20 fset" where
  "mark_top n [] toUnchoke = toUnchoke"
| "mark_top n (pr # prs) toUnchoke =
     (if n \<ge> MaxUnchokedPeers - 1 then toUnchoke
      else mark_top (Suc n) prs (finsert (pr_id pr) toUnchoke))"

definition choose_optimistic ::
  "nat \<Rightarrow> id20 list \<Rightarrow> (id20, peer_state) fmap \<Rightarrow> id20 fset \<Rightarrow> int \<Rightarrow> id20 \<Rightarrow> id20" where
  "choose_optimistic n ord sts toUnchoke rnd opt =
     (if rnd smod OptimisticUnchokeInterval = 0 \<or> opt = zero20 then
        let chokedInterested = filter (\<lambda>i. IsPeerInterested (state_at sts i) \<and> i |\<notin>| toUnchoke) ord in
        if chokedInterested \<noteq> [] then chokedInterested ! (n mod length chokedInterested) else opt
      else opt)"

fun unchoke_actions ::
  "id20 fset \<Rightarrow> id20 list \<Rightarrow> (id20, peer_state) fmap \<Rightarrow> UnchokeAction list \<times> (id20, peer_state) fmap" where
  "unchoke_actions toUnchoke [] sts = ([], sts)"
| "unchoke_actions toUnchoke (i # is) sts =
     (let st = state_at sts i; shouldUnchoke = (i |\<in>| toUnchoke); currentlyChoking = IsAmChoking st in
      if shouldUnchoke \<and> currentlyChoking then
        (case unchoke_actions toUnchoke is (fmupd i (SetAmChoking False st) sts) of
           (as, sts') \<Rightarrow> (\<lparr>ua_PeerID = i, ua_Unchoke = True\<rparr> # as, sts'))
      else if \<not> shouldUnchoke \<and> \<not> currentlyChoking then
        (case unchoke_actions toUnchoke is (fmupd i (SetAmChoking True st) sts) of
           (as, sts') \<Rightarrow> (\<lparr>ua_PeerID = i, ua_Unchoke = False\<rparr> # as, sts'))
      else unchoke_actions toUnchoke is sts)"

definition update_all_rates :: "(id20 \<Rightarrow> int) \<Rightarrow> (id20, peer_state) fmap \<Rightarrow> (id20, peer_state) fmap" where
  "update_all_rates now sts = fmmap_keys (\<lambda>i. UpdateRates (now i)) sts"

definition top_unchoked :: "unchoke_env \<Rightarrow> (id20, peer_state) fmap \<Rightarrow> id20 fset" where
  "top_unchoked env sts =
     mark_top 0 (fst (sort_Slice rate_greater (interested_ranking (rank_ord env) sts) ())) {||}"

definition RunUnchokeAlgorithm :: "unchoke_env \<Rightarrow> swarm \<Rightarrow> UnchokeAction list \<times> swarm" where
  "RunUnchokeAlgorithm env s =
     (let rnd = wrap64 (unchokeRound s + 1);
          sts = update_all_rates (clock env) (peerStates s);
          top = top_unchoked env sts;
          opt = choose_optimistic (draw env) (choked_ord env) sts top rnd (optimisticPeer s);
          toUnchoke = (if opt \<noteq> zero20 \<and> fmlookup sts opt \<noteq> None then finsert opt top else top)
      in case unchoke_actions toUnchoke (action_ord env) sts of
           (actions, sts') \<Rightarrow>
             (actions, s\<lparr>unchokeRound := rnd, optimisticPeer := opt, peerStates := sts'\<rparr>))"

section \<open>Bitfields and rarest pieces\<close>

definition UpdatePeerBitfield :: "id20 \<Rightarrow> bytes \<Rightarrow> swarm \<Rightarrow> swarm" where
  "UpdatePeerBitfield i bitfield s = s\<lparr>peerBitfields := fmupd i bitfield (peerBitfields s)\<rparr>"

definition SetPeerHasPiece :: "id20 \<Rightarrow> nat \<Rightarrow> swarm \<Rightarrow> go_panic + swarm" where
  "SetPeerHasPiece i pieceIdx s =
     bindE (case fmlookup (peerBitfields s) i of
              Some bf \<Rightarrow> Inr bf
            | None \<Rightarrow> make_bytes (bitfield_size (NumPieces (swarm_pieces s)))) (\<lambda>bf.
       Inr (s\<lparr>peerBitfields :=
                fmupd i (if pieceIdx div 8 < length bf then bf_set bf pieceIdx else bf) (peerBitfields s)\<rparr>))"

text \<open>The slice of counts has 8 bytes an element.\<close>

definition make_counts :: "int \<Rightarrow> go_panic + nat list" where
  "make_counts n = (if n < 0 \<or> 8 * n > max_alloc then Inl MakesliceLen else Inr (replicate (nat n) 0))"

definition count_bitfield :: "nat \<Rightarrow> bytes \<Rightarrow> nat list \<Rightarrow> nat list" where
  "count_bitfield n bf availability =
     fold (\<lambda>i av. if i div 8 < length bf \<and> bf_bit bf i then av[i := Suc (av ! i)] else av) [0..<n] availability"

record pieceRarity =
  rar_index :: int
  rar_count :: nat

text \<open>The comparator draws a coin, number \<open>k\<close> of the sequence, when two counts are equal.\<close>

definition rarity_less :: "(nat \<Rightarrow> bool) \<Rightarrow> pieceRarity \<Rightarrow> pieceRarity \<Rightarrow> nat \<Rightarrow> bool \<times> nat" where
  "rarity_less coin x y k =
     (if rar_count x = rar_count y then (coin k, Suc k) else (rar_count x < rar_count y, k))"

definition rarity_candidates :: "piece_manager \<Rightarrow> bytes \<Rightarrow> nat list \<Rightarrow> nat \<Rightarrow> pieceRarity list" where
  "rarity_candidates mgr peerBitfield availability n =
     map (\<lambda>i. \<lparr>rar_index = int i, rar_count = availability ! i\<rparr>)
       (filter (\<lambda>i. \<not> has_piece mgr i \<and> i div 8 < length peerBitfield \<and> bf_bit peerBitfield i) [0..<n])"

definition GetRarestMissingPieces ::
  "id20 list \<Rightarrow> (nat \<Rightarrow> bool) \<Rightarrow> swarm \<Rightarrow> bytes \<Rightarrow> go_panic + int list" where
  "GetRarestMissingPieces ord coin s peerBitfield =
     (let numPieces = NumPieces (swarm_pieces s); n = nat numPieces in
      bindE (make_counts numPieces) (\<lambda>zero.
        let availability = fold (count_bitfield n) (List.map_filter (fmlookup (peerBitfields s)) ord) zero;
            candidates = rarity_candidates (swarm_pieces s) peerBitfield availability n
        in Inr (map rar_index (fst (sort_Slice (rarity_less coin) candidates 0)))))"

section \<open>Iteration orders\<close>

definition enumerates :: "'k list \<Rightarrow> ('k, 'v) fmap \<Rightarrow> bool" where
  "enumerates ord m \<longleftrightarrow> distinct ord \<and> set ord = fset (fmdom m)"

lemma enumerates_lookup: "enumerates ord m \<Longrightarrow> i \<in> set ord \<longleftrightarrow> (\<exists>v. fmlookup m i = Some v)"
  by (auto simp: enumerates_def fmlookup_dom_iff)

lemma enumerates_cong: "fmdom m = fmdom m' \<Longrightarrow> enumerates ord m = enumerates ord m'"
  by (simp add: enumerates_def)

section \<open>The two comparators\<close>

interpretation rate: slice_order rate_greater "\<lambda>pr. - pr_rate pr"
  by unfold_locales (auto simp: rate_greater_def)

interpretation rarity: slice_order "rarity_less coin" rar_count
  by unfold_locales (auto simp: rarity_less_def split: if_splits)

section \<open>Availability\<close>

lemma length_fold_count:
  "length (fold (\<lambda>i av. if P i then av[i := Suc (av ! i)] else av) is av) = length av"
  by (induction "is" arbitrary: av) simp_all

lemma nth_list_update': "j < length xs \<Longrightarrow> xs[i := x] ! j = (if i = j then x else xs ! j)"
  by (cases "i = j") simp_all

lemma nth_fold_count:
  "distinct is \<Longrightarrow> j < length av \<Longrightarrow>
     fold (\<lambda>i av. if P i then av[i := Suc (av ! i)] else av) is av ! j =
       av ! j + (if j \<in> set is \<and> P j then 1 else 0)"
  by (induction "is" arbitrary: av) (auto simp: nth_list_update')

lemma length_count_bitfield [simp]: "length (count_bitfield n bf av) = length av"
  by (simp add: count_bitfield_def length_fold_count)

lemma nth_count_bitfield:
  "j < n \<Longrightarrow> j < length av \<Longrightarrow> count_bitfield n bf av ! j = av ! j + (if bf_get bf j then 1 else 0)"
  unfolding count_bitfield_def by (subst nth_fold_count) (auto simp: bf_get_def)

lemma count_bitfields:
  assumes "j < n" and "n \<le> length av"
  shows "fold (count_bitfield n) bfs av ! j = av ! j + length (filter (\<lambda>bf. bf_get bf j) bfs)"
  using assms by (induction bfs arbitrary: av) (simp_all add: nth_count_bitfield)

text \<open>The number of peers whose known bitfield has the piece.\<close>

definition availability :: "swarm \<Rightarrow> nat \<Rightarrow> nat" where
  "availability s j =
     fcard (ffilter (\<lambda>i. bf_get (the (fmlookup (peerBitfields s) i)) j) (fmdom (peerBitfields s)))"

lemma length_filter_map_filter:
  assumes "set ord \<subseteq> fset (fmdom m)"
  shows "length (filter P (List.map_filter (fmlookup m) ord)) = length (filter (\<lambda>i. P (the (fmlookup m i))) ord)"
  using assms by (induction ord) (auto simp: List.map_filter_def fmlookup_dom_iff)

lemma availability_count:
  assumes "enumerates ord (peerBitfields s)"
  shows "length (filter (\<lambda>bf. bf_get bf j) (List.map_filter (fmlookup (peerBitfields s)) ord)) = availability s j"
proof -
  let ?P = "\<lambda>i. bf_get (the (fmlookup (peerBitfields s) i)) j"
  have "length (filter ?P ord) = card (set (filter ?P ord))"
    using assms by (intro distinct_card [symmetric]) (simp add: enumerates_def)
  also have "set (filter ?P ord) = fset (ffilter ?P (fmdom (peerBitfields s)))"
    using assms by (auto simp: enumerates_def)
  also have "card \<dots> = availability s j"
    by (simp add: availability_def fcard.rep_eq)
  finally show ?thesis using assms by (subst length_filter_map_filter) (simp_all add: enumerates_def)
qed

lemma rarity_candidates_index:
  "map rar_index (rarity_candidates mgr bf av n) =
     map int (filter (\<lambda>i. bf_get bf i \<and> \<not> has_piece mgr i) [0..<n])"
  by (simp add: rarity_candidates_def comp_def) (rule filter_cong, auto simp: bf_get_def)

lemma GetRarest_Inr:
  assumes "enumerates ord (peerBitfields s)" and "0 \<le> numPieces (swarm_pieces s)"
    and "8 * numPieces (swarm_pieces s) \<le> max_alloc"
  obtains cs :: "pieceRarity list" where "GetRarestMissingPieces ord coin s bf = Inr (map rar_index cs)"
    and "mset (map rar_index cs) = mset (MissingPieces (swarm_pieces s) bf)"
    and "sorted_wrt (\<lambda>x y. rar_count x \<le> rar_count y) cs"
    and "\<forall>x \<in> set cs. rar_count x = availability s (nat (rar_index x))"
proof -
  let ?n = "nat (numPieces (swarm_pieces s))"
  let ?av = "fold (count_bitfield ?n) (List.map_filter (fmlookup (peerBitfields s)) ord) (replicate ?n 0)"
  let ?cands = "rarity_candidates (swarm_pieces s) bf ?av ?n"
  let ?cs = "fst (sort_Slice (rarity_less coin) ?cands 0)"
  have "GetRarestMissingPieces ord coin s bf = Inr (map rar_index ?cs)"
    using assms(2,3) by (simp add: GetRarestMissingPieces_def NumPieces_def make_counts_def Let_def)
  moreover have "mset (map rar_index ?cs) = mset (map rar_index ?cands)"
    by (simp add: mset_sort_Slice)
  then have "mset (map rar_index ?cs) = mset (MissingPieces (swarm_pieces s) bf)"
    by (simp add: rarity_candidates_index MissingPieces_filter)
  moreover have "\<forall>x \<in> set ?cs. rar_count x = availability s (nat (rar_index x))"
    by (auto simp: set_sort_Slice rarity_candidates_def count_bitfields availability_count [OF assms(1)])
  ultimately show thesis by (rule that [OF _ _ rarity.sort_sorted])
qed

section \<open>The choking algorithm, step by step\<close>

lemma mark_top_set: "fset (mark_top n prs U) = fset U \<union> pr_id ` set (take (MaxUnchokedPeers - 1 - n) prs)"
proof (induction n prs U rule: mark_top.induct)
  case (1 n U)
  show ?case by simp
next
  case (2 n pr prs U)
  show ?case
  proof (cases "n \<ge> MaxUnchokedPeers - 1")
    case False
    then have "MaxUnchokedPeers - 1 - n = Suc (MaxUnchokedPeers - 1 - Suc n)" by simp
    with 2 False show ?thesis by auto
  qed simp
qed

lemma SetAmChoking_same: "AmChoking ps = v \<Longrightarrow> SetAmChoking v ps = ps"
  by (auto simp: SetAmChoking_def)

lemma unchoke_actions_spec:
  assumes "distinct ord" and "\<forall>i \<in> set ord. fmlookup sts i \<noteq> None"
  shows "unchoke_actions U ord sts = (as, sts') \<Longrightarrow>
    as = map (\<lambda>i. \<lparr>ua_PeerID = i, ua_Unchoke = (i |\<in>| U)\<rparr>)
           (filter (\<lambda>i. AmChoking (state_at sts i) = (i |\<in>| U)) ord) \<and>
    (\<forall>i. fmlookup sts' i =
       (if i \<in> set ord then Some (SetAmChoking (i |\<notin>| U) (state_at sts i)) else fmlookup sts i))"
  using assms
proof (induction ord arbitrary: sts as sts')
  case Nil
  then show ?case by simp
next
  case (Cons i ord)
  let ?st = "state_at sts i"
  let ?sts = "if AmChoking ?st = (i |\<in>| U) then fmupd i (SetAmChoking (i |\<notin>| U) ?st) sts else sts"
  obtain bs sts'' where rest: "unchoke_actions U ord ?sts = (bs, sts'')" by fastforce
  have frame: "state_at ?sts j = state_at sts j" if "j \<in> set ord" for j
    using that Cons.prems(2) by (auto simp: state_at_def)
  have "distinct ord" and "\<forall>j \<in> set ord. fmlookup ?sts j \<noteq> None" using Cons.prems(2,3) by auto
  note IH = Cons.IH [OF rest this]
  have lookup: "fmlookup sts i = Some ?st" using Cons.prems(3) by (auto simp: state_at_def)
  have result: "as = (if AmChoking ?st = (i |\<in>| U) then [\<lparr>ua_PeerID = i, ua_Unchoke = (i |\<in>| U)\<rparr>] else []) @ bs"
    "sts' = sts''"
    using Cons.prems(1) rest by (auto simp: Let_def IsAmChoking_def split: if_splits prod.splits)
  have bs: "bs = map (\<lambda>j. \<lparr>ua_PeerID = j, ua_Unchoke = (j |\<in>| U)\<rparr>)
      (filter (\<lambda>j. AmChoking (state_at sts j) = (j |\<in>| U)) ord)"
    using IH frame by (simp cong: filter_cong)
  have "fmlookup sts' j = (if j \<in> set (i # ord) then Some (SetAmChoking (j |\<notin>| U) (state_at sts j))
      else fmlookup sts j)" for j
  proof (cases "j = i")
    case True
    then have "j \<notin> set ord" using Cons.prems(2) by simp
    with IH True lookup show ?thesis by (auto simp: result(2) SetAmChoking_same)
  next
    case False
    with IH frame show ?thesis by (auto simp: result(2))
  qed
  with bs show ?case by (auto simp: result(1))
qed

text \<open>The facts about one run that the properties share.\<close>

definition env_ok :: "unchoke_env \<Rightarrow> swarm \<Rightarrow> bool" where
  "env_ok env s \<longleftrightarrow> enumerates (rank_ord env) (peerStates s) \<and> enumerates (choked_ord env) (peerStates s) \<and>
     enumerates (action_ord env) (peerStates s)"

definition unchoked :: "swarm \<Rightarrow> id20 set" where
  "unchoked s = {i. \<exists>ps. fmlookup (peerStates s) i = Some ps \<and> \<not> AmChoking ps}"

definition interested :: "swarm \<Rightarrow> id20 set" where
  "interested s = {i. \<exists>ps. fmlookup (peerStates s) i = Some ps \<and> PeerInterested ps}"

definition rate_of :: "swarm \<Rightarrow> id20 \<Rightarrow> rat" where
  "rate_of s i = DownloadRate (the (fmlookup (peerStates s) i))"

abbreviation rated :: "unchoke_env \<Rightarrow> swarm \<Rightarrow> (id20, peer_state) fmap" where
  "rated env s \<equiv> update_all_rates (clock env) (peerStates s)"

definition final_unchoke :: "unchoke_env \<Rightarrow> swarm \<Rightarrow> id20 fset" where
  "final_unchoke env s =
     (let sts = rated env s; top = top_unchoked env sts;
          opt = choose_optimistic (draw env) (choked_ord env) sts top (wrap64 (unchokeRound s + 1)) (optimisticPeer s)
      in if opt \<noteq> zero20 \<and> fmlookup sts opt \<noteq> None then finsert opt top else top)"

lemma lookup_rated: "fmlookup (rated env s) i = map_option (UpdateRates (clock env i)) (fmlookup (peerStates s) i)"
  by (simp add: update_all_rates_def)

lemma RunUnchoke_unfold:
  "RunUnchokeAlgorithm env s =
     (let rnd = wrap64 (unchokeRound s + 1) in
      case unchoke_actions (final_unchoke env s) (action_ord env) (rated env s) of
        (as, sts) \<Rightarrow> (as, s\<lparr>unchokeRound := rnd,
          optimisticPeer := choose_optimistic (draw env) (choked_ord env) (rated env s)
            (top_unchoked env (rated env s)) rnd (optimisticPeer s), peerStates := sts\<rparr>))"
  by (simp add: RunUnchokeAlgorithm_def final_unchoke_def Let_def)

lemma RunUnchoke_spec:
  assumes "env_ok env s" and "RunUnchokeAlgorithm env s = (as, s')"
  shows "fmlookup (peerStates s') i =
      map_option (\<lambda>ps. SetAmChoking (i |\<notin>| final_unchoke env s) (UpdateRates (clock env i) ps)) (fmlookup (peerStates s) i)"
    and "as = map (\<lambda>i. \<lparr>ua_PeerID = i, ua_Unchoke = (i |\<in>| final_unchoke env s)\<rparr>)
      (filter (\<lambda>i. AmChoking (the (fmlookup (peerStates s) i)) = (i |\<in>| final_unchoke env s)) (action_ord env))"
    and "optimisticPeer s' = choose_optimistic (draw env) (choked_ord env) (rated env s)
      (top_unchoked env (rated env s)) (wrap64 (unchokeRound s + 1)) (optimisticPeer s)"
    and "peers s' = peers s" and "fmdom (peerStates s') = fmdom (peerStates s)"
    and "swarm_pieces s' = swarm_pieces s" and "peerBitfields s' = peerBitfields s"
proof -
  let ?U = "final_unchoke env s" and ?ord = "action_ord env"
  obtain sts where run: "unchoke_actions ?U ?ord (rated env s) = (as, sts)" and sts: "peerStates s' = sts"
    using assms(2) by (auto simp: RunUnchoke_unfold Let_def split: prod.splits)
  have ord: "distinct ?ord" "\<And>i. i \<in> set ?ord \<longleftrightarrow> fmlookup (peerStates s) i \<noteq> None"
    using assms(1) enumerates_lookup [of ?ord "peerStates s"] by (auto simp: env_ok_def enumerates_def)
  then have "\<forall>i \<in> set ?ord. fmlookup (rated env s) i \<noteq> None" by (simp add: lookup_rated)
  note spec = unchoke_actions_spec [OF ord(1) this run]
  have at: "i \<in> set ?ord \<Longrightarrow> state_at (rated env s) i = UpdateRates (clock env i) (the (fmlookup (peerStates s) i))" for i
    using ord(2) by (auto simp: state_at_def lookup_rated)
  show lookup: "fmlookup (peerStates s') i =
      map_option (\<lambda>ps. SetAmChoking (i |\<notin>| ?U) (UpdateRates (clock env i) ps)) (fmlookup (peerStates s) i)" for i
    using spec ord(2) at [of i] by (auto simp: sts lookup_rated)
  show "as = map (\<lambda>i. \<lparr>ua_PeerID = i, ua_Unchoke = (i |\<in>| ?U)\<rparr>)
      (filter (\<lambda>i. AmChoking (the (fmlookup (peerStates s) i)) = (i |\<in>| ?U)) ?ord)"
    using spec at by (simp cong: filter_cong)
  show "fmdom (peerStates s') = fmdom (peerStates s)"
    by (rule fset_eqI) (simp add: fmlookup_dom_iff lookup)
qed (use assms(2) in \<open>auto simp: RunUnchoke_unfold Let_def split: prod.splits\<close>)

text \<open>The ranking: the interested peers, each once, by falling rate; the top three of it are unchoked.\<close>

lemma ranking_props:
  assumes "enumerates ord sts"
  defines "L \<equiv> fst (sort_Slice rate_greater (interested_ranking ord sts) ())"
  shows "distinct (map pr_id L)"
    and "pr_id ` set L = {i. \<exists>ps. fmlookup sts i = Some ps \<and> PeerInterested ps}"
    and "\<And>x. x \<in> set L \<Longrightarrow> pr_rate x = DownloadRate (the (fmlookup sts (pr_id x)))"
    and "sorted_wrt (\<lambda>x y. pr_rate y \<le> pr_rate x) L"
proof -
  let ?R = "interested_ranking ord sts"
  have "mset (map pr_id L) = mset (map pr_id ?R)" by (simp add: L_def mset_sort_Slice)
  moreover have "distinct (map pr_id ?R)"
    using assms(1) by (simp add: interested_ranking_def enumerates_def comp_def)
  ultimately show "distinct (map pr_id L)" using mset_eq_imp_distinct_iff by blast
  have set: "set L = set ?R" by (simp add: L_def set_sort_Slice)
  show "pr_id ` set L = {i. \<exists>ps. fmlookup sts i = Some ps \<and> PeerInterested ps}"
    using enumerates_lookup [OF assms(1)]
    by (force simp: set interested_ranking_def image_image IsPeerInterested_def state_at_def)
  show "pr_rate x = DownloadRate (the (fmlookup sts (pr_id x)))" if "x \<in> set L" for x
    using that by (auto simp: set interested_ranking_def state_at_def)
  have "sorted_wrt (\<lambda>a b. - pr_rate a \<le> - pr_rate b) L" unfolding L_def by (rule rate.sort_sorted)
  then show "sorted_wrt (\<lambda>x y. pr_rate y \<le> pr_rate x) L" by simp
qed

lemma top_unchoked_props:
  assumes "enumerates (rank_ord env) sts"
  shows "card (fset (top_unchoked env sts)) \<le> MaxUnchokedPeers - 1"
    and "i |\<in>| top_unchoked env sts \<Longrightarrow> \<exists>ps. fmlookup sts i = Some ps \<and> PeerInterested ps"
    and "fmlookup sts i = Some ps \<Longrightarrow> PeerInterested ps \<Longrightarrow> i |\<notin>| top_unchoked env sts \<Longrightarrow>
      card (fset (top_unchoked env sts)) = MaxUnchokedPeers - 1 \<and>
      (\<forall>j. j |\<in>| top_unchoked env sts \<longrightarrow> DownloadRate ps \<le> DownloadRate (the (fmlookup sts j)))"
proof -
  let ?k = "MaxUnchokedPeers - 1"
  define L where "L = fst (sort_Slice rate_greater (interested_ranking (rank_ord env) sts) ())"
  note L = ranking_props [OF assms, folded L_def]
  have top: "fset (top_unchoked env sts) = pr_id ` set (take ?k L)"
    by (simp add: top_unchoked_def L_def mark_top_set)
  have "distinct (map pr_id (take ?k L))" using L(1) by (simp add: take_map [symmetric])
  then have card: "card (fset (top_unchoked env sts)) = length (take ?k L)"
    unfolding top by (metis distinct_card length_map list.set_map)
  then show "card (fset (top_unchoked env sts)) \<le> ?k" by simp
  show "\<exists>ps. fmlookup sts i = Some ps \<and> PeerInterested ps" if "i |\<in>| top_unchoked env sts"
  proof -
    have "i \<in> pr_id ` set L" using that top in_set_takeD by fastforce
    then show ?thesis unfolding L(2) by simp
  qed
  assume i: "fmlookup sts i = Some ps" "PeerInterested ps" "i |\<notin>| top_unchoked env sts"
  then have "i \<in> pr_id ` set L" unfolding L(2) by simp
  then obtain x where x: "x \<in> set L" "i = pr_id x" by blast
  have "x \<notin> set (take ?k L)" using i(3) x(2) top by auto
  with x(1) have drop: "x \<in> set (drop ?k L)" by (metis UnE append_take_drop_id set_append)
  then have "?k < length L" by (metis drop_all empty_iff empty_set leI)
  then have "card (fset (top_unchoked env sts)) = ?k" using card by simp
  moreover have "DownloadRate ps \<le> DownloadRate (the (fmlookup sts j))" if j: "j |\<in>| top_unchoked env sts" for j
  proof -
    obtain y where y: "y \<in> set (take ?k L)" "j = pr_id y" using j top by auto
    have "pr_rate x \<le> pr_rate y" using sorted_wrt_take_drop [OF L(4) y(1) drop] .
    moreover have "y \<in> set L" using y(1) by (rule in_set_takeD)
    ultimately show ?thesis using L(3) [OF x(1)] L(3) [of y] x(2) y(2) i(1) by simp
  qed
  ultimately show "card (fset (top_unchoked env sts)) = ?k \<and>
      (\<forall>j. j |\<in>| top_unchoked env sts \<longrightarrow> DownloadRate ps \<le> DownloadRate (the (fmlookup sts j)))"
    by blast
qed

lemma enumerates_rated: "enumerates ord (rated env s) = enumerates ord (peerStates s)"
  by (rule enumerates_cong) (simp add: update_all_rates_def)

lemma unchoked_final:
  assumes "env_ok env s" and "RunUnchokeAlgorithm env s = (as, s')"
  shows "unchoked s' = fset (final_unchoke env s)"
    and "interested s' = interested s"
    and "fset (final_unchoke env s) =
      fset (top_unchoked env (rated env s)) \<union>
      (if optimisticPeer s' \<noteq> zero20 \<and> fmlookup (peerStates s) (optimisticPeer s') \<noteq> None
       then {optimisticPeer s'} else {})"
proof -
  note spec = RunUnchoke_spec [OF assms]
  show final: "fset (final_unchoke env s) =
      fset (top_unchoked env (rated env s)) \<union>
      (if optimisticPeer s' \<noteq> zero20 \<and> fmlookup (peerStates s) (optimisticPeer s') \<noteq> None
       then {optimisticPeer s'} else {})"
    by (simp add: final_unchoke_def Let_def spec(3) lookup_rated)
  have "\<exists>ps. fmlookup (peerStates s) i = Some ps" if "i |\<in>| top_unchoked env (rated env s)" for i
    using top_unchoked_props(2) [of env "rated env s"] that assms(1)
    by (auto simp: env_ok_def enumerates_rated lookup_rated)
  then have "i |\<in>| final_unchoke env s \<Longrightarrow> fmlookup (peerStates s) i \<noteq> None" for i
    using final by (auto split: if_splits)
  then show "unchoked s' = fset (final_unchoke env s)"
    by (fastforce simp: unchoked_def spec(1))
  show "interested s' = interested s" by (auto simp: interested_def spec(1))
qed

lemma unchoked_run:
  assumes "env_ok env s" and "RunUnchokeAlgorithm env s = (as, s')"
  shows "i \<in> unchoked s' \<longleftrightarrow> i |\<in>| top_unchoked env (rated env s) \<or>
    i = optimisticPeer s' \<and> i \<noteq> zero20 \<and> fmlookup (peerStates s) i \<noteq> None"
  unfolding unchoked_final(1) [OF assms] unchoked_final(3) [OF assms] by (cases "i = optimisticPeer s'") auto

lemma rate_of_run:
  assumes "env_ok env s" and "RunUnchokeAlgorithm env s = (as, s')" and "fmlookup (peerStates s) i \<noteq> None"
  shows "rate_of s' i = DownloadRate (the (fmlookup (rated env s) i))"
  using RunUnchoke_spec(1) [OF assms(1,2), of i] assms(3)
  by (auto simp: rate_of_def DownloadRate_def lookup_rated)

section \<open>Membership\<close>

text \<open>
  Every peer has a state and is filed under its own id; the states of departed peers are not excluded.
\<close>

definition swarm_wf :: "heap \<Rightarrow> swarm \<Rightarrow> bool" where
  "swarm_wf h s \<longleftrightarrow>
     (\<forall>i c. fmlookup (peers s) i = Some c \<longrightarrow> fmlookup (peerStates s) i \<noteq> None \<and> peer_id (h c) = i)"

lemma swarm_wf_new [simp]: "swarm_wf h (NewSwarm l hash mgr)"
  by (simp add: swarm_wf_def NewSwarm_def)

lemma RemovePeer_wf: "swarm_wf h s \<Longrightarrow> RemovePeer i h s = (h', s') \<Longrightarrow> swarm_wf h' s'"
  by (fastforce simp: swarm_wf_def RemovePeer_def split: option.splits if_splits)

lemma AddPeer_wf: "swarm_wf h s \<Longrightarrow> AddPeer now c h s = Inr s' \<Longrightarrow> swarm_wf h s'"
  by (auto simp: swarm_wf_def AddPeer_def ID_def split: if_splits)

lemma OnPeer_wf: "swarm_wf h s \<Longrightarrow> OnPeer now c h s = (r, h', s') \<Longrightarrow> swarm_wf h' s'"
  by (auto simp: swarm_wf_def OnPeer_def ID_def Let_def Send_Inr split: if_splits sum.splits)

lemma on_state_wf: "swarm_wf h s \<Longrightarrow> swarm_wf h (on_state f i s)"
  by (auto simp: swarm_wf_def on_state_def split: option.splits)

lemma RunUnchoke_wf: "env_ok env s \<Longrightarrow> RunUnchokeAlgorithm env s = (as, s') \<Longrightarrow> swarm_wf h s \<Longrightarrow> swarm_wf h s'"
  using RunUnchoke_spec(1,4) [of env s as s'] by (simp add: swarm_wf_def)

text \<open>\<open>OnPeer\<close> on a connection that was just made, whose outbox is empty.\<close>

definition fresh_conn :: "tcp_peer \<Rightarrow> bool" where
  "fresh_conn p \<longleftrightarrow> outbox p = [] \<and> \<not> is_closed p"

lemma OnPeer_fresh:
  assumes "fresh_conn (h c)"
  shows "OnPeer now c h s =
    (if fmlookup (peers s) (ID (h c)) \<noteq> None
     then (Inl (Err (PeerAlreadyExists (ID (h c)))), h(c := Close (h c)), s)
     else let s1 = s\<lparr>peers := fmupd (ID (h c)) c (peers s),
                    peerStates := fmupd (ID (h c)) (NewPeerState now) (peerStates s)\<rparr> in
       (case BitfieldOf (swarm_pieces s) of
          Inl p \<Rightarrow> (Inl (Panic p), h, s1)
        | Inr bf \<Rightarrow> (Inr (), h(c := (h c)\<lparr>outbox := [frame (MsgBitfield # bf)]\<rparr>), s1)))"
  using assms by (simp add: OnPeer_def Let_def Send_def fresh_conn_def outbox_cap_def split: sum.split)

lemma handleConn_open_accepted:
  assumes "handleConn_open (OnPeer now) hash localID c outb write_ok e input h s = (w, r, h', s')"
    and "snd (DefaultHandshakeFunc hash localID outb write_ok e input) = Inr (peerID, rest)" and "peerID \<noteq> localID"
  shows "(if fmlookup (peers s) peerID \<noteq> None
      then r = Inl (Err (Rejected (PeerAlreadyExists peerID))) \<and> is_closed (h' c) \<and> s' = s
      else s' = s\<lparr>peers := fmupd peerID c (peers s), peerStates := fmupd peerID (NewPeerState now) (peerStates s)\<rparr> \<and>
        (case BitfieldOf (swarm_pieces s) of
           Inl p \<Rightarrow> r = Inl (Panic p)
         | Inr bf \<Rightarrow> r = Inr rest \<and> outbox (h' c) = [frame (MsgBitfield # bf)] \<and>
             peer_id (h' c) = peerID \<and> \<not> is_closed (h' c)))
    \<and> (\<forall>d. d \<noteq> c \<longrightarrow> h' d = h d)"
proof -
  define p where "p = SetID (NewTCPPeer outb) peerID"
  have p: "ID p = peerID" "peer_id p = peerID" "fresh_conn p"
    by (simp_all add: p_def ID_def SetID_def NewTCPPeer_def fresh_conn_def)
  obtain w' where hs: "DefaultHandshakeFunc hash localID outb write_ok e input = (w', Inr (peerID, rest))"
    using assms(2) by (cases "DefaultHandshakeFunc hash localID outb write_ok e input") simp
  show ?thesis
    using assms(1,3) p OnPeer_fresh [of "h(c := p)" c now s]
    by (auto simp: handleConn_open_def Let_def hs p_def [symmetric] fresh_conn_def split: sum.splits if_splits)
qed

section \<open>Properties\<close>

definition example_peer :: "rat \<Rightarrow> peer_state" where
  "example_peer r = (NewPeerState 0)\<lparr>PeerInterested := True, downloadRate := r\<rparr>"

definition example_swarm :: swarm where
  "example_swarm = (NewSwarm zero20 zero20 (NewPieceManager 10))\<lparr>
     peerStates := fmap_of_list [([1], example_peer 10), ([2], example_peer 20), ([3], example_peer 30),
       ([4], example_peer 40), ([5], example_peer 50)],
     peerBitfields := fmap_of_list [([1], [0xFF, 0xFF]), ([2], [0x0F, 0])]\<rparr>"

definition example_env :: unchoke_env where
  "example_env = \<lparr>clock = (\<lambda>_. 0), rank_ord = [[1], [2], [3], [4], [5]], choked_ord = [[1], [2], [3], [4], [5]],
     action_ord = [[5], [4], [3], [2], [1]], draw = 1\<rparr>"

lemma example_env_ok: "env_ok example_env example_swarm"
  by (auto simp: env_ok_def enumerates_def example_env_def example_swarm_def)

lemma example_rate: "UpdateRates 0 (example_peer r) = example_peer r"
  by (simp add: UpdateRates_def Let_def example_peer_def NewPeerState_def time_Sub_def duration_seconds_def)

lemma example_rated: "rated example_env example_swarm = peerStates example_swarm"
  by (rule fmap_ext)
    (simp add: update_all_rates_def example_env_def example_swarm_def example_rate fmap_of_list.rep_eq)

lemma example_top: "top_unchoked example_env (peerStates example_swarm) = {|[3], [4], [5]|}"
  by (simp add: top_unchoked_def interested_ranking_def example_env_def example_swarm_def state_at_def
      fmap_of_list.rep_eq IsPeerInterested_def example_peer_def NewPeerState_def DownloadRate_def
      sort_Slice_def rate_greater_def MaxUnchokedPeers_def)

lemma single_not_zero20 [simp]: "[b] \<noteq> zero20"
proof
  assume "[b] = zero20"
  then have "length [b] = length zero20" by (rule arg_cong)
  then show False by (simp add: zero20_def)
qed

lemma example_optimistic:
  "choose_optimistic 1 (choked_ord example_env) (peerStates example_swarm) {|[3], [4], [5]|} 1 zero20 = [2]"
  by (simp add: choose_optimistic_def example_env_def example_swarm_def state_at_def fmap_of_list.rep_eq
      IsPeerInterested_def example_peer_def Let_def)

lemma example_final: "final_unchoke example_env example_swarm = {|[2], [3], [4], [5]|}"
proof -
  have env: "wrap64 (unchokeRound example_swarm + 1) = 1" "optimisticPeer example_swarm = zero20"
    "draw example_env = 1"
    by (simp_all add: example_swarm_def NewSwarm_def example_env_def int64_ok_def)
  have "fmlookup (peerStates example_swarm) [2] \<noteq> None" by (simp add: example_swarm_def fmap_of_list.rep_eq)
  then show ?thesis
    unfolding final_unchoke_def example_rated Let_def example_top env example_optimistic by simp
qed

lemma example_unchoked:
  assumes "RunUnchokeAlgorithm example_env example_swarm = (as, s')"
  shows "unchoked s' = {[2], [3], [4], [5]}"
  using unchoked_final(1) [OF example_env_ok assms] by (simp add: example_final)

text \<open>
  C30.  A run of the choking algorithm leaves at most four peers unchoked: at most three apart from the
  optimistic one, and every one of them interested, the optimistic one excepted.
\<close>

theorem unchoke_bounded:
  assumes "env_ok env s" and "RunUnchokeAlgorithm env s = (as, s')"
  shows "finite (unchoked s') \<and> card (unchoked s') \<le> MaxUnchokedPeers \<and>
    card (unchoked s' - {optimisticPeer s'}) \<le> MaxUnchokedPeers - 1 \<and>
    unchoked s' \<subseteq> interested s' \<union> {optimisticPeer s'}"
proof -
  note final = unchoked_final [OF assms]
  let ?T = "fset (top_unchoked env (rated env s))"
  have ord: "enumerates (rank_ord env) (rated env s)" using assms(1) by (simp add: env_ok_def enumerates_rated)
  have T: "card ?T \<le> MaxUnchokedPeers - 1" using ord by (rule top_unchoked_props(1))
  have int: "?T \<subseteq> interested s"
    using top_unchoked_props(2) [OF ord] by (fastforce simp: interested_def lookup_rated)
  have sub: "unchoked s' \<subseteq> insert (optimisticPeer s') ?T" using final by auto
  then have "card (unchoked s') \<le> card (insert (optimisticPeer s') ?T)" by (intro card_mono) simp_all
  also have "\<dots> \<le> MaxUnchokedPeers"
    using T card_insert_le_m1 [of MaxUnchokedPeers ?T] by (simp add: MaxUnchokedPeers_def)
  finally have "card (unchoked s') \<le> MaxUnchokedPeers" .
  moreover have "card (unchoked s' - {optimisticPeer s'}) \<le> card ?T" using sub by (intro card_mono) auto
  ultimately show ?thesis using sub int T final by (auto intro: finite_subset)
qed

theorem unchoke_bounded_witness:
  "\<exists>as s'. RunUnchokeAlgorithm example_env example_swarm = (as, s') \<and> card (unchoked s') \<le> 4 \<and>
     unchoked s' = {[2], [3], [4], [5]}"
proof -
  obtain as s' where run: "RunUnchokeAlgorithm example_env example_swarm = (as, s')" by fastforce
  from unchoke_bounded [OF example_env_ok run] example_unchoked [OF run] run
  show ?thesis by (auto simp: MaxUnchokedPeers_def)
qed

text \<open>
  The actions returned are exactly the changes made: an unchoke for every peer that was choked and
  is not any more, a choke for every peer of which the converse is true, one action a peer; whether a
  peer is interested is not changed.
\<close>

theorem unchoke_actions_exact:
  assumes "env_ok env s" and "RunUnchokeAlgorithm env s = (as, s')"
  shows "distinct (map ua_PeerID as) \<and> interested s' = interested s \<and>
    {ua_PeerID a | a. a \<in> set as \<and> ua_Unchoke a} = unchoked s' - unchoked s \<and>
    {ua_PeerID a | a. a \<in> set as \<and> \<not> ua_Unchoke a} = unchoked s - unchoked s'"
proof -
  note spec = RunUnchoke_spec [OF assms] and final = unchoked_final [OF assms]
  let ?U = "final_unchoke env s"
  let ?changed = "filter (\<lambda>i. AmChoking (the (fmlookup (peerStates s) i)) = (i |\<in>| ?U)) (action_ord env)"
  have ord: "distinct (action_ord env)" "\<And>i. i \<in> set (action_ord env) \<longleftrightarrow> fmlookup (peerStates s) i \<noteq> None"
    using assms(1) enumerates_lookup [of "action_ord env" "peerStates s"] by (auto simp: env_ok_def enumerates_def)
  have dom: "fmlookup (peerStates s) i \<noteq> None" if "i |\<in>| ?U" for i
  proof -
    have "i \<in> unchoked s'" using that by (simp add: final(1))
    then show ?thesis using spec(1) [of i] by (auto simp: unchoked_def)
  qed
  have ids: "{ua_PeerID a | a. a \<in> set as \<and> ua_Unchoke a} = {i \<in> set ?changed. i |\<in>| ?U}"
    "{ua_PeerID a | a. a \<in> set as \<and> \<not> ua_Unchoke a} = {i \<in> set ?changed. i |\<notin>| ?U}"
    unfolding spec(2) by force+
  have "distinct (map ua_PeerID as)" unfolding spec(2) using ord(1) by (simp add: comp_def)
  moreover have "{i \<in> set ?changed. i |\<in>| ?U} = unchoked s' - unchoked s"
    using dom ord(2) unfolding final(1) by (fastforce simp: unchoked_def)
  moreover have "{i \<in> set ?changed. i |\<notin>| ?U} = unchoked s - unchoked s'"
    using ord(2) unfolding final(1) by (fastforce simp: unchoked_def)
  ultimately show ?thesis using ids final(2) by simp
qed

theorem unchoke_actions_exact_witness:
  "\<exists>as s'. RunUnchokeAlgorithm example_env example_swarm = (as, s') \<and>
     {ua_PeerID a | a. a \<in> set as \<and> ua_Unchoke a} = {[2], [3], [4], [5]} - unchoked example_swarm"
proof -
  obtain as s' where run: "RunUnchokeAlgorithm example_env example_swarm = (as, s')" by fastforce
  from unchoke_actions_exact [OF example_env_ok run] example_unchoked [OF run] run
  show ?thesis by auto
qed

text \<open>
  C25.  Upload slots go to the best: when an interested peer is left choked, every unchoked peer but the
  optimistic one is interested and has a download rate at least as high, and no regular slot is free.
\<close>

theorem unchoke_best:
  assumes "env_ok env s" and "RunUnchokeAlgorithm env s = (as, s')"
    and "i \<in> interested s'" and "i \<notin> unchoked s'"
    and "j \<in> unchoked s'" and "j \<noteq> optimisticPeer s'"
  shows "j \<in> interested s' \<and> rate_of s' i \<le> rate_of s' j \<and> MaxUnchokedPeers - 1 \<le> card (unchoked s')"
proof -
  note final = unchoked_final [OF assms(1,2)]
  let ?T = "top_unchoked env (rated env s)"
  have ord: "enumerates (rank_ord env) (rated env s)" using assms(1) by (simp add: env_ok_def enumerates_rated)
  have j: "j |\<in>| ?T" and i: "i |\<notin>| ?T" using assms(4-6) unchoked_run [OF assms(1,2)] by blast+
  obtain ps where ps: "fmlookup (peerStates s) i = Some ps" "PeerInterested ps"
    using assms(3) final(2) by (auto simp: interested_def)
  then have "fmlookup (rated env s) i = Some (UpdateRates (clock env i) ps)" by (simp add: lookup_rated)
  note top = top_unchoked_props(3) [OF ord this _ i]
  obtain qs where qs: "fmlookup (peerStates s) j = Some qs" "PeerInterested qs"
    using top_unchoked_props(2) [OF ord j] by (auto simp: lookup_rated)
  have "rate_of s' i = DownloadRate (UpdateRates (clock env i) ps)"
    and "rate_of s' j = DownloadRate (the (fmlookup (rated env s) j))"
    using rate_of_run [OF assms(1,2), of i] rate_of_run [OF assms(1,2), of j] ps(1) qs(1)
    by (simp_all add: lookup_rated)
  then have "rate_of s' i \<le> rate_of s' j" using top j ps(2) by simp
  moreover have "fset ?T \<subseteq> unchoked s'" using unchoked_run [OF assms(1,2)] by blast
  then have "card (fset ?T) \<le> card (unchoked s')" using final(1) by (intro card_mono) simp_all
  moreover have "card (fset ?T) = MaxUnchokedPeers - 1" using top ps(2) by simp
  moreover have "j \<in> interested s'" unfolding final(2) using qs by (simp add: interested_def)
  ultimately show ?thesis by simp
qed

theorem unchoke_best_witness:
  "\<exists>as s'. RunUnchokeAlgorithm example_env example_swarm = (as, s') \<and>
     [1] \<notin> unchoked s' \<and> rate_of s' [1] \<le> rate_of s' [4]"
proof -
  obtain as s' where run: "RunUnchokeAlgorithm example_env example_swarm = (as, s')" by fastforce
  have env: "wrap64 (unchokeRound example_swarm + 1) = 1" "optimisticPeer example_swarm = zero20"
    "draw example_env = 1"
    by (simp_all add: example_swarm_def NewSwarm_def example_env_def int64_ok_def)
  have "optimisticPeer s' = [2]"
    using RunUnchoke_spec(3) [OF example_env_ok run]
    unfolding example_rated example_top env example_optimistic .
  moreover have "[1] \<in> interested s'"
    unfolding unchoked_final(2) [OF example_env_ok run]
    by (simp add: interested_def example_swarm_def fmap_of_list.rep_eq example_peer_def)
  ultimately show ?thesis
    using unchoke_best [OF example_env_ok run, of "[1]" "[4]"] example_unchoked [OF run] run by auto
qed

text \<open>
  Every interested peer can get the optimistic slot: in every third round there is a random draw
  that leaves it unchoked, whatever its rate.  (A peer with the all-zero id is the exception: that id
  stands for no optimistic peer.)
\<close>

theorem optimistic_reaches:
  assumes "env_ok env s" and "i \<in> interested s" and "i \<noteq> zero20"
    and "wrap64 (unchokeRound s + 1) smod OptimisticUnchokeInterval = 0"
  shows "\<exists>n. i \<in> unchoked (snd (RunUnchokeAlgorithm (env\<lparr>draw := n\<rparr>) s))"
proof -
  let ?T = "top_unchoked env (rated env s)"
  let ?choked = "filter (\<lambda>i. IsPeerInterested (state_at (rated env s) i) \<and> i |\<notin>| ?T) (choked_ord env)"
  obtain ps where ps: "fmlookup (peerStates s) i = Some ps" "PeerInterested ps"
    using assms(2) by (auto simp: interested_def)
  then have "i \<in> set (choked_ord env)"
    using assms(1) enumerates_lookup by (fastforce simp: env_ok_def)
  then have or: "i |\<in>| ?T \<or> i \<in> set ?choked"
    using ps by (auto simp: IsPeerInterested_def state_at_def lookup_rated)
  have ok: "env_ok (env\<lparr>draw := n\<rparr>) s" for n using assms(1) by (simp add: env_ok_def)
  have same: "rated (env\<lparr>draw := n\<rparr>) s = rated env s" "top_unchoked (env\<lparr>draw := n\<rparr>) (rated env s) = ?T" for n
    by (simp_all add: top_unchoked_def)
  show ?thesis
  proof (cases "i |\<in>| ?T")
    case True
    obtain as s' where run: "RunUnchokeAlgorithm (env\<lparr>draw := 0\<rparr>) s = (as, s')" by fastforce
    have "i \<in> unchoked s'" using True unfolding unchoked_run [OF ok run] same by simp
    then show ?thesis using run by (metis snd_conv)
  next
    case False
    then obtain n where n: "n < length ?choked" "?choked ! n = i" using or unfolding in_set_conv_nth by blast
    obtain as s' where run: "RunUnchokeAlgorithm (env\<lparr>draw := n\<rparr>) s = (as, s')" by fastforce
    have "?choked \<noteq> []" using n(1) by auto
    then have "choose_optimistic n (choked_ord env) (rated env s) ?T (wrap64 (unchokeRound s + 1)) (optimisticPeer s) = i"
      using assms(4) n by (simp add: choose_optimistic_def Let_def)
    then have "optimisticPeer s' = i" using RunUnchoke_spec(3) [OF ok run] by (simp add: same)
    then have "i \<in> unchoked s'" using assms(3) ps(1) unfolding unchoked_run [OF ok run] by simp
    then show ?thesis using run by (metis snd_conv)
  qed
qed

theorem optimistic_reaches_witness:
  "\<exists>n. [1] \<in> unchoked (snd (RunUnchokeAlgorithm (example_env\<lparr>draw := n\<rparr>) (example_swarm\<lparr>unchokeRound := 2\<rparr>)))"
proof (rule optimistic_reaches)
  show "env_ok example_env (example_swarm\<lparr>unchokeRound := 2\<rparr>)"
    using example_env_ok by (simp add: env_ok_def)
  show "[1] \<in> interested (example_swarm\<lparr>unchokeRound := 2\<rparr>)"
    by (simp add: interested_def example_swarm_def fmap_of_list.rep_eq example_peer_def)
qed (simp_all add: int64_ok_def OptimisticUnchokeInterval_def signed_modulo_int_def signed_divide_int_def)

text \<open>
  C23.  The rarest-first choice: whatever the iteration order and the coins drawn on ties, the result is
  a permutation of the pieces missing here and present at the peer, in order of rising availability
  over the bitfields of all known peers.
\<close>

theorem GetRarestMissingPieces_rarest:
  assumes "enumerates ord (peerBitfields s)" and "0 \<le> numPieces (swarm_pieces s)"
    and "8 * numPieces (swarm_pieces s) \<le> max_alloc"
  shows "\<exists>is. GetRarestMissingPieces ord coin s bf = Inr is \<and>
    mset is = mset (MissingPieces (swarm_pieces s) bf) \<and>
    sorted_wrt (\<lambda>i j. availability s (nat i) \<le> availability s (nat j)) is"
proof -
  obtain cs :: "pieceRarity list" where cs: "GetRarestMissingPieces ord coin s bf = Inr (map rar_index cs)"
    "mset (map rar_index cs) = mset (MissingPieces (swarm_pieces s) bf)"
    and sorted: "sorted_wrt (\<lambda>x y. rar_count x \<le> rar_count y) cs"
    and count: "\<forall>x \<in> set cs. rar_count x = availability s (nat (rar_index x))"
    using assms by (rule GetRarest_Inr)
  have "sorted_wrt (\<lambda>x y. availability s (nat (rar_index x)) \<le> availability s (nat (rar_index y))) cs"
    using sorted by (rule sorted_wrt_mono_rel [rotated]) (simp only: bspec [OF count])
  then have "sorted_wrt (\<lambda>i j. availability s (nat i) \<le> availability s (nat j)) (map rar_index cs)"
    unfolding sorted_wrt_map .
  with cs show ?thesis by blast
qed

theorem GetRarestMissingPieces_rarest_witness:
  "\<exists>is. GetRarestMissingPieces [[2], [1]] (\<lambda>k. even k) example_swarm [0xFF, 0xFF] = Inr is \<and>
     mset is = mset (MissingPieces (NewPieceManager 10) [0xFF, 0xFF])"
proof -
  have "enumerates [[2], [1]] (peerBitfields example_swarm)" "swarm_pieces example_swarm = NewPieceManager 10"
    by (auto simp: example_swarm_def enumerates_def NewSwarm_def)
  with GetRarestMissingPieces_rarest [of "[[2], [1]]" example_swarm "\<lambda>k. even k" "[0xFF, 0xFF]"]
  show ?thesis by (auto simp: NewPieceManager_def max_alloc_def)
qed

text \<open>
  C38.  A connection that is opened belongs to a peer of this torrent with an id that was not connected
  before: it is registered under the id the handshake carried, it starts choked and not interested, the
  first message queued to it is the bitfield of the pieces held, and no other connection is touched.
\<close>

theorem connection_opened:
  assumes "handleConn_open (OnPeer now) hash localID c outb write_ok e input h s = (w, Inr rest, h', s')"
    and "is20 hash" and "is20 localID"
  shows "\<exists>reserved peerID bf. input = handshake_bytes reserved hash peerID @ rest \<and> peerID \<noteq> localID \<and>
    fmlookup (peers s) peerID = None \<and> peers s' = fmupd peerID c (peers s) \<and>
    IsChoking s' peerID \<and> peerID \<notin> interested s' \<and>
    BitfieldOf (swarm_pieces s) = Inr bf \<and> outbox (h' c) = [frame (MsgBitfield # bf)] \<and>
    (\<forall>d. d \<noteq> c \<longrightarrow> h' d = h d)"
proof -
  obtain w' peerID rest' where hs:
    "DefaultHandshakeFunc hash localID outb write_ok e input = (w', Inr (peerID, rest'))"
    using assms(1)
    by (auto simp: handleConn_open_def Let_def split: prod.splits sum.splits fail.splits)
  then obtain resp where resp: "input = resp @ rest'" "length resp = 68" "check_response hash localID resp = Inr peerID"
    using assms(2,3) by (rule DefaultHandshakeFunc_Inr)
  then obtain reserved where "resp = handshake_bytes reserved hash peerID" "peerID \<noteq> localID"
    using check_response_Inr by blast
  moreover note handleConn_open_accepted [OF assms(1), of peerID rest']
  ultimately show ?thesis using hs resp(1)
    by (auto simp: IsChoking_def IsAmChoking_def interested_def NewPeerState_def split: if_splits sum.splits)
qed

definition example_remote :: bytes where
  "example_remote = handshake_bytes (replicate 8 0) zero20 (replicate 20 2) @ [0, 0, 0, 0]"

lemma example_remote_hs:
  "DefaultHandshakeFunc zero20 (replicate 20 1) False True EOF example_remote =
     (buildHandshake zero20 (replicate 20 1), Inr (replicate 20 2, [0, 0, 0, 0]))"
  unfolding example_remote_def by (rule DefaultHandshakeFunc_bytes) (simp_all add: is20_def zero20_def)

theorem connection_opened_witness:
  "\<exists>w h' s'. handleConn_open (OnPeer 0) zero20 (replicate 20 1) 3 False True EOF example_remote
      (\<lambda>_. NewTCPPeer True) example_swarm = (w, Inr [0, 0, 0, 0], h', s') \<and>
    (\<exists>bf. outbox (h' 3) = [frame (MsgBitfield # bf)])"
proof -
  let ?open = "handleConn_open (OnPeer 0) zero20 (replicate 20 1) 3 False True EOF example_remote
      (\<lambda>_. NewTCPPeer True) example_swarm"
  obtain w r h' s' where run: "?open = (w, r, h', s')" by (cases "?open") auto
  have "count_ok (numPieces (swarm_pieces example_swarm))"
    by (simp add: example_swarm_def NewSwarm_def NewPieceManager_def count_ok_def max_alloc_def)
  then obtain bf where "BitfieldOf (swarm_pieces example_swarm) = Inr bf" by (rule BitfieldOf_ok)
  moreover have "fmlookup (peers example_swarm) (replicate 20 2) = None"
    by (simp add: example_swarm_def NewSwarm_def)
  moreover have "replicate 20 (2 :: byte) \<noteq> replicate 20 1" by simp
  ultimately have "r = Inr [0, 0, 0, 0]"
    using handleConn_open_accepted [OF run, of "replicate 20 2" "[0, 0, 0, 0]"] by (simp add: example_remote_hs)
  moreover have "is20 (replicate 20 1)" by (simp add: is20_def)
  ultimately show ?thesis using run connection_opened [OF run [unfolded \<open>r = _\<close>] is20_zero20] by blast
qed

text \<open>
  A peer whose connection was lost cannot come back: nothing removes it from the swarm when its
  connection ends, so a new handshake with its id is refused and the new connection closed, even when
  the registered connection is closed.
\<close>

theorem reconnect_rejected:
  assumes "fmlookup (peers s) peerID = Some d" and "is_closed (h d)" and "c \<noteq> d"
    and "is20 hash" and "is20 localID" and "is20 peerID" and "peerID \<noteq> localID"
  shows "\<exists>w h'. handleConn_open (OnPeer now) hash localID c outb True e (buildHandshake hash peerID @ rest) h s =
      (w, Inl (Err (Rejected (PeerAlreadyExists peerID))), h', s) \<and> is_closed (h' c) \<and> is_closed (h' d)"
proof -
  let ?open = "handleConn_open (OnPeer now) hash localID c outb True e (buildHandshake hash peerID @ rest) h s"
  obtain w r h' s' where run: "?open = (w, r, h', s')" by (cases ?open) auto
  have "DefaultHandshakeFunc hash localID outb True e (buildHandshake hash peerID @ rest) =
      (buildHandshake hash localID, Inr (peerID, rest))"
    unfolding buildHandshake_bytes [of _ peerID] by (rule DefaultHandshakeFunc_bytes) (use assms in simp_all)
  with handleConn_open_accepted [OF run, of peerID rest] assms run show ?thesis by auto
qed

theorem reconnect_rejected_witness:
  "\<exists>w h'. handleConn_open (OnPeer 9) zero20 (replicate 20 1) 8 False True EOF
      (buildHandshake zero20 (replicate 20 2) @ []) (\<lambda>_. Close (NewTCPPeer True))
      ((NewSwarm (replicate 20 1) zero20 (NewPieceManager 4))\<lparr>peers := fmupd (replicate 20 2) 7 fmempty\<rparr>) =
      (w, Inl (Err (Rejected (PeerAlreadyExists (replicate 20 2)))), h',
       (NewSwarm (replicate 20 1) zero20 (NewPieceManager 4))\<lparr>peers := fmupd (replicate 20 2) 7 fmempty\<rparr>) \<and>
      is_closed (h' 8) \<and> is_closed (h' 7)"
  by (rule reconnect_rejected) (simp_all add: is20_def zero20_def)

end
