(* ===== verification/Seeding.thy ===== *)
theory Seeding
  imports Piece_Manager Go_Hex
begin

text \<open>
  What the commands \<open>seed\<close>, \<open>download\<close> and \<open>connect\<close> (\<open>src/cmd/\<close>) set up before they start the torrent
  server: the seeder cuts a file into pieces, hashes them and fills its piece manager; the downloader
  builds its manager from the command line the seeder prints.  \<open>ReconstructData\<close>
  (\<open>src/torrent_server/handler.go\<close>) is the way back from pieces to data.  Reading the file, the flags
  and the terminal output are left out; the data and the flags are arguments.
\<close>

section \<open>The seeder\<close>

definition seed_num_pieces :: "int \<Rightarrow> int \<Rightarrow> go_panic + int" where
  "seed_num_pieces len s =
     (if s = 0 then Inl DivideByZero else Inr (wrap64 (wrap64 (wrap64 (len + s) - 1) sdiv s)))"

text \<open>\<open>data[start:end]\<close> of both loops, with \<open>end\<close> cut at the length of the data.\<close>

definition seed_piece :: "bytes \<Rightarrow> int \<Rightarrow> nat \<Rightarrow> go_panic + bytes" where
  "seed_piece data s i =
     (let start = wrap64 (int i * s);
          end' = wrap64 (start + s);
          end'' = (if end' > int (length data) then int (length data) else end')
      in go_slice data start end'')"

text \<open>\<open>copy(buf[off:], xs)\<close> for a range that lies inside the buffer.\<close>

definition copy_at :: "'a list \<Rightarrow> nat \<Rightarrow> 'a list \<Rightarrow> 'a list" where
  "copy_at buf off xs = take off buf @ xs @ drop (off + length xs) buf"

fun seed_hashes :: "bytes \<Rightarrow> int \<Rightarrow> nat list \<Rightarrow> bytes \<Rightarrow> go_panic + bytes" where
  "seed_hashes data s [] buf = Inr buf"
| "seed_hashes data s (i # is) buf =
     bindE (seed_piece data s i) (\<lambda>p. seed_hashes data s is (copy_at buf (i * 20) (sha1_Sum p)))"

fun seed_pieces :: "bytes \<Rightarrow> int \<Rightarrow> nat list \<Rightarrow> piece_manager \<Rightarrow> go_panic + piece_manager" where
  "seed_pieces data s [] pm = Inr pm"
| "seed_pieces data s (i # is) pm =
     bindE (seed_piece data s i) (\<lambda>p.
       seed_pieces data s is (case AddPiece pm (int i) p of Inl _ \<Rightarrow> pm | Inr pm' \<Rightarrow> pm'))"

definition runSeed :: "bytes \<Rightarrow> int \<Rightarrow> go_panic + id20 \<times> piece_manager" where
  "runSeed data s =
     (let infoHash = sha1_Sum data in
      bindE (seed_num_pieces (int (length data)) s) (\<lambda>n.
      bindE (make_bytes (wrap64 (n * 20))) (\<lambda>buf.
      bindE (seed_hashes data s [0..<nat n] buf) (\<lambda>hashes.
      bindE (seed_pieces data s [0..<nat n] (NewPieceManagerWithHashes n hashes)) (\<lambda>pm.
      Inr (infoHash, pm))))))"

section \<open>The downloader and the observer\<close>

datatype setup_err =
    BadInfoHashLength
  | InvalidInfoHash hex_err
  | InvalidPieceHashes hex_err

definition parse_info_hash :: "string \<Rightarrow> setup_err + id20" where
  "parse_info_hash s =
     (if length s \<noteq> 40 then Inl BadInfoHashLength
      else case hex_decode s of Inl e \<Rightarrow> Inl (InvalidInfoHash e) | Inr bs \<Rightarrow> Inr bs)"

definition runDownload :: "string \<Rightarrow> int \<Rightarrow> string \<Rightarrow> setup_err + id20 \<times> piece_manager" where
  "runDownload infoHashHex n hashesHex =
     bindE (parse_info_hash infoHashHex) (\<lambda>infoHash.
     bindE (if hashesHex = [] then Inr []
            else case hex_decode hashesHex of Inl e \<Rightarrow> Inl (InvalidPieceHashes e) | Inr bs \<Rightarrow> Inr bs)
       (\<lambda>pieceHashes.
         Inr (infoHash, if pieceHashes \<noteq> [] then NewPieceManagerWithHashes n pieceHashes
                        else NewPieceManager n)))"

definition runConnect :: "string \<Rightarrow> int \<Rightarrow> setup_err + id20 \<times> piece_manager" where
  "runConnect infoHashHex n =
     bindE (parse_info_hash infoHashHex) (\<lambda>infoHash. Inr (infoHash, NewPieceManager n))"

section \<open>Reconstruction\<close>

fun reconstruct_loop :: "piece_manager \<Rightarrow> nat list \<Rightarrow> bytes \<Rightarrow> bytes option" where
  "reconstruct_loop pm [] data = Some data"
| "reconstruct_loop pm (i # is) data =
     (case GetPiece pm (int i) of
        None \<Rightarrow> None
      | Some p \<Rightarrow> reconstruct_loop pm is (data @ p))"

definition ReconstructData :: "piece_manager \<Rightarrow> bytes option" where
  "ReconstructData pm = reconstruct_loop pm [0..<nat (NumPieces pm)] []"

lemma reconstruct_loop_Some:
  "\<forall>i \<in> set is. GetPiece pm (int i) = Some (f i) \<Longrightarrow>
     reconstruct_loop pm is acc = Some (acc @ concat (map f is))"
  by (induction "is" arbitrary: acc) simp_all

lemma reconstruct_loop_None:
  "reconstruct_loop pm is acc = None \<longleftrightarrow> (\<exists>i \<in> set is. GetPiece pm (int i) = None)"
  by (induction "is" arbitrary: acc) (auto split: option.splits)

lemma ReconstructData_Some:
  assumes "\<And>i. i < nat (numPieces pm) \<Longrightarrow> GetPiece pm (int i) = Some (f i)"
  shows "ReconstructData pm = Some (concat (map f [0..<nat (numPieces pm)]))"
  using reconstruct_loop_Some [of "[0..<nat (numPieces pm)]" pm f "[]"] assms
  by (simp add: ReconstructData_def NumPieces_def)

lemma ReconstructData_None:
  "ReconstructData pm = None \<longleftrightarrow> (\<exists>i < nat (numPieces pm). GetPiece pm (int i) = None)"
  by (auto simp: ReconstructData_def NumPieces_def reconstruct_loop_None)

section \<open>Cutting into pieces\<close>

text \<open>Piece \<open>i\<close> of the data, as a client of the library would state it.\<close>

definition chunk :: "nat \<Rightarrow> bytes \<Rightarrow> nat \<Rightarrow> bytes" where
  "chunk k data i = take k (drop (i * k) data)"

definition chunk_count :: "nat \<Rightarrow> bytes \<Rightarrow> nat" where
  "chunk_count k data = (length data + k - 1) div k"

text \<open>The flags with which seeding neither overflows nor exhausts an allocation.\<close>

definition seed_ok :: "bytes \<Rightarrow> nat \<Rightarrow> bool" where
  "seed_ok data k \<longleftrightarrow> 0 < k \<and> length data + k < 2 ^ 63 \<and> int (chunk_count k data * 20) \<le> max_alloc"

lemma concat_chunks: "concat (map (chunk k data) [0..<n]) = take (n * k) data"
proof (induction n)
  case 0
  show ?case by simp
next
  case (Suc n)
  have "take (Suc n * k) data = take (n * k) data @ take k (drop (n * k) data)"
    using take_add [of "n * k" k data] by (simp add: add.commute)
  with Suc show ?case by (simp add: chunk_def)
qed

lemma chunk_count_enough: "0 < k \<Longrightarrow> length data \<le> chunk_count k data * k"
proof -
  assume "0 < k"
  then have "length data + k - 1 < ((length data + k - 1) div k + 1) * k"
    by (metis dividend_less_div_times mult.commute add.commute mult_Suc plus_1_eq_Suc)
  with \<open>0 < k\<close> show ?thesis by (simp add: chunk_count_def)
qed

lemma chunk_start:
  assumes "0 < k" and "i < chunk_count k data"
  shows "i * k < length data"
proof -
  have "i + 1 \<le> (length data + k - 1) div k" using assms(2) by (simp add: chunk_count_def)
  then have "(i + 1) * k \<le> length data + k - 1"
    using assms(1) by (metis div_times_less_eq_dividend le_trans mult_le_mono1)
  with assms(1) show ?thesis by simp
qed

lemma concat_all_chunks: "0 < k \<Longrightarrow> concat (map (chunk k data) [0..<chunk_count k data]) = data"
  by (simp add: concat_chunks chunk_count_enough)

section \<open>Seeding succeeds\<close>

lemma seed_num_pieces_ok:
  assumes "seed_ok data k"
  shows "seed_num_pieces (int (length data)) (int k) = Inr (int (chunk_count k data))"
proof -
  have k: "0 < k" and small: "length data + k < 2 ^ 63" using assms by (simp_all add: seed_ok_def)
  have sum: "int (length data) + int k - 1 = int (length data + k - 1)" using k by simp
  have "int (length data + k) < 2 ^ 63" and "int (length data + k - 1) < 2 ^ 63" using small by simp_all
  then have "int64_ok (int (length data) + int k)" and "int64_ok (int (length data + k - 1))"
    by (simp_all add: int64_ok_def)
  then have "wrap64 (wrap64 (int (length data) + int k) - 1) = int (length data + k - 1)"
    by (simp add: sum)
  moreover have "int (length data + k - 1) sdiv int k = int (chunk_count k data)"
    using k by (simp add: signed_divide_int_def chunk_count_def zdiv_int sgn_if)
  moreover have "int64_ok (int (chunk_count k data))"
    using assms by (simp add: seed_ok_def max_alloc_def int64_ok_def)
  ultimately show ?thesis using k by (simp add: seed_num_pieces_def)
qed

lemma seed_piece_chunk:
  assumes "seed_ok data k" and "i < chunk_count k data"
  shows "seed_piece data (int k) i = Inr (chunk k data i)"
proof -
  have k: "0 < k" and small: "length data + k < 2 ^ 63" using assms(1) by (simp_all add: seed_ok_def)
  have start: "i * k < length data" using k assms(2) by (rule chunk_start)
  then have "i * k + k < 2 ^ 63" and "i * k < 2 ^ 63" using small by linarith+
  then have "int (i * k + k) < 2 ^ 63" and "int (i * k) < 2 ^ 63"
    by (metis of_nat_less_iff of_nat_numeral of_nat_power)+
  then have "int64_ok (int (i * k + k))" and "int64_ok (int (i * k))"
    by (simp_all only: int64_ok_small of_nat_0_le_iff)
  then have w: "wrap64 (int i * int k) = int (i * k)" "wrap64 (int (i * k) + int k) = int (i * k + k)"
    by simp_all
  have "seed_piece data (int k) i = go_slice data (int (i * k)) (int (min (length data) (i * k + k)))"
    unfolding seed_piece_def Let_def w by (auto simp: min_def not_less simp flip: of_nat_add of_nat_mult)
  also have "\<dots> = Inr (take (min (length data) (i * k + k) - i * k) (drop (i * k) data))"
    using start by (intro go_slice_nat) simp_all
  also have "take (min (length data) (i * k + k) - i * k) (drop (i * k) data) = chunk k data i"
    by (simp add: chunk_def min_def)
  finally show ?thesis .
qed

definition chunk_hashes :: "nat \<Rightarrow> bytes \<Rightarrow> nat \<Rightarrow> bytes" where
  "chunk_hashes k data n = concat (map (\<lambda>i. sha1_Sum (chunk k data i)) [0..<n])"

lemma chunk_hashes_Suc: "chunk_hashes k data (Suc n) = chunk_hashes k data n @ sha1_Sum (chunk k data n)"
  by (simp add: chunk_hashes_def)

lemma length_chunk_hashes [simp]: "length (chunk_hashes k data n) = n * 20"
  by (induction n) (simp_all add: chunk_hashes_Suc chunk_hashes_def [of k data 0])

lemma chunk_hashes_nth:
  "i < n \<Longrightarrow> take 20 (drop (i * 20) (chunk_hashes k data n)) = sha1_Sum (chunk k data i)"
proof (induction n)
  case 0
  then show ?case by simp
next
  case (Suc n)
  show ?case
  proof (cases "i = n")
    case True
    then show ?thesis by (simp add: chunk_hashes_Suc)
  next
    case False
    with Suc have "i < n" by simp
    then have "i * 20 + 20 \<le> n * 20" by simp
    with Suc \<open>i < n\<close> show ?thesis by (simp add: chunk_hashes_Suc)
  qed
qed

lemma copy_at_prefix:
  assumes "take off buf = pre" and "off \<le> length buf"
  shows "take (off + length xs) (copy_at buf off xs) = pre @ xs"
  unfolding copy_at_def assms(1) [symmetric] using assms(2) by simp

lemma length_copy_at: "off + length xs \<le> length buf \<Longrightarrow> length (copy_at buf off xs) = length buf"
  by (simp add: copy_at_def)

lemma seed_hashes_ok:
  assumes "seed_ok data k" and "n \<le> chunk_count k data"
    and "m \<le> n" and "length buf = n * 20" and "take (m * 20) buf = chunk_hashes k data m"
  shows "seed_hashes data (int k) [m..<n] buf = Inr (chunk_hashes k data n)"
  using assms(3-5)
proof (induction arbitrary: buf rule: inc_induct)
  case base
  then show ?case by simp
next
  case (step m)
  let ?buf = "copy_at buf (m * 20) (sha1_Sum (chunk k data m))"
  have "m * 20 + 20 \<le> length buf" using step.hyps(2) step.prems(1) by simp
  then have "length ?buf = n * 20" and "take (Suc m * 20) ?buf = chunk_hashes k data (Suc m)"
    using copy_at_prefix [OF step.prems(2), of "sha1_Sum (chunk k data m)"] step.prems(1)
    by (simp_all add: length_copy_at chunk_hashes_Suc add.commute)
  from step.IH [OF this] have "seed_hashes data (int k) [Suc m..<n] ?buf = Inr (chunk_hashes k data n)" .
  moreover have "seed_piece data (int k) m = Inr (chunk k data m)"
    using seed_piece_chunk [OF assms(1), of m] step.hyps(2) assms(2) by simp
  ultimately show ?case using step.hyps(2) by (simp add: upt_conv_Cons)
qed

text \<open>The manager of a seeder: all the chunks, and their hashes.\<close>

definition holds_chunks :: "nat \<Rightarrow> bytes \<Rightarrow> nat \<Rightarrow> piece_manager \<Rightarrow> bool" where
  "holds_chunks k data m pm \<longleftrightarrow>
     (\<forall>i. GetPiece pm i = (if 0 \<le> i \<and> i < int m then Some (chunk k data (nat i)) else None))"

definition same_torrent :: "nat \<Rightarrow> bytes \<Rightarrow> piece_manager \<Rightarrow> bool" where
  "same_torrent k data pm \<longleftrightarrow> numPieces pm = int (chunk_count k data) \<and>
     pieceHashes pm = Some (chunk_hashes k data (chunk_count k data))"

lemma seed_pieces_ok:
  assumes "seed_ok data k" and "n \<le> chunk_count k data"
    and "m \<le> n" and "same_torrent k data pm" and "holds_chunks k data m pm"
  shows "\<exists>pm'. seed_pieces data (int k) [m..<n] pm = Inr pm' \<and> same_torrent k data pm' \<and> holds_chunks k data n pm'"
  using assms(3-5)
proof (induction arbitrary: pm rule: inc_induct)
  case base
  then show ?case by simp
next
  case (step m)
  let ?pm = "pm\<lparr>pieces := fmupd (int m) (chunk k data m) (pieces pm)\<rparr>"
  have "AddPiece pm (int m) (chunk k data m) = Inr ?pm"
    using step.hyps(2) step.prems assms(2)
    by (auto simp: AddPiece_Inr_iff same_torrent_def holds_chunks_def GetPiece_def)
  moreover have "same_torrent k data ?pm" using step.prems(1) by (simp add: same_torrent_def)
  moreover have "holds_chunks k data (Suc m) ?pm"
    using step.prems(2) by (auto simp: holds_chunks_def GetPiece_def)
  moreover have "seed_piece data (int k) m = Inr (chunk k data m)"
    using seed_piece_chunk [OF assms(1), of m] step.hyps(2) assms(2) by simp
  ultimately show ?case using step.hyps(2) step.IH [of ?pm] by (simp add: upt_conv_Cons)
qed

lemma runSeed_ok:
  assumes "seed_ok data k"
  obtains pm where "runSeed data (int k) = Inr (sha1_Sum data, pm)"
    and "same_torrent k data pm" and "holds_chunks k data (chunk_count k data) pm"
proof -
  let ?n = "chunk_count k data"
  let ?pm = "NewPieceManagerWithHashes (int ?n) (chunk_hashes k data ?n)"
  have n: "0 \<le> int ?n * 20" "int ?n * 20 \<le> max_alloc" using assms by (simp_all add: seed_ok_def)
  then have "wrap64 (int ?n * 20) = int ?n * 20" by (simp add: int64_ok_def max_alloc_def)
  with n have buf: "make_bytes (wrap64 (int ?n * 20)) = Inr (replicate (?n * 20) 0)"
    by (simp add: make_bytes_def nat_mult_distrib)
  have hashes: "seed_hashes data (int k) [0..<?n] (replicate (?n * 20) 0) = Inr (chunk_hashes k data ?n)"
    by (rule seed_hashes_ok [OF assms]) (simp_all add: chunk_hashes_def)
  have "same_torrent k data ?pm" and "holds_chunks k data 0 ?pm"
    by (simp_all add: same_torrent_def holds_chunks_def GetPiece_def NewPieceManagerWithHashes_def)
  then obtain pm where pm: "seed_pieces data (int k) [0..<?n] ?pm = Inr pm"
    "same_torrent k data pm" "holds_chunks k data ?n pm"
    using seed_pieces_ok [OF assms, of ?n 0 ?pm] by auto
  have "runSeed data (int k) = Inr (sha1_Sum data, pm)"
    by (simp add: runSeed_def seed_num_pieces_ok [OF assms] buf hashes pm(1))
  from this pm(2,3) show thesis by (rule that)
qed

section \<open>Downloading\<close>

lemma VerifyPiece_same:
  assumes "same_torrent k data pm"
  shows "VerifyPiece pm i d \<longleftrightarrow>
    0 \<le> i \<and> i < int (chunk_count k data) \<and> sha1_Sum d = sha1_Sum (chunk k data (nat i))"
proof (cases "0 \<le> i \<and> i < int (chunk_count k data)")
  case True
  then obtain j where j: "i = int j" "j < chunk_count k data" using zero_le_imp_eq_int by auto
  then have "i * 20 + 20 \<le> int (chunk_count k data * 20)" by simp
  with j assms show ?thesis
    by (auto simp: VerifyPiece_def Let_def same_torrent_def nat_mult_distrib chunk_hashes_nth)
next
  case False
  with assms show ?thesis by (auto simp: VerifyPiece_def same_torrent_def)
qed

text \<open>The manager a downloader starts with, when it is given what the seeder prints.\<close>

lemma runDownload_printed:
  assumes "0 < k"
  shows "runDownload (hex_encode (sha1_Sum data)) (int (chunk_count k data))
      (hex_encode (chunk_hashes k data (chunk_count k data))) =
    Inr (sha1_Sum data,
      if data = [] then NewPieceManager 0
      else NewPieceManagerWithHashes (int (chunk_count k data)) (chunk_hashes k data (chunk_count k data)))"
proof -
  have "chunk_count k data = 0 \<longleftrightarrow> data = []"
    using chunk_count_enough [OF assms, of data] assms by (auto simp: chunk_count_def)
  moreover have "chunk_hashes k data n = [] \<longleftrightarrow> n = 0" for n
    by (metis length_0_conv length_chunk_hashes mult_is_0 zero_neq_numeral)
  moreover have "parse_info_hash (hex_encode (sha1_Sum data)) = Inr (sha1_Sum data)"
    by (simp add: parse_info_hash_def)
  ultimately show ?thesis by (cases "data = []") (simp_all add: runDownload_def)
qed

lemma offers_frame:
  "numPieces (foldl (\<lambda>s (i, d). offer VerifyPiece AddPiece s i d) pm ps) = numPieces pm \<and>
   pieceHashes (foldl (\<lambda>s (i, d). offer VerifyPiece AddPiece s i d) pm ps) = pieceHashes pm"
  by (induction ps arbitrary: pm) (auto simp: offer_def AddPiece_def)

lemma offers_inv: "pm_inv pm \<Longrightarrow> pm_inv (foldl (\<lambda>s (i, d). offer VerifyPiece AddPiece s i d) pm ps)"
proof (induction ps arbitrary: pm)
  case Nil
  then show ?case by simp
next
  case (Cons p ps)
  obtain i d where p: "p = (i, d)" by fastforce
  have "pm_inv (offer VerifyPiece AddPiece pm i d)"
    using Cons.prems by (auto simp: offer_def split: sum.splits intro: AddPiece_inv)
  with p show ?case by (simp add: Cons.IH)
qed

lemma offers_hold:
  assumes "(i, d) \<in> set ps" and "VerifyPiece pm i d" and "0 \<le> i" and "i < numPieces pm"
  shows "GetPiece (foldl (\<lambda>s (i, d). offer VerifyPiece AddPiece s i d) pm ps) i \<noteq> None"
  using assms
proof (induction ps arbitrary: pm)
  case Nil
  then show ?case by simp
next
  case (Cons p ps)
  let ?all = "foldl (\<lambda>s (i, d). offer VerifyPiece AddPiece s i d)"
  obtain j e where p: "p = (j, e)" by fastforce
  let ?pm = "offer VerifyPiece AddPiece pm j e"
  have frame: "numPieces ?pm = numPieces pm" using offers_frame [of pm "[(j, e)]"] by simp
  show ?case
  proof (cases "(i, d) \<in> set ps")
    case True
    with Cons.IH [of ?pm] Cons.prems p frame show ?thesis by (simp add: pm_store.offer_verify)
  next
    case False
    with Cons.prems(1) p have "j = i" "e = d" by auto
    with Cons.prems have "GetPiece ?pm i \<noteq> None"
      by (auto simp: offer_def AddPiece_def GetPiece_def)
    moreover have "GetPiece s i = Some x \<Longrightarrow> GetPiece (?all s qs) i = Some x" for s qs x
    proof (induction qs arbitrary: s)
      case Nil
      then show ?case by simp
    next
      case (Cons q qs)
      then show ?case by (cases q) (simp add: pm_store.offer_mono)
    qed
    ultimately show ?thesis using p by auto
  qed
qed

lemma offers_verified_chunks:
  assumes same: "same_torrent k data pm" and new: "pieces pm = fmempty"
    and pm': "pm' = foldl (\<lambda>s (i, d). offer VerifyPiece AddPiece s i d) pm ps"
    and get: "GetPiece pm' (int i) = Some d"
  shows "(int i, d) \<in> set ps" and "i < chunk_count k data" and "sha1_Sum d = sha1_Sum (chunk k data i)"
proof -
  have "GetPiece pm j = None" for j using new by (simp add: GetPiece_def)
  then show "(int i, d) \<in> set ps" using pm_store.offers_source [of pm ps "int i" d] get pm' by auto
  have "VerifyPiece pm (int i) d"
    using pm_store.offers_integrity [of pm ps "int i" d] get pm' new by (auto simp: GetPiece_def)
  then show "i < chunk_count k data" and "sha1_Sum d = sha1_Sum (chunk k data i)"
    using VerifyPiece_same [OF same] by auto
qed

lemma ReconstructData_chunks:
  assumes "0 < k" and "numPieces pm = int (chunk_count k data)"
    and "\<And>i. i < chunk_count k data \<Longrightarrow> GetPiece pm (int i) = Some (chunk k data i)"
  shows "ReconstructData pm = Some data"
  using ReconstructData_Some [of pm "chunk k data"] assms by (simp add: concat_all_chunks)

lemma all_pieces:
  assumes "pm_inv pm" and "0 \<le> numPieces pm"
  shows "AllPiecesReceived pm \<longleftrightarrow> (\<forall>i < nat (numPieces pm). GetPiece pm (int i) \<noteq> None)"
proof -
  have "AllPiecesReceived pm \<longleftrightarrow> (\<forall>i. 0 \<le> i \<and> i < numPieces pm \<longrightarrow> GetPiece pm i \<noteq> None)"
    using ReceivedCount_le(2) [OF assms] by (simp add: AllPiecesReceived_def)
  also have "\<dots> \<longleftrightarrow> (\<forall>i < nat (numPieces pm). GetPiece pm (int i) \<noteq> None)"
    by (metis assms(2) nat_0_le of_nat_0_le_iff zless_nat_eq_int_zless nat_less_iff)
  finally show ?thesis .
qed

lemma download_start:
  assumes "seed_ok data k" and "runSeed data (int k) = Inr (h, seeder)" and "pieceHashes seeder = Some hs"
    and "runDownload (hex_encode h) (numPieces seeder) (hex_encode hs) = Inr (h', pm)"
  shows "h' = sha1_Sum data" and "numPieces pm = int (chunk_count k data)" and "pieces pm = fmempty"
    and "pm_inv pm" and "data \<noteq> [] \<Longrightarrow> same_torrent k data pm"
proof -
  obtain s where s: "runSeed data (int k) = Inr (sha1_Sum data, s)" "same_torrent k data s"
    using assms(1) by (rule runSeed_ok)
  with assms(2) have "h = sha1_Sum data" "seeder = s" by simp_all
  with s(2) assms(3) have *: "h = sha1_Sum data" "numPieces seeder = int (chunk_count k data)"
    "hs = chunk_hashes k data (chunk_count k data)" by (simp_all add: same_torrent_def)
  have "0 < k" using assms(1) by (simp add: seed_ok_def)
  from runDownload_printed [OF this, of data] assms(4)
  have h': "h' = sha1_Sum data" and pm: "pm = (if data = [] then NewPieceManager 0
      else NewPieceManagerWithHashes (int (chunk_count k data)) (chunk_hashes k data (chunk_count k data)))"
    unfolding * by simp_all
  show "h' = sha1_Sum data" by (rule h')
  show "numPieces pm = int (chunk_count k data)"
    using \<open>0 < k\<close> by (simp add: pm NewPieceManager_def NewPieceManagerWithHashes_def chunk_count_def)
  show "pieces pm = fmempty" and "pm_inv pm"
    by (simp_all add: pm NewPieceManager_def NewPieceManagerWithHashes_def pm_inv_def)
  show "same_torrent k data pm" if "data \<noteq> []"
    using that by (simp add: pm same_torrent_def NewPieceManagerWithHashes_def)
qed

lemma download_all_chunks:
  assumes start: "seed_ok data k" "runSeed data (int k) = Inr (h, seeder)" "pieceHashes seeder = Some hs"
      "runDownload (hex_encode h) (numPieces seeder) (hex_encode hs) = Inr (h', pm)"
    and all: "\<forall>i < chunk_count k data. (int i, chunk k data i) \<in> set ps"
  shows "AllPiecesReceived (foldl (\<lambda>s (i, d). offer VerifyPiece AddPiece s i d) pm ps)" (is "AllPiecesReceived ?pm'")
proof -
  note pm = download_start [OF start]
  have frame: "numPieces ?pm' = int (chunk_count k data)" by (simp add: offers_frame pm(2))
  have "GetPiece ?pm' (int i) \<noteq> None" if "i < chunk_count k data" for i
  proof (rule offers_hold)
    show "(int i, chunk k data i) \<in> set ps" using all that by simp
    have "data \<noteq> []" using that start(1) by (auto simp: chunk_count_def seed_ok_def)
    then show "VerifyPiece pm (int i) (chunk k data i)" using VerifyPiece_same [OF pm(5)] that by simp
  qed (use that pm(2) in simp_all)
  then show ?thesis using all_pieces [OF offers_inv [OF pm(4)], of ps] frame by simp
qed

text \<open>The file, from pieces that are all there and none of which is a collision.\<close>

lemma held_reconstruct:
  assumes start: "seed_ok data k" "runSeed data (int k) = Inr (h, seeder)" "pieceHashes seeder = Some hs"
      "runDownload (hex_encode h) (numPieces seeder) (hex_encode hs) = Inr (h', pm)"
    and pm': "pm' = foldl (\<lambda>s (i, d). offer VerifyPiece AddPiece s i d) pm ps" "AllPiecesReceived pm'"
    and held: "\<And>i d. i < chunk_count k data \<Longrightarrow> GetPiece pm' (int i) = Some d \<Longrightarrow>
      sha1_Sum d = sha1_Sum (chunk k data i) \<Longrightarrow> d = chunk k data i"
  shows "ReconstructData pm' = Some data"
proof -
  note pm = download_start [OF start]
  have k: "0 < k" using start(1) by (simp add: seed_ok_def)
  have n: "numPieces pm' = int (chunk_count k data)" by (simp add: pm'(1) offers_frame pm(2))
  show ?thesis
  proof (rule ReconstructData_chunks [OF k n])
    fix i
    assume i: "i < chunk_count k data"
    then have "data \<noteq> []" using k by (auto simp: chunk_count_def)
    then have same: "same_torrent k data pm" by (rule pm(5))
    obtain d where d: "GetPiece pm' (int i) = Some d"
      using all_pieces [OF offers_inv [OF pm(4)], of ps] pm' n i by auto
    with offers_verified_chunks(3) [OF same pm(3) pm'(1) d] held [OF i d]
    show "GetPiece pm' (int i) = Some (chunk k data i)" by auto
  qed
qed

lemma offers_reconstruct:
  assumes start: "seed_ok data k" "runSeed data (int k) = Inr (h, seeder)" "pieceHashes seeder = Some hs"
      "runDownload (hex_encode h) (numPieces seeder) (hex_encode hs) = Inr (h', pm)"
    and pm': "pm' = foldl (\<lambda>s (i, d). offer VerifyPiece AddPiece s i d) pm ps" "AllPiecesReceived pm'"
    and no_collision: "\<not> (\<exists>i d. (int i, d) \<in> set ps \<and> i < chunk_count k data \<and> d \<noteq> chunk k data i \<and>
        sha1_Sum d = sha1_Sum (chunk k data i))"
  shows "ReconstructData pm' = Some data"
proof (rule held_reconstruct [OF start pm'])
  fix i d
  assume i: "i < chunk_count k data" and d: "GetPiece pm' (int i) = Some d"
    and sha: "sha1_Sum d = sha1_Sum (chunk k data i)"
  note pm = download_start [OF start]
  have "data \<noteq> []" using i start(1) by (auto simp: chunk_count_def seed_ok_def)
  then have "(int i, d) \<in> set ps" using offers_verified_chunks(1) [OF pm(5) pm(3) pm'(1) d] by blast
  with no_collision i sha show "d = chunk k data i" by blast
qed
section \<open>Properties\<close>

definition example_data :: bytes where
  "example_data = [1, 2, 3]"

definition example_offers :: "(int \<times> bytes) list" where
  "example_offers = [(0, [9, 9]), (1, [3]), (0, [1, 2]), (7, [])]"

lemma example_count: "chunk_count 2 example_data = 2"
  by (simp add: chunk_count_def example_data_def)

lemma example_seed_ok: "seed_ok example_data 2"
  by (simp add: seed_ok_def example_count max_alloc_def) (simp add: example_data_def)

lemma example_chunks: "chunk 2 example_data 0 = [1, 2]" "chunk 2 example_data 1 = [3]"
  by (simp_all add: chunk_def example_data_def)

lemma example_offered: "\<forall>i < chunk_count 2 example_data. (int i, chunk 2 example_data i) \<in> set example_offers"
  by (auto simp: example_count less_2_iff example_chunks example_chunks [simplified] example_offers_def)

lemma example_start:
  obtains s hs h' pm where "runSeed example_data (int 2) = Inr (sha1_Sum example_data, s)"
    and "pieceHashes s = Some hs"
    and "runDownload (hex_encode (sha1_Sum example_data)) (numPieces s) (hex_encode hs) = Inr (h', pm)"
proof -
  obtain s where s: "runSeed example_data (int 2) = Inr (sha1_Sum example_data, s)"
    and same: "same_torrent 2 example_data s"
    using example_seed_ok by (rule runSeed_ok)
  then have hs: "pieceHashes s = Some (chunk_hashes 2 example_data (chunk_count 2 example_data))"
    and n: "numPieces s = int (chunk_count 2 example_data)" by (simp_all add: same_torrent_def)
  show thesis
    by (rule that [OF s hs]) (simp only: n runDownload_printed [of 2 example_data, simplified])
qed

text \<open>
  C12.  Seeding a file succeeds for every positive piece size whose sum with the length of the file stays
  below \<open>2 ^ 63\<close> (otherwise the number of pieces overflows) and with which the hashes of all pieces fit one
  allocation, and it leaves a manager that holds every piece, each matching its hash, and from which the
  file is reconstructed.
\<close>

theorem runSeed_complete:
  assumes "seed_ok data k"
  shows "\<exists>pm. runSeed data (int k) = Inr (sha1_Sum data, pm) \<and> pm_inv pm \<and> pm_verified pm \<and>
    AllPiecesReceived pm \<and> ReconstructData pm = Some data"
proof -
  obtain pm where pm: "runSeed data (int k) = Inr (sha1_Sum data, pm)"
    and same: "same_torrent k data pm" and hold: "holds_chunks k data (chunk_count k data) pm"
    using assms by (rule runSeed_ok)
  have get: "GetPiece pm (int i) = Some (chunk k data i)" if "i < chunk_count k data" for i
    using hold that by (simp add: holds_chunks_def)
  have inv: "pm_inv pm"
    using hold same by (auto simp: pm_inv_def holds_chunks_def GetPiece_def same_torrent_def fmlookup_dom_iff
        split: if_splits)
  have "pm_verified pm"
    using hold by (auto simp: pm_verified_def holds_chunks_def VerifyPiece_same [OF same] split: if_splits)
  moreover have "AllPiecesReceived pm"
    using all_pieces [OF inv] same get by (simp add: same_torrent_def)
  moreover have "ReconstructData pm = Some data"
    using assms same get by (intro ReconstructData_chunks) (simp_all add: seed_ok_def same_torrent_def)
  ultimately show ?thesis using pm inv by blast
qed

theorem runSeed_complete_witness:
  "\<exists>pm. runSeed [1, 2, 3] 2 = Inr (sha1_Sum [1, 2, 3], pm) \<and> ReconstructData pm = Some [1, 2, 3]"
  using runSeed_complete [OF example_seed_ok] by (auto simp: example_data_def)

text \<open>
  C5.  A downloader started with the info hash, the piece count and the piece hashes that the seeder
  prints, and offered any pieces from anyone, in any order: when it has all pieces, it reconstructs the
  seeder's file, or one of the pieces it was offered is an explicit SHA-1 collision with the right one.
\<close>

theorem download_integrity:
  assumes "seed_ok data k" and "runSeed data (int k) = Inr (h, seeder)" and "pieceHashes seeder = Some hs"
    and "runDownload (hex_encode h) (numPieces seeder) (hex_encode hs) = Inr (h', pm)"
    and "pm' = foldl (\<lambda>s (i, d). offer VerifyPiece AddPiece s i d) pm ps" and "AllPiecesReceived pm'"
  shows "h' = sha1_Sum data \<and>
    (ReconstructData pm' = Some data \<or>
     (\<exists>i d. (int i, d) \<in> set ps \<and> i < chunk_count k data \<and> d \<noteq> chunk k data i \<and>
        sha1_Sum d = sha1_Sum (chunk k data i)))"
  using download_start(1) [OF assms(1-4)] offers_reconstruct [OF assms] by blast

theorem download_integrity_witness:
  "\<exists>s hs h' pm pm'. runSeed example_data 2 = Inr (sha1_Sum example_data, s) \<and> pieceHashes s = Some hs \<and>
     runDownload (hex_encode (sha1_Sum example_data)) (numPieces s) (hex_encode hs) = Inr (h', pm) \<and>
     pm' = foldl (\<lambda>s (i, d). offer VerifyPiece AddPiece s i d) pm example_offers \<and>
     (ReconstructData pm' = Some [1, 2, 3] \<or> sha1_Sum [9, 9] = sha1_Sum [1, 2])"
proof -
  obtain s hs h' pm where start: "runSeed example_data (int 2) = Inr (sha1_Sum example_data, s)"
      "pieceHashes s = Some hs"
      "runDownload (hex_encode (sha1_Sum example_data)) (numPieces s) (hex_encode hs) = Inr (h', pm)"
    by (rule example_start)
  let ?pm' = "foldl (\<lambda>s (i, d). offer VerifyPiece AddPiece s i d) pm example_offers"
  note start' = example_seed_ok start
  from download_integrity [OF start' refl download_all_chunks [OF start' example_offered]]
  have "ReconstructData ?pm' = Some example_data \<or> sha1_Sum [9, 9] = sha1_Sum [1, 2]"
  proof (elim conjE disjE exE)
    fix i d
    assume "(int i, d) \<in> set example_offers" and i: "i < chunk_count 2 example_data"
      and "d \<noteq> chunk 2 example_data i" and sha: "sha1_Sum d = sha1_Sum (chunk 2 example_data i)"
    moreover from i have "i = 0 \<or> i = 1" unfolding example_count less_2_iff .
    ultimately have "i = 0" "d = [9, 9]"
      by (auto simp: example_offers_def example_chunks example_chunks [simplified])
    with sha show ?thesis by (simp only: example_chunks simp_thms)
  qed simp
  then have "ReconstructData ?pm' = Some [1, 2, 3] \<or> sha1_Sum [9, 9] = sha1_Sum [1, 2]"
    unfolding example_data_def .
  with start show ?thesis by auto
qed

text \<open>
  C17.  The download completes: once every piece of the seeder's file has been offered, in any order and
  mixed with anything else, all pieces are held.
\<close>

theorem download_completes:
  assumes "seed_ok data k" and "runSeed data (int k) = Inr (h, seeder)" and "pieceHashes seeder = Some hs"
    and "runDownload (hex_encode h) (numPieces seeder) (hex_encode hs) = Inr (h', pm)"
    and "\<forall>i < chunk_count k data. (int i, chunk k data i) \<in> set ps"
  shows "AllPiecesReceived (foldl (\<lambda>s (i, d). offer VerifyPiece AddPiece s i d) pm ps)"
  using assms by (rule download_all_chunks)

theorem download_completes_witness:
  "\<exists>s hs h' pm. runSeed example_data 2 = Inr (sha1_Sum example_data, s) \<and> pieceHashes s = Some hs \<and>
     runDownload (hex_encode (sha1_Sum example_data)) (numPieces s) (hex_encode hs) = Inr (h', pm) \<and>
     AllPiecesReceived (foldl (\<lambda>s (i, d). offer VerifyPiece AddPiece s i d) pm example_offers)"
proof -
  obtain s hs h' pm where start: "runSeed example_data (int 2) = Inr (sha1_Sum example_data, s)"
      "pieceHashes s = Some hs"
      "runDownload (hex_encode (sha1_Sum example_data)) (numPieces s) (hex_encode hs) = Inr (h', pm)"
    by (rule example_start)
  from download_completes [OF example_seed_ok start example_offered] start show ?thesis by auto
qed

end
