(* ===== verification/Torrent_Server.thy ===== *)
theory Torrent_Server
  imports Swarm Seeding
begin

text \<open>
  The torrent server, \<open>src/torrent_server/handler.go\<close> and \<open>server.go\<close>: the message handlers, the
  dispatch loop, the choking round and the tracker statistics.  The server's loop is one goroutine, so
  a message is handled atomically with respect to other messages; connections are opened and closed and
  outboxes drained by other goroutines between them, which the step relation of the theory
  \<open>Download_Run\<close> interleaves.

  The state is the swarm, the heap of connections and the pending requests.  What a handler starts in
  the background or does outside the process is an effect in the order of the code.  A run-time panic
  ends the process.
\<close>

record server =
  ts_swarm :: swarm
  ts_heap :: heap
  pendingRequests :: "(id20, int list) fmap"
  quit_closed :: bool

definition NewTorrentServer :: "id20 \<Rightarrow> id20 \<Rightarrow> piece_manager \<Rightarrow> heap \<Rightarrow> server" where
  "NewTorrentServer peerID hash pieceMgr h =
     \<lparr>ts_swarm = NewSwarm peerID hash pieceMgr, ts_heap = h, pendingRequests = fmempty, quit_closed = False\<rparr>"

datatype effect =
    SpawnUpdateStats             \<comment> \<open>\<open>go ts.UpdateTrackerStats()\<close>\<close>
  | SpawnAnnounce string         \<comment> \<open>\<open>go ts.AnnounceToTracker(event)\<close>\<close>
  | AnnounceNow string
  | WriteFile bytes              \<comment> \<open>the reconstructed data, under \<open>RootDir\<close>\<close>
  | PartialFile bytes            \<comment> \<open>what a write leaves there that fails or is cut short\<close>

text \<open>
  What the code leaves open in one step: the orders in which the maps of peers and of bitfields are
  iterated, the coins of the rarest-first choice, whether the directory and the file can be written, and
  what a failed write leaves: no new file when it cannot be opened, otherwise the first bytes of the data.
\<close>

record step_env =
  peer_ord :: "id20 list"
  bitfield_ord :: "id20 list"
  coins :: "nat \<Rightarrow> bool"
  mkdir_ok :: bool
  write_file_ok :: bool
  write_left :: "nat option"

section \<open>Sending\<close>

definition index_payload :: "byte \<Rightarrow> int \<Rightarrow> bytes" where
  "index_payload msg idx = msg # put_u32 (word_of_int idx)"

text \<open>The loops over \<open>ts.swarm.Peers()\<close> that send one payload to everyone and log failures.\<close>

definition broadcast :: "nat list \<Rightarrow> bytes \<Rightarrow> heap \<Rightarrow> heap" where
  "broadcast cs payload h = foldl (\<lambda>h c. h(c := send_logged payload (h c))) h cs"

definition requestPiece :: "step_env \<Rightarrow> int \<Rightarrow> server \<Rightarrow> server" where
  "requestPiece env idx ts =
     ts\<lparr>ts_heap := broadcast (Peers (peer_ord env) (ts_swarm ts)) (index_payload MsgRequestPiece idx) (ts_heap ts)\<rparr>"

definition requestPieceFromPeer :: "nat \<Rightarrow> int \<Rightarrow> heap \<Rightarrow> send_err + heap" where
  "requestPieceFromPeer c idx h =
     (case Send (h c) (index_payload MsgRequestPiece idx) of Inl e \<Rightarrow> Inl e | Inr p \<Rightarrow> Inr (h(c := p)))"

definition announceHave :: "step_env \<Rightarrow> int \<Rightarrow> server \<Rightarrow> server" where
  "announceHave env idx ts =
     ts\<lparr>ts_heap := broadcast (Peers (peer_ord env) (ts_swarm ts)) (index_payload MsgHave idx) (ts_heap ts)\<rparr>"

section \<open>Handlers\<close>

definition storePendingRequests :: "id20 \<Rightarrow> int list \<Rightarrow> server \<Rightarrow> server" where
  "storePendingRequests i ps ts = ts\<lparr>pendingRequests := fmupd i ps (pendingRequests ts)\<rparr>"

definition handleBitfieldAnnouncement :: "step_env \<Rightarrow> id20 \<Rightarrow> bytes \<Rightarrow> server \<Rightarrow> go_panic + server" where
  "handleBitfieldAnnouncement env fromid bitfield ts =
     (let ts1 = ts\<lparr>ts_swarm := UpdatePeerBitfield fromid bitfield (ts_swarm ts)\<rparr> in
      bindE (GetRarestMissingPieces (bitfield_ord env) (coins env) (ts_swarm ts1) bitfield) (\<lambda>rarestPieces.
        if rarestPieces \<noteq> [] then
          (case GetPeer (ts_swarm ts1) fromid of
             None \<Rightarrow> Inr ts1
           | Some c \<Rightarrow>
               (case Send (ts_heap ts1 c) [MsgInterested] of
                  Inl _ \<Rightarrow> Inr ts1
                | Inr p \<Rightarrow>
                    Inr (storePendingRequests fromid rarestPieces (ts1\<lparr>ts_heap := (ts_heap ts1)(c := p)\<rparr>))))
        else Inr ts1))"

definition handlePieceRequest :: "id20 \<Rightarrow> int \<Rightarrow> server \<Rightarrow> server" where
  "handlePieceRequest fromid pieceIdx ts =
     (if IsChoking (ts_swarm ts) fromid then ts
      else (case swarm_GetPiece (ts_swarm ts) pieceIdx of
          None \<Rightarrow> ts
        | Some data \<Rightarrow>
            let payload = index_payload MsgSendPiece pieceIdx @ data in
            (case GetPeer (ts_swarm ts) fromid of
               None \<Rightarrow> ts
             | Some c \<Rightarrow>
                 (case Send (ts_heap ts c) payload of
                    Inl _ \<Rightarrow> ts
                  | Inr p \<Rightarrow>
                      ts\<lparr>ts_heap := (ts_heap ts)(c := p),
                         ts_swarm := RecordUpload fromid (int (length data)) (ts_swarm ts)\<rparr>))))"

text \<open>
  \<open>handlePiece\<close>: the last part, after the piece was added and announced, either writes the file or
  broadcasts the new bitfield.
\<close>

definition finish_download :: "step_env \<Rightarrow> server \<Rightarrow> server \<times> effect list" where
  "finish_download env ts =
     (case ReconstructData (swarm_pieces (ts_swarm ts)) of
        None \<Rightarrow> (ts, [])
      | Some fullData \<Rightarrow>
          if \<not> mkdir_ok env then (ts, [])
          else if \<not> write_file_ok env then
            (ts, case write_left env of None \<Rightarrow> [] | Some n \<Rightarrow> [PartialFile (take n fullData)])
          else (ts, [WriteFile fullData, SpawnAnnounce ''completed'']))"

definition broadcast_bitfield :: "step_env \<Rightarrow> server \<Rightarrow> go_panic + server" where
  "broadcast_bitfield env ts =
     bindE (swarm_Bitfield (ts_swarm ts)) (\<lambda>bitfield.
       Inr (ts\<lparr>ts_heap := broadcast (Peers (peer_ord env) (ts_swarm ts)) (MsgBitfield # bitfield) (ts_heap ts)\<rparr>))"

definition handlePiece :: "step_env \<Rightarrow> id20 \<Rightarrow> bytes \<Rightarrow> server \<Rightarrow> go_panic + server \<times> effect list" where
  "handlePiece env fromid data ts =
     (if length data < 4 then Inr (ts, [])
      else
        let index = uint (get_u32 (take 4 data)); pieceData = drop 4 data in
        if \<not> swarm_VerifyPiece (ts_swarm ts) index pieceData then Inr (ts, [])
        else
          let s1 = RecordDownload fromid (int (length pieceData)) (ts_swarm ts);
              s2 = (case swarm_AddPiece s1 index pieceData of Inl _ \<Rightarrow> s1 | Inr s \<Rightarrow> s);
              ts2 = announceHave env index (ts\<lparr>ts_swarm := s2\<rparr>)
          in if swarm_AllPiecesReceived (ts_swarm ts2)
             then (case finish_download env ts2 of (ts3, effs) \<Rightarrow> Inr (ts3, SpawnUpdateStats # effs))
             else bindE (broadcast_bitfield env ts2) (\<lambda>ts3. Inr (ts3, [SpawnUpdateStats])))"

fun request_all :: "nat \<Rightarrow> int list \<Rightarrow> heap \<Rightarrow> heap" where
  "request_all c [] h = h"
| "request_all c (idx # idxs) h =
     request_all c idxs (case requestPieceFromPeer c idx h of Inl _ \<Rightarrow> h | Inr h' \<Rightarrow> h')"

definition sendPendingRequests :: "id20 \<Rightarrow> server \<Rightarrow> server" where
  "sendPendingRequests peerID ts =
     (case fmlookup (pendingRequests ts) peerID of
        None \<Rightarrow> ts
      | Some ps \<Rightarrow>
          let ts1 = ts\<lparr>pendingRequests := fmdrop peerID (pendingRequests ts)\<rparr> in
          if ps = [] then ts1
          else (case GetPeer (ts_swarm ts1) peerID of
              None \<Rightarrow> ts1
            | Some c \<Rightarrow> ts1\<lparr>ts_heap := request_all c ps (ts_heap ts1)\<rparr>))"

section \<open>The loop\<close>

definition on_swarm :: "(swarm \<Rightarrow> swarm) \<Rightarrow> server \<Rightarrow> server" where
  "on_swarm f ts = ts\<lparr>ts_swarm := f (ts_swarm ts)\<rparr>"

text \<open>One message from the transport: the first branch of the \<open>select\<close>.\<close>

definition dispatch :: "step_env \<Rightarrow> RPC \<Rightarrow> server \<Rightarrow> go_panic + server \<times> effect list" where
  "dispatch env rpc ts =
     (let fromid = PeerID (RPC.From rpc) in
      case Payload rpc of
        [] \<Rightarrow> Inr (ts, [])
      | msgType # payloadData \<Rightarrow>
          if msgType = MsgInterested then Inr (on_swarm (SetPeerInterested fromid True) ts, [])
          else if msgType = MsgNotInterested then Inr (on_swarm (SetPeerInterested fromid False) ts, [])
          else if msgType = MsgRequestPiece then
            (if length payloadData < 4 then Inr (ts, [])
             else Inr (handlePieceRequest fromid (uint (get_u32 (take 4 payloadData))) ts, []))
          else if msgType = MsgSendPiece then handlePiece env fromid payloadData ts
          else if msgType = MsgHave then
            (if length payloadData < 4 then Inr (ts, [])
             else bindE (SetPeerHasPiece fromid (unat (get_u32 (take 4 payloadData))) (ts_swarm ts))
               (\<lambda>s. Inr (ts\<lparr>ts_swarm := s\<rparr>, [])))
          else if msgType = MsgBitfield then
            bindE (handleBitfieldAnnouncement env fromid payloadData ts) (\<lambda>ts'. Inr (ts', []))
          else if msgType = MsgChoke then Inr (on_swarm (SetPeerChoking fromid True) ts, [])
          else if msgType = MsgUnchoke then
            Inr (sendPendingRequests fromid (on_swarm (SetPeerChoking fromid False) ts), [])
          else Inr (ts, []))"

fun send_actions :: "UnchokeAction list \<Rightarrow> swarm \<Rightarrow> heap \<Rightarrow> heap" where
  "send_actions [] s h = h"
| "send_actions (a # as) s h =
     (case GetPeer s (ua_PeerID a) of
        None \<Rightarrow> send_actions as s h
      | Some c \<Rightarrow>
          let msg = (if ua_Unchoke a then [MsgUnchoke] else [MsgChoke]) in
          send_actions as s (h(c := send_logged msg (h c))))"

definition runUnchokeRound :: "unchoke_env \<Rightarrow> server \<Rightarrow> server" where
  "runUnchokeRound uenv ts =
     (case RunUnchokeAlgorithm uenv (ts_swarm ts) of
        (actions, s') \<Rightarrow> ts\<lparr>ts_swarm := s', ts_heap := send_actions actions s' (ts_heap ts)\<rparr>)"

text \<open>The branches of the \<open>select\<close>, and the end of the loop with its deferred \<open>Stop\<close>.\<close>

datatype loop_event = Received RPC | UnchokeTick unchoke_env | AnnounceTick

definition loop_step :: "step_env \<Rightarrow> loop_event \<Rightarrow> server \<Rightarrow> go_panic + server \<times> effect list" where
  "loop_step env ev ts =
     (case ev of
        Received rpc \<Rightarrow> dispatch env rpc ts
      | UnchokeTick uenv \<Rightarrow> Inr (runUnchokeRound uenv ts, [])
      | AnnounceTick \<Rightarrow> Inr (ts, [SpawnAnnounce '''']))"

definition Stop :: "server \<Rightarrow> go_panic + server" where
  "Stop ts = (if quit_closed ts then Inl CloseClosedChannel else Inr (ts\<lparr>quit_closed := True\<rparr>))"

text \<open>
  The branch for \<open>quitch\<close>, taken once the channel is closed: a last announce, then the deferred
  function of the loop calls \<open>Stop\<close>.  (Reading the tracker's reply to that announce can panic first; the
  theory \<open>Process\<close> has that.)
\<close>

definition loop_quit :: "server \<Rightarrow> effect list \<times> (go_panic + server)" where
  "loop_quit ts = ([AnnounceNow ''stopped''], Stop ts)"

section \<open>Tracker statistics\<close>

definition announce_left :: "server \<Rightarrow> int" where
  "announce_left ts = MissingPiecesCount (ts_swarm ts)"

text \<open>\<open>UpdateTrackerStats\<close>: the two numbers passed to the tracker client.\<close>

definition tracker_stats :: "step_env \<Rightarrow> server \<Rightarrow> int \<times> int" where
  "tracker_stats env ts =
     (wrap64 (int (length (Peers (peer_ord env) (ts_swarm ts))) * 1024),
      foldl (\<lambda>d i. if swarm_GetPiece (ts_swarm ts) (int i) \<noteq> None then wrap64 (d + 1024) else d) 0
        [0..<nat (swarm_NumPieces (ts_swarm ts))])"

section \<open>What the handlers leave alone\<close>

abbreviation ts_pieces :: "server \<Rightarrow> piece_manager" where
  "ts_pieces ts \<equiv> swarm_pieces (ts_swarm ts)"

lemma on_state_frame [simp]:
  "swarm_pieces (on_state f i s) = swarm_pieces s"
  "peers (on_state f i s) = peers s"
  "peerBitfields (on_state f i s) = peerBitfields s"
  by (simp_all add: on_state_def split: option.split)

lemmas on_state_ops = SetPeerInterested_def SetPeerChoking_def RecordUpload_def RecordDownload_def

lemma broadcast_simps [simp]:
  "broadcast [] m h = h"
  "broadcast (c # cs) m h = broadcast cs m (h(c := send_logged m (h c)))"
  by (simp_all add: broadcast_def)

lemma broadcast_notin: "c \<notin> set cs \<Longrightarrow> broadcast cs m h c = h c"
  by (induction cs arbitrary: h) simp_all

lemma broadcast_apply:
  "distinct cs \<Longrightarrow> broadcast cs m h c = (if c \<in> set cs then send_logged m (h c) else h c)"
  by (induction cs arbitrary: h) (auto simp: broadcast_notin)

lemma broadcast_peer_id: "peer_id (broadcast cs m h c) = peer_id (h c)"
  by (induction cs arbitrary: h) simp_all

lemma requestPieceFromPeer_peer_id: "requestPieceFromPeer c idx h = Inr h' \<Longrightarrow> peer_id (h' d) = peer_id (h d)"
  by (auto simp: requestPieceFromPeer_def Send_Inr split: sum.splits)

lemma request_all_peer_id: "peer_id (request_all c idxs h d) = peer_id (h d)"
proof (induction idxs arbitrary: h)
  case Nil
  show ?case by simp
next
  case (Cons i idxs)
  then show ?case by (simp add: requestPieceFromPeer_peer_id split: sum.split)
qed

lemma send_actions_peer_id: "peer_id (send_actions as s h c) = peer_id (h c)"
  by (induction as arbitrary: h) (simp_all add: Let_def split: option.split)

lemma swarm_AddPiece_Inr:
  "swarm_AddPiece s i d = Inr s' \<longleftrightarrow> (\<exists>mgr. AddPiece (swarm_pieces s) i d = Inr mgr \<and> s' = s\<lparr>swarm_pieces := mgr\<rparr>)"
  by (auto simp: swarm_AddPiece_def split: sum.splits)

text \<open>The pieces change only through \<open>handlePiece\<close>, and there by a verified addition.\<close>

definition swarm_offer :: "swarm \<Rightarrow> int \<Rightarrow> bytes \<Rightarrow> swarm" where
  "swarm_offer s i d = (case swarm_AddPiece s i d of Inl _ \<Rightarrow> s | Inr s' \<Rightarrow> s')"

lemma swarm_offer_frame [simp]:
  "peers (swarm_offer s i d) = peers s"
  "peerStates (swarm_offer s i d) = peerStates s"
  "peerBitfields (swarm_offer s i d) = peerBitfields s"
  by (auto simp: swarm_offer_def swarm_AddPiece_def split: sum.splits)

lemma swarm_offer_pieces:
  "VerifyPiece (swarm_pieces s) i d \<Longrightarrow>
     swarm_pieces (swarm_offer s i d) = offer VerifyPiece AddPiece (swarm_pieces s) i d"
  by (auto simp: swarm_offer_def swarm_AddPiece_def offer_def split: sum.split)

text \<open>\<open>handlePiece\<close> in three steps: reject, or count, add and announce, and then finish.\<close>

definition piece_accepted :: "step_env \<Rightarrow> id20 \<Rightarrow> int \<Rightarrow> bytes \<Rightarrow> server \<Rightarrow> server" where
  "piece_accepted env fromid i d ts =
     announceHave env i (ts\<lparr>ts_swarm := swarm_offer (RecordDownload fromid (int (length d)) (ts_swarm ts)) i d\<rparr>)"

lemma handlePiece_cases:
  "handlePiece env fromid data ts =
     (if length data < 4 \<or> \<not> VerifyPiece (ts_pieces ts) (uint (get_u32 (take 4 data))) (drop 4 data)
      then Inr (ts, [])
      else let ts2 = piece_accepted env fromid (uint (get_u32 (take 4 data))) (drop 4 data) ts in
        if AllPiecesReceived (ts_pieces ts2)
        then (case finish_download env ts2 of (ts3, effs) \<Rightarrow> Inr (ts3, SpawnUpdateStats # effs))
        else bindE (broadcast_bitfield env ts2) (\<lambda>ts3. Inr (ts3, [SpawnUpdateStats])))"
  by (simp add: handlePiece_def Let_def piece_accepted_def swarm_offer_def swarm_VerifyPiece_def
      swarm_AllPiecesReceived_def)

lemma piece_accepted_pieces:
  "VerifyPiece (ts_pieces ts) i d \<Longrightarrow>
     ts_pieces (piece_accepted env fromid i d ts) = offer VerifyPiece AddPiece (ts_pieces ts) i d"
  by (simp add: piece_accepted_def announceHave_def swarm_offer_pieces RecordDownload_def)

lemma finish_download_state [simp]: "fst (finish_download env ts) = ts"
  by (simp add: finish_download_def split: option.split)

lemma broadcast_bitfield_Inr:
  "broadcast_bitfield env ts = Inr ts' \<longleftrightarrow>
     (\<exists>bf. BitfieldOf (ts_pieces ts) = Inr bf \<and>
       ts' = ts\<lparr>ts_heap := broadcast (Peers (peer_ord env) (ts_swarm ts)) (MsgBitfield # bf) (ts_heap ts)\<rparr>)"
  by (auto simp: broadcast_bitfield_def bindE_Inr_iff swarm_Bitfield_def)

text \<open>The effects that touch the file, and what they leave of the data.\<close>

fun file_effect :: "effect \<Rightarrow> bool" where
  "file_effect (WriteFile x) \<longleftrightarrow> True"
| "file_effect (PartialFile x) \<longleftrightarrow> True"
| "file_effect _ \<longleftrightarrow> False"

fun leaves :: "effect \<Rightarrow> bytes \<Rightarrow> bool" where
  "leaves (WriteFile x) full \<longleftrightarrow> x = full"
| "leaves (PartialFile x) full \<longleftrightarrow> prefix x full"
| "leaves _ full \<longleftrightarrow> False"

lemma handlePiece_Inr:
  assumes "handlePiece env fromid data ts = Inr (ts', effs)"
  obtains (rejected) "ts' = ts" and "effs = []"
  | (accepted) i d where "4 \<le> length data" and "i = uint (get_u32 (take 4 data))" and "d = drop 4 data"
      and "VerifyPiece (ts_pieces ts) i d" and "ts_swarm ts' = ts_swarm (piece_accepted env fromid i d ts)"
      and "pendingRequests ts' = pendingRequests ts" and "quit_closed ts' = quit_closed ts"
      and "\<forall>e \<in> set effs. file_effect e \<longrightarrow> AllPiecesReceived (ts_pieces ts') \<and>
        (\<exists>full. ReconstructData (ts_pieces ts') = Some full \<and> leaves e full)"
      and "\<And>c. peer_id (ts_heap ts' c) = peer_id (ts_heap ts c)"
proof (cases "length data < 4 \<or> \<not> VerifyPiece (ts_pieces ts) (uint (get_u32 (take 4 data))) (drop 4 data)")
  case True
  with assms show thesis by (intro rejected) (simp_all add: handlePiece_cases)
next
  case False
  let ?i = "uint (get_u32 (take 4 data))" and ?d = "drop 4 data"
  define ts2 where "ts2 = piece_accepted env fromid ?i ?d ts"
  have ts2: "pendingRequests ts2 = pendingRequests ts" "quit_closed ts2 = quit_closed ts"
    "peer_id (ts_heap ts2 c) = peer_id (ts_heap ts c)" for c
    by (simp_all add: ts2_def piece_accepted_def announceHave_def broadcast_peer_id)
  show thesis
  proof (cases "AllPiecesReceived (ts_pieces ts2)")
    case True
    obtain es where fin: "finish_download env ts2 = (ts2, es)"
      using finish_download_state [of env ts2] by (cases "finish_download env ts2") auto
    then have res: "ts' = ts2" "effs = SpawnUpdateStats # es"
      using assms False True by (auto simp: handlePiece_cases ts2_def Let_def)
    have "\<forall>e \<in> set es. file_effect e \<longrightarrow> (\<exists>full. ReconstructData (ts_pieces ts2) = Some full \<and> leaves e full)"
      using fin by (auto simp: finish_download_def take_is_prefix split: option.splits if_splits)
    then show thesis
      using False True res ts2 by (intro accepted [of ?i ?d]) (auto simp: ts2_def)
  next
    case not_all: False
    then have "bindE (broadcast_bitfield env ts2) (\<lambda>ts3. Inr (ts3, [SpawnUpdateStats])) = Inr (ts', effs)"
      using assms False by (auto simp: handlePiece_cases ts2_def Let_def)
    then have bb: "broadcast_bitfield env ts2 = Inr ts'" and effs: "effs = [SpawnUpdateStats]"
      by (auto simp: bindE_Inr_iff)
    then obtain bf where "ts' = ts2\<lparr>ts_heap := broadcast (Peers (peer_ord env) (ts_swarm ts2)) (MsgBitfield # bf) (ts_heap ts2)\<rparr>"
      unfolding broadcast_bitfield_Inr by blast
    then show thesis
      using False effs ts2 by (intro accepted [of ?i ?d]) (auto simp: broadcast_peer_id, simp_all add: ts2_def)
  qed
qed

lemmas dispatch_msgs = Msg_defs

lemma SetPeerHasPiece_frame:
  "SetPeerHasPiece i idx s = Inr s' \<Longrightarrow> swarm_pieces s' = swarm_pieces s \<and> peers s' = peers s \<and> peerStates s' = peerStates s"
  by (auto simp: SetPeerHasPiece_def bindE_Inr_iff)

lemma handleBitfieldAnnouncement_frame:
  assumes "handleBitfieldAnnouncement env fromid bf ts = Inr ts'"
  shows "ts_pieces ts' = ts_pieces ts \<and> peers (ts_swarm ts') = peers (ts_swarm ts) \<and>
    peerStates (ts_swarm ts') = peerStates (ts_swarm ts) \<and> peer_id (ts_heap ts' c) = peer_id (ts_heap ts c)"
  using assms
  by (auto simp: handleBitfieldAnnouncement_def bindE_Inr_iff Let_def UpdatePeerBitfield_def
      storePendingRequests_def Send_Inr split: if_splits option.splits sum.splits)

lemma handlePieceRequest_frame:
  "ts_pieces (handlePieceRequest i idx ts) = ts_pieces ts"
  "peers (ts_swarm (handlePieceRequest i idx ts)) = peers (ts_swarm ts)"
  "peer_id (ts_heap (handlePieceRequest i idx ts) c) = peer_id (ts_heap ts c)"
  by (auto simp: handlePieceRequest_def Let_def RecordUpload_def Send_Inr split: option.split sum.split)

lemma sendPendingRequests_frame:
  "ts_swarm (sendPendingRequests i ts) = ts_swarm ts"
  "peer_id (ts_heap (sendPendingRequests i ts) c) = peer_id (ts_heap ts c)"
  by (auto simp: sendPendingRequests_def Let_def request_all_peer_id split: option.split)

text \<open>The cases of \<open>dispatch\<close> that a proof has to tell apart.\<close>

lemma dispatch_cases:
  assumes "dispatch env rpc ts = Inr (ts', effs)"
  obtains (swarm) f where "ts' = on_swarm f ts" and "effs = []" and "f = id \<or> (\<exists>i v. f = SetPeerInterested i v \<or> f = SetPeerChoking i v)"
  | (request) idx where "ts' = handlePieceRequest (PeerID (RPC.From rpc)) idx ts" and "effs = []"
  | (piece) data where "handlePiece env (PeerID (RPC.From rpc)) data ts = Inr (ts', effs)"
  | (have_msg) idx s where "SetPeerHasPiece (PeerID (RPC.From rpc)) idx (ts_swarm ts) = Inr s"
      and "ts' = ts\<lparr>ts_swarm := s\<rparr>" and "effs = []"
  | (bitfield) bf where "handleBitfieldAnnouncement env (PeerID (RPC.From rpc)) bf ts = Inr ts'" and "effs = []"
  | (unchoke) "ts' = sendPendingRequests (PeerID (RPC.From rpc)) (on_swarm (SetPeerChoking (PeerID (RPC.From rpc)) False) ts)"
      and "effs = []"
proof (cases "Payload rpc")
  case Nil
  then show thesis using assms by (intro swarm [of id]) (simp_all add: dispatch_def on_swarm_def)
next
  case (Cons m data)
  have id: "on_swarm id ts = ts" by (simp add: on_swarm_def)
  consider "m = MsgInterested" | "m = MsgNotInterested" | "m = MsgRequestPiece" | "m = MsgSendPiece" | "m = MsgHave"
    | "m = MsgBitfield" | "m = MsgChoke" | "m = MsgUnchoke"
    | "m \<notin> {MsgInterested, MsgNotInterested, MsgRequestPiece, MsgSendPiece, MsgHave, MsgBitfield, MsgChoke, MsgUnchoke}"
    by blast
  then show thesis
  proof cases
    case 1 with Cons assms show thesis by (intro swarm) (auto simp: dispatch_def)
  next
    case 2 with Cons assms show thesis by (intro swarm) (auto simp: dispatch_def dispatch_msgs)
  next
    case 3
    show thesis
    proof (cases "length data < 4")
      case True
      with 3 Cons assms id show thesis by (intro swarm [of id]) (simp_all add: dispatch_def dispatch_msgs)
    next
      case False
      with 3 Cons assms show thesis by (intro request) (auto simp: dispatch_def dispatch_msgs)
    qed
  next
    case 4 with Cons assms show thesis by (intro piece) (auto simp: dispatch_def dispatch_msgs)
  next
    case 5
    show thesis
    proof (cases "length data < 4")
      case True
      with 5 Cons assms id show thesis by (intro swarm [of id]) (simp_all add: dispatch_def dispatch_msgs)
    next
      case False
      with 5 Cons assms show thesis by (auto simp: dispatch_def dispatch_msgs bindE_Inr_iff intro: have_msg)
    qed
  next
    case 6 with Cons assms show thesis by (auto simp: dispatch_def dispatch_msgs bindE_Inr_iff intro: bitfield)
  next
    case 7 with Cons assms show thesis by (intro swarm) (auto simp: dispatch_def dispatch_msgs)
  next
    case 8 with Cons assms show thesis by (intro unchoke) (simp_all add: dispatch_def dispatch_msgs Let_def)
  next
    case 9
    with Cons assms id show thesis by (intro swarm [of id]) (simp_all add: dispatch_def)
  qed
qed

text \<open>
  What one step may do to the pieces: offer some to the manager, and write the file only when it is
  complete.
\<close>

abbreviation offers :: "piece_manager \<Rightarrow> (int \<times> bytes) list \<Rightarrow> piece_manager" where
  "offers \<equiv> foldl (\<lambda>s (i, d). offer VerifyPiece AddPiece s i d)"

definition pieces_step :: "server \<Rightarrow> effect list \<Rightarrow> server \<Rightarrow> bool" where
  "pieces_step ts effs ts' \<longleftrightarrow> (\<exists>ps. ts_pieces ts' = offers (ts_pieces ts) ps) \<and>
     (\<forall>e \<in> set effs. file_effect e \<longrightarrow> AllPiecesReceived (ts_pieces ts') \<and>
        (\<exists>full. ReconstructData (ts_pieces ts') = Some full \<and> leaves e full))"

lemma pieces_step_same: "ts_pieces ts' = ts_pieces ts \<Longrightarrow> (\<And>e. e \<in> set effs \<Longrightarrow> \<not> file_effect e) \<Longrightarrow> pieces_step ts effs ts'"
  unfolding pieces_step_def by (auto intro: exI [of _ "[]"])

lemma dispatch_pieces_step:
  assumes "dispatch env rpc ts = Inr (ts', effs)"
  shows "pieces_step ts effs ts'"
  using assms
proof (cases rule: dispatch_cases)
  case (piece data)
  then show ?thesis
  proof (cases rule: handlePiece_Inr)
    case (accepted i d)
    then have "ts_pieces ts' = offers (ts_pieces ts) [(i, d)]" by (simp add: piece_accepted_pieces)
    with accepted show ?thesis unfolding pieces_step_def by blast
  qed (auto intro: pieces_step_same)
qed (auto intro!: pieces_step_same simp: on_swarm_def on_state_ops handlePieceRequest_frame
    sendPendingRequests_frame dest: SetPeerHasPiece_frame handleBitfieldAnnouncement_frame)

lemma swarm_wf_frame:
  assumes "swarm_wf h s" and "peers s' = peers s" and "fmdom (peerStates s) |\<subseteq>| fmdom (peerStates s')"
    and "\<And>c. peer_id (h' c) = peer_id (h c)"
  shows "swarm_wf h' s'"
  using assms unfolding swarm_wf_def by (metis (no_types, lifting) fmdom_notI fmdom_notD fsubsetD)

lemma on_state_dom [simp]: "fmdom (peerStates (on_state f i s)) = fmdom (peerStates s)"
  by (auto simp: on_state_def fmdomI split: option.split)

lemma piece_accepted_frame:
  "peers (ts_swarm (piece_accepted env fromid i d ts)) = peers (ts_swarm ts)"
  "fmdom (peerStates (ts_swarm (piece_accepted env fromid i d ts))) = fmdom (peerStates (ts_swarm ts))"
  by (simp_all add: piece_accepted_def announceHave_def RecordDownload_def)

lemma dispatch_wf:
  assumes "dispatch env rpc ts = Inr (ts', effs)" and "swarm_wf (ts_heap ts) (ts_swarm ts)"
  shows "swarm_wf (ts_heap ts') (ts_swarm ts')"
  using assms(1)
proof (cases rule: dispatch_cases)
  case (swarm f)
  with assms(2) show ?thesis by (auto simp: on_swarm_def on_state_ops intro: on_state_wf)
next
  case (request idx)
  have dom: "fmdom (peerStates (ts_swarm ts')) = fmdom (peerStates (ts_swarm ts))"
    unfolding request by (auto simp: handlePieceRequest_def Let_def RecordUpload_def split: option.split sum.split)
  then show ?thesis
    by (intro swarm_wf_frame [OF assms(2)]) (simp_all add: dom, simp_all add: request handlePieceRequest_frame)
next
  case (piece data)
  then show ?thesis
  proof (cases rule: handlePiece_Inr)
    case (accepted i d)
    then show ?thesis using assms(2) by (intro swarm_wf_frame [OF assms(2)]) (simp_all add: piece_accepted_frame)
  qed (use assms(2) in simp)
next
  case (have_msg idx s)
  with SetPeerHasPiece_frame [OF have_msg(1)] assms(2) show ?thesis by (simp add: swarm_wf_def)
next
  case (bitfield bf)
  with handleBitfieldAnnouncement_frame [OF bitfield(1)] assms(2) show ?thesis by (simp add: swarm_wf_def)
next
  case unchoke
  then show ?thesis using assms(2)
    by (intro swarm_wf_frame [OF assms(2)]) (simp_all add: sendPendingRequests_frame on_swarm_def on_state_ops)
qed

section \<open>No message panics\<close>

text \<open>The piece counts for which neither the counts of the rarest-first choice nor a bitfield panics.\<close>

definition pieces_ok :: "int \<Rightarrow> bool" where
  "pieces_ok n \<longleftrightarrow> 0 \<le> n \<and> 8 * n \<le> max_alloc"

lemma pieces_ok_count: "pieces_ok n \<Longrightarrow> count_ok n"
  by (simp add: pieces_ok_def count_ok_def max_alloc_def)

lemma offer_numPieces [simp]: "numPieces (offer VerifyPiece AddPiece mgr i d) = numPieces mgr"
  by (auto simp: offer_def AddPiece_def)

lemma BitfieldOf_total: "pieces_ok (numPieces mgr) \<Longrightarrow> \<exists>bf. BitfieldOf mgr = Inr bf"
  by (meson BitfieldOf_ok pieces_ok_count)

lemma handlePiece_total:
  assumes "pieces_ok (numPieces (ts_pieces ts))"
  shows "\<exists>r. handlePiece env i data ts = Inr r"
proof (cases "length data < 4 \<or> \<not> VerifyPiece (ts_pieces ts) (uint (get_u32 (take 4 data))) (drop 4 data)")
  case True
  then show ?thesis by (simp add: handlePiece_cases)
next
  case False
  define ts2 where "ts2 = piece_accepted env i (uint (get_u32 (take 4 data))) (drop 4 data) ts"
  have "numPieces (ts_pieces ts2) = numPieces (ts_pieces ts)"
    using False by (simp add: ts2_def piece_accepted_pieces)
  then obtain bf where "BitfieldOf (ts_pieces ts2) = Inr bf" using assms BitfieldOf_total by metis
  then show ?thesis using False
    by (simp add: handlePiece_cases ts2_def [symmetric] Let_def broadcast_bitfield_def swarm_Bitfield_def
        split: prod.split)
qed

lemma handleBitfieldAnnouncement_total:
  assumes "pieces_ok (numPieces (ts_pieces ts))"
  shows "\<exists>r. handleBitfieldAnnouncement env i bf ts = Inr r"
  using assms
  by (auto simp: handleBitfieldAnnouncement_def Let_def GetRarestMissingPieces_def make_counts_def
      NumPieces_def UpdatePeerBitfield_def pieces_ok_def split: option.split sum.split)

lemma SetPeerHasPiece_total:
  assumes "pieces_ok (numPieces (swarm_pieces s))"
  shows "\<exists>r. SetPeerHasPiece i idx s = Inr r"
proof -
  have "\<exists>z. make_bytes (bitfield_size (NumPieces (swarm_pieces s))) = Inr z"
    using bitfield_size_ok [OF pieces_ok_count [OF assms]] by (simp add: make_bytes_def NumPieces_def)
  then show ?thesis by (auto simp: SetPeerHasPiece_def split: option.split)
qed

lemma dispatch_ok:
  assumes ok: "pieces_ok (numPieces (ts_pieces ts))"
  shows "\<exists>ts' effs. dispatch env rpc ts = Inr (ts', effs)"
proof (cases "Payload rpc")
  case Nil
  then show ?thesis by (simp add: dispatch_def)
next
  case (Cons m data)
  let ?i = "PeerID (RPC.From rpc)"
  obtain r1 where "handlePiece env ?i data ts = Inr r1" using handlePiece_total [OF ok] by blast
  moreover obtain r2 where "handleBitfieldAnnouncement env ?i data ts = Inr r2"
    using handleBitfieldAnnouncement_total [OF ok] by blast
  moreover obtain r3 where "SetPeerHasPiece ?i (unat (get_u32 (take 4 data))) (ts_swarm ts) = Inr r3"
    using SetPeerHasPiece_total [OF ok] by blast
  ultimately show ?thesis by (cases r1) (simp add: dispatch_def Cons Let_def)
qed

section \<open>Messages between two servers\<close>

lemma uint_word_of_int_u32: "0 \<le> idx \<Longrightarrow> idx < 2 ^ 32 \<Longrightarrow> uint (word_of_int idx :: 32 word) = idx"
  by (simp add: uint_word_of_int)

lemma take_index_payload: "take 4 (put_u32 v @ d) = put_u32 v" "drop 4 (put_u32 v @ d) = d"
  by simp_all

definition rpc_from :: "id20 \<Rightarrow> string \<Rightarrow> bytes \<Rightarrow> RPC" where
  "rpc_from i addr m = \<lparr>RPC.From = \<lparr>PeerID = i, Addr = addr\<rparr>, Payload = m\<rparr>"

lemma dispatch_request:
  "0 \<le> idx \<Longrightarrow> idx < 2 ^ 32 \<Longrightarrow>
     dispatch env (rpc_from i addr (index_payload MsgRequestPiece idx)) ts = Inr (handlePieceRequest i idx ts, [])"
  by (simp add: dispatch_def rpc_from_def index_payload_def dispatch_msgs uint_word_of_int)

lemma dispatch_piece:
  "dispatch env (rpc_from i addr (MsgSendPiece # data)) ts = handlePiece env i data ts"
  by (simp add: dispatch_def rpc_from_def dispatch_msgs)

lemma dispatch_bitfield:
  "dispatch env (rpc_from i addr (MsgBitfield # bf)) ts =
     bindE (handleBitfieldAnnouncement env i bf ts) (\<lambda>ts'. Inr (ts', []))"
  by (simp add: dispatch_def rpc_from_def dispatch_msgs)

lemma dispatch_unchoke:
  "dispatch env (rpc_from i addr [MsgUnchoke]) ts =
     Inr (sendPendingRequests i (on_swarm (SetPeerChoking i False) ts), [])"
  by (simp add: dispatch_def rpc_from_def dispatch_msgs)

text \<open>A connection to which one more message can be sent.\<close>

definition can_send :: "tcp_peer \<Rightarrow> bool" where
  "can_send p \<longleftrightarrow> \<not> is_closed p \<and> length (outbox p) < outbox_cap"

lemma Send_can: "can_send p \<Longrightarrow> Send p m = Inr (p\<lparr>outbox := outbox p @ [frame m]\<rparr>)"
  by (simp add: can_send_def Send_Inr)

lemma handlePieceRequest_served:
  assumes "\<not> IsChoking (ts_swarm ts) i" and "GetPiece (ts_pieces ts) idx = Some d"
    and "GetPeer (ts_swarm ts) i = Some c" and "can_send (ts_heap ts c)"
  shows "handlePieceRequest i idx ts =
    ts\<lparr>ts_heap := (ts_heap ts)(c := (ts_heap ts c)\<lparr>outbox := outbox (ts_heap ts c) @
         [frame (index_payload MsgSendPiece idx @ d)]\<rparr>),
       ts_swarm := RecordUpload i (int (length d)) (ts_swarm ts)\<rparr>"
  using assms by (simp add: handlePieceRequest_def swarm_GetPiece_def Let_def Send_can)

lemma handlePieceRequest_changed:
  assumes "handlePieceRequest i idx ts \<noteq> ts"
  obtains d c where "\<not> IsChoking (ts_swarm ts) i" and "GetPiece (ts_pieces ts) idx = Some d"
    and "GetPeer (ts_swarm ts) i = Some c" and "can_send (ts_heap ts c)"
  using assms
  by (auto simp: handlePieceRequest_def swarm_GetPiece_def Let_def Send_Inr can_send_def
      split: if_splits option.splits sum.splits)

text \<open>Sending a list of requests: as many as the outbox has room for are queued, in order.\<close>

lemma request_all_outbox:
  assumes "\<not> is_closed (h c)" and "length (outbox (h c)) \<le> outbox_cap"
  shows "outbox (request_all c is h c) = outbox (h c) @
    map (\<lambda>idx. frame (index_payload MsgRequestPiece idx)) (take (outbox_cap - length (outbox (h c))) is)"
  using assms
proof (induction "is" arbitrary: h)
  case Nil
  then show ?case by simp
next
  case (Cons i "is")
  show ?case
  proof (cases "length (outbox (h c)) < outbox_cap")
    case True
    define h' where "h' = h(c := (h c)\<lparr>outbox := outbox (h c) @ [frame (index_payload MsgRequestPiece i)]\<rparr>)"
    have "requestPieceFromPeer c i h = Inr h'"
      using Cons.prems True by (simp add: requestPieceFromPeer_def Send_def Let_def h'_def)
    moreover have "h' c = (h c)\<lparr>outbox := outbox (h c) @ [frame (index_payload MsgRequestPiece i)]\<rparr>"
      by (simp add: h'_def)
    moreover have "outbox_cap - length (outbox (h c)) = Suc (outbox_cap - Suc (length (outbox (h c))))"
      using True by simp
    ultimately show ?thesis using Cons.IH [of h'] Cons.prems True by simp
  next
    case False
    then have "requestPieceFromPeer c i h = Inl OutboxFull"
      using Cons.prems by (simp add: requestPieceFromPeer_def Send_def Let_def)
    with Cons.IH [of h] Cons.prems False show ?thesis by simp
  qed
qed

text \<open>The two halves of the request protocol: the answer to a bitfield, and to the unchoke message.\<close>

lemma bitfield_answered:
  assumes "GetRarestMissingPieces (bitfield_ord env) (coins env) (UpdatePeerBitfield i bf (ts_swarm ts)) bf = Inr is"
    and "is \<noteq> []" and "GetPeer (ts_swarm ts) i = Some c" and "can_send (ts_heap ts c)"
  shows "dispatch env (rpc_from i addr (MsgBitfield # bf)) ts =
    Inr (ts\<lparr>ts_swarm := UpdatePeerBitfield i bf (ts_swarm ts),
      ts_heap := (ts_heap ts)(c := (ts_heap ts c)\<lparr>outbox := outbox (ts_heap ts c) @ [frame [MsgInterested]]\<rparr>),
      pendingRequests := fmupd i is (pendingRequests ts)\<rparr>, [])"
proof -
  have "GetPeer (UpdatePeerBitfield i bf (ts_swarm ts)) i = Some c"
    using assms(3) by (simp add: GetPeer_def UpdatePeerBitfield_def)
  then show ?thesis
    using assms(1,2) Send_can [OF assms(4), of "[MsgInterested]"]
    by (simp add: dispatch_bitfield handleBitfieldAnnouncement_def Let_def storePendingRequests_def)
qed

lemma unchoke_answered:
  assumes "fmlookup (pendingRequests ts) i = Some is" and "GetPeer (ts_swarm ts) i = Some c"
  shows "dispatch env (rpc_from i addr [MsgUnchoke]) ts =
    Inr ((on_swarm (SetPeerChoking i False) ts)\<lparr>pendingRequests := fmdrop i (pendingRequests ts),
      ts_heap := request_all c is (ts_heap ts)\<rparr>, [])"
proof -
  have "GetPeer (ts_swarm (on_swarm (SetPeerChoking i False) ts)) i = Some c"
    using assms(2) by (simp add: GetPeer_def on_swarm_def SetPeerChoking_def)
  then show ?thesis
    using assms(1) by (cases "is = []") (simp_all add: dispatch_unchoke sendPendingRequests_def on_swarm_def Let_def)
qed

lemma send_logged_keeps: "x \<in> set (outbox p) \<Longrightarrow> x \<in> set (outbox (send_logged m p))"
  by (simp add: send_logged_def Send_def Let_def split: sum.split)

lemma broadcast_keeps: "x \<in> set (outbox (h c)) \<Longrightarrow> x \<in> set (outbox (broadcast cs m h c))"
proof (induction cs arbitrary: h)
  case Nil
  then show ?case by simp
next
  case (Cons d cs)
  define h' where "h' = h(d := send_logged m (h d))"
  have "x \<in> set (outbox (h' c))" using Cons.prems by (auto simp: h'_def send_logged_keeps)
  then have "x \<in> set (outbox (broadcast cs m h' c))" by (rule Cons.IH)
  moreover have "broadcast (d # cs) m h = broadcast cs m h'" by (simp add: h'_def)
  ultimately show ?case by simp
qed

lemma broadcast_reaches:
  "c \<in> set cs \<Longrightarrow> can_send (h c) \<Longrightarrow> frame m \<in> set (outbox (broadcast cs m h c))"
proof (induction cs arbitrary: h)
  case Nil
  then show ?case by simp
next
  case (Cons d cs)
  show ?case
  proof (cases "d = c")
    case True
    then show ?thesis using Cons.prems(2)
      by (simp add: broadcast_keeps send_logged_def Send_can)
  next
    case False
    define h' where "h' = h(d := send_logged m (h d))"
    have "h' c = h c" using False by (simp add: h'_def)
    then have "frame m \<in> set (outbox (broadcast cs m h' c))" using Cons False by simp
    moreover have "broadcast (d # cs) m h = broadcast cs m h'" by (simp add: h'_def)
    ultimately show ?thesis by simp
  qed
qed

text \<open>A verified piece is announced to every peer, before anything else is queued.\<close>

lemma handlePiece_announces:
  assumes "handlePiece env i data ts = Inr (ts', effs)" and "4 \<le> length data"
    and "VerifyPiece (ts_pieces ts) (uint (get_u32 (take 4 data))) (drop 4 data)"
    and "c \<in> set (Peers (peer_ord env) (ts_swarm ts))" and "can_send (ts_heap ts c)"
  shows "frame (index_payload MsgHave (uint (get_u32 (take 4 data)))) \<in> set (outbox (ts_heap ts' c))"
proof -
  let ?i = "uint (get_u32 (take 4 data))"
  define ts2 where "ts2 = piece_accepted env i ?i (drop 4 data) ts"
  have in2: "frame (index_payload MsgHave ?i) \<in> set (outbox (ts_heap ts2 c))"
    using assms(4,5) broadcast_reaches
    by (simp add: ts2_def piece_accepted_def announceHave_def RecordDownload_def Peers_def)
  have "handlePiece env i data ts = (if AllPiecesReceived (ts_pieces ts2)
        then (case finish_download env ts2 of (ts3, effs) \<Rightarrow> Inr (ts3, SpawnUpdateStats # effs))
        else bindE (broadcast_bitfield env ts2) (\<lambda>ts3. Inr (ts3, [SpawnUpdateStats])))"
    unfolding handlePiece_cases ts2_def Let_def using assms(2,3) by simp
  then have "(\<exists>es. finish_download env ts2 = (ts', es)) \<or> broadcast_bitfield env ts2 = Inr ts'"
    unfolding assms(1) by (auto split: if_splits prod.splits simp: bindE_Inr_iff dest: sym)
  then consider es where "finish_download env ts2 = (ts', es)" | "broadcast_bitfield env ts2 = Inr ts'"
    by blast
  then show ?thesis
  proof cases
    case 1
    then have "ts' = ts2" using finish_download_state [of env ts2] by simp
    with in2 show ?thesis by simp
  next
    case 2
    with in2 show ?thesis by (auto simp: broadcast_bitfield_Inr broadcast_keeps)
  qed
qed

section \<open>Properties\<close>

text \<open>
  C15.  No message crashes the server: for a piece count that fits the allocations, every payload from
  every peer, in every state, is handled without a run-time panic.
\<close>

theorem dispatch_total:
  assumes "0 \<le> numPieces (ts_pieces ts)" and "8 * numPieces (ts_pieces ts) \<le> max_alloc"
  shows "\<exists>ts' effs. dispatch env rpc ts = Inr (ts', effs)"
  using dispatch_ok assms by (simp add: pieces_ok_def)

definition example_server :: server where
  "example_server = (NewTorrentServer (replicate 20 1) zero20 (NewPieceManagerWithHashes 2 (replicate 40 7))
     (\<lambda>_. NewTCPPeer True))\<lparr>ts_swarm := (NewSwarm (replicate 20 1) zero20
       \<lparr>numPieces = 2, pieces = fmupd 0 [10, 11] fmempty, pieceHashes = None\<rparr>)\<lparr>
         peers := fmap_of_list [([1], 1), ([2], 2)],
         peerStates := fmap_of_list [([1], (NewPeerState 0)\<lparr>AmChoking := False\<rparr>), ([2], NewPeerState 0)]\<rparr>\<rparr>"

definition example_step :: step_env where
  "example_step = \<lparr>peer_ord = [[1], [2]], bitfield_ord = [[1]], coins = even, mkdir_ok = True,
     write_file_ok = True, write_left = None\<rparr>"

lemma example_server_simps:
  "ts_pieces example_server = \<lparr>numPieces = 2, pieces = fmupd 0 [10, 11] fmempty, pieceHashes = None\<rparr>"
  "peers (ts_swarm example_server) = fmap_of_list [([1], 1), ([2], 2)]"
  "peerStates (ts_swarm example_server) =
     fmap_of_list [([1], (NewPeerState 0)\<lparr>AmChoking := False\<rparr>), ([2], NewPeerState 0)]"
  "peerBitfields (ts_swarm example_server) = fmempty"
  "ts_heap example_server = (\<lambda>_. NewTCPPeer True)"
  "pendingRequests example_server = fmempty"
  by (simp_all add: example_server_def NewTorrentServer_def NewSwarm_def)

theorem dispatch_total_witness:
  "\<exists>ts' effs. dispatch example_step (rpc_from [1] [] [255, 0, 0]) example_server = Inr (ts', effs)"
  by (rule dispatch_total) (simp_all add: example_server_simps max_alloc_def)

text \<open>
  C21.  A piece is served only to a peer that is not choked: when a request changes anything, the peer is
  registered and unchoked, the piece is held, exactly one message is queued, to that peer alone and with
  that piece and its index, and its length is added to the bytes uploaded to that peer.
\<close>

theorem piece_sent_only_unchoked:
  assumes "handlePieceRequest i idx ts \<noteq> ts"
  shows "\<exists>d c. \<not> IsChoking (ts_swarm ts) i \<and> GetPiece (ts_pieces ts) idx = Some d \<and>
    GetPeer (ts_swarm ts) i = Some c \<and>
    outbox (ts_heap (handlePieceRequest i idx ts) c) =
      outbox (ts_heap ts c) @ [frame (MsgSendPiece # put_u32 (word_of_int idx) @ d)] \<and>
    (\<forall>e. e \<noteq> c \<longrightarrow> ts_heap (handlePieceRequest i idx ts) e = ts_heap ts e) \<and>
    ts_swarm (handlePieceRequest i idx ts) = RecordUpload i (int (length d)) (ts_swarm ts)"
proof -
  obtain d c where served: "\<not> IsChoking (ts_swarm ts) i" "GetPiece (ts_pieces ts) idx = Some d"
    "GetPeer (ts_swarm ts) i = Some c" "can_send (ts_heap ts c)"
    using assms by (rule handlePieceRequest_changed)
  note eq = handlePieceRequest_served [OF served]
  show ?thesis unfolding eq
    by (intro exI [of _ d] exI [of _ c]) (simp add: served index_payload_def)
qed

theorem piece_sent_only_unchoked_witness:
  "outbox (ts_heap (handlePieceRequest [1] 0 example_server) 1) = [frame (MsgSendPiece # put_u32 0 @ [10, 11])]"
proof -
  have c: "GetPeer (ts_swarm example_server) [1] = Some 1"
    by (simp add: GetPeer_def example_server_simps fmap_of_list.rep_eq)
  have "handlePieceRequest [1] 0 example_server =
    example_server\<lparr>ts_heap := (ts_heap example_server)(1 := (ts_heap example_server 1)\<lparr>outbox := outbox (ts_heap example_server 1) @
         [frame (index_payload MsgSendPiece 0 @ [10, 11])]\<rparr>),
       ts_swarm := RecordUpload [1] (int (length [10 :: byte, 11])) (ts_swarm example_server)\<rparr>"
    by (rule handlePieceRequest_served)
      (simp_all add: IsChoking_def example_server_simps fmap_of_list.rep_eq IsAmChoking_def GetPiece_def c
        can_send_def NewTCPPeer_def outbox_cap_def)
  then have "ts_heap (handlePieceRequest [1] 0 example_server) 1 \<noteq> ts_heap example_server 1"
    by (simp add: example_server_simps NewTCPPeer_def)
  then have "handlePieceRequest [1] 0 example_server \<noteq> example_server" by auto
  from piece_sent_only_unchoked [OF this] c show ?thesis
    by (auto simp: example_server_simps GetPiece_def NewTCPPeer_def)
qed

text \<open>
  C9.  One piece crosses: a peer asks for an index in range, a server that holds the piece, does not
  choke the peer and has room in its outbox queues one message, and the peer that receives this message
  and finds it verified and new then holds exactly that piece under that index.
\<close>

theorem piece_exchange:
  assumes "0 \<le> idx" and "idx < 2 ^ 32" and "idx < numPieces (ts_pieces a)"
    and "\<not> IsChoking (ts_swarm b) ida" and "GetPiece (ts_pieces b) idx = Some d"
    and "GetPeer (ts_swarm b) ida = Some c" and "can_send (ts_heap b c)"
    and "VerifyPiece (ts_pieces a) idx d" and "GetPiece (ts_pieces a) idx = None"
    and "pieces_ok (numPieces (ts_pieces a))"
  shows "\<exists>b' m a' effs.
    dispatch envb (rpc_from ida addra (index_payload MsgRequestPiece idx)) b = Inr (b', []) \<and>
    outbox (ts_heap b' c) = outbox (ts_heap b c) @ [frame m] \<and>
    dispatch enva (rpc_from idb addrb m) a = Inr (a', effs) \<and>
    GetPiece (ts_pieces a') idx = Some d \<and>
    (\<forall>j. j \<noteq> idx \<longrightarrow> GetPiece (ts_pieces a') j = GetPiece (ts_pieces a) j)"
proof -
  let ?data = "put_u32 (word_of_int idx) @ d" and ?b' = "handlePieceRequest ida idx b"
  have req: "dispatch envb (rpc_from ida addra (index_payload MsgRequestPiece idx)) b = Inr (?b', [])"
    using assms(1,2) by (rule dispatch_request)
  have out: "outbox (ts_heap ?b' c) = outbox (ts_heap b c) @ [frame (MsgSendPiece # ?data)]"
    using handlePieceRequest_served [OF assms(4-7)] by (simp add: index_payload_def)
  obtain a' effs where res: "handlePiece enva idb ?data a = Inr (a', effs)"
    using handlePiece_total [OF assms(10), of enva idb ?data] by auto
  have idx: "uint (get_u32 (take 4 ?data)) = idx" "drop 4 ?data = d"
    using assms(1,2) by (simp_all add: uint_word_of_int)
  have "ts_pieces a' = (ts_pieces a)\<lparr>pieces := fmupd idx d (pieces (ts_pieces a))\<rparr>"
    using res
  proof (cases rule: handlePiece_Inr)
    case rejected
    define a2 where "a2 = piece_accepted enva idb idx d a"
    have "handlePiece enva idb ?data a = (if AllPiecesReceived (ts_pieces a2)
        then (case finish_download enva a2 of (ts3, effs) \<Rightarrow> Inr (ts3, SpawnUpdateStats # effs))
        else bindE (broadcast_bitfield enva a2) (\<lambda>ts3. Inr (ts3, [SpawnUpdateStats])))"
      unfolding handlePiece_cases idx a2_def Let_def using assms(8) by simp
    with res rejected show ?thesis by (auto split: if_splits prod.splits simp: bindE_Inr_iff)
  next
    case (accepted i e)
    have ie: "i = idx" "e = d" unfolding accepted(2,3) idx by simp_all
    have "AddPiece (ts_pieces a) idx d = Inr ((ts_pieces a)\<lparr>pieces := fmupd idx d (pieces (ts_pieces a))\<rparr>)"
      using assms(1,3,9) by (simp add: AddPiece_Inr_iff GetPiece_def)
    then show ?thesis
      using accepted(5) assms(8) by (simp add: ie piece_accepted_pieces offer_def)
  qed
  then have "GetPiece (ts_pieces a') j = (if j = idx then Some d else GetPiece (ts_pieces a) j)" for j
    by (simp add: GetPiece_def)
  with req out res show ?thesis by (metis dispatch_piece)
qed

theorem piece_exchange_witness:
  "\<exists>b' m a' effs.
    dispatch example_step (rpc_from [1] [] (index_payload MsgRequestPiece 0)) example_server = Inr (b', []) \<and>
    dispatch example_step (rpc_from [9] [] m)
      (NewTorrentServer [1] zero20 (NewPieceManager 2) (\<lambda>_. NewTCPPeer True)) = Inr (a', effs) \<and>
    GetPiece (ts_pieces a') 0 = Some [10, 11]"
proof -
  let ?a = "NewTorrentServer [1] zero20 (NewPieceManager 2) (\<lambda>_. NewTCPPeer True)"
  have a: "ts_pieces ?a = NewPieceManager 2" by (simp add: NewTorrentServer_def NewSwarm_def)
  have "0 < numPieces (ts_pieces ?a)" "VerifyPiece (ts_pieces ?a) 0 [10, 11]" "GetPiece (ts_pieces ?a) 0 = None"
    "pieces_ok (numPieces (ts_pieces ?a))"
    unfolding a by (simp_all add: NewPieceManager_def VerifyPiece_def GetPiece_def pieces_ok_def max_alloc_def)
  moreover have "\<not> IsChoking (ts_swarm example_server) [1]" "GetPiece (ts_pieces example_server) 0 = Some [10, 11]"
    "GetPeer (ts_swarm example_server) [1] = Some 1" "can_send (ts_heap example_server 1)"
    by (simp_all add: IsChoking_def GetPeer_def example_server_simps fmap_of_list.rep_eq IsAmChoking_def
        GetPiece_def can_send_def NewTCPPeer_def outbox_cap_def)
  ultimately show ?thesis
    using piece_exchange [of 0 ?a example_server "[1]" "[10, 11]" 1 example_step "[]" example_step "[9]" "[]"]
    by auto
qed

text \<open>
  The request protocol: a bitfield with something new is answered by one interested message and
  the rarest-first list is remembered; the unchoke message then queues one request for each piece of
  the list, in that order, and forgets it.
\<close>

theorem bitfield_then_unchoke:
  assumes "GetRarestMissingPieces (bitfield_ord env) (coins env) (UpdatePeerBitfield i bf (ts_swarm ts)) bf = Inr is"
    and "is \<noteq> []" and "GetPeer (ts_swarm ts) i = Some c" and "\<not> is_closed (ts_heap ts c)"
    and "length (outbox (ts_heap ts c)) + 1 + length is \<le> outbox_cap"
  shows "\<exists>ts1 ts2. dispatch env (rpc_from i addr (MsgBitfield # bf)) ts = Inr (ts1, []) \<and>
    outbox (ts_heap ts1 c) = outbox (ts_heap ts c) @ [frame [MsgInterested]] \<and>
    fmlookup (pendingRequests ts1) i = Some is \<and>
    dispatch env' (rpc_from i addr' [MsgUnchoke]) ts1 = Inr (ts2, []) \<and>
    outbox (ts_heap ts2 c) = outbox (ts_heap ts1 c) @ map (\<lambda>idx. frame (index_payload MsgRequestPiece idx)) is \<and>
    fmlookup (pendingRequests ts2) i = None"
proof -
  have "can_send (ts_heap ts c)" using assms(4,5) by (simp add: can_send_def)
  note one = bitfield_answered [OF assms(1-3) this, of addr]
  let ?p = "(ts_heap ts c)\<lparr>outbox := outbox (ts_heap ts c) @ [frame [MsgInterested]]\<rparr>"
  let ?ts1 = "ts\<lparr>ts_swarm := UpdatePeerBitfield i bf (ts_swarm ts), ts_heap := (ts_heap ts)(c := ?p),
    pendingRequests := fmupd i is (pendingRequests ts)\<rparr>"
  have "GetPeer (ts_swarm ?ts1) i = Some c" using assms(3) by (simp add: GetPeer_def UpdatePeerBitfield_def)
  then have two: "dispatch env' (rpc_from i addr' [MsgUnchoke]) ?ts1 =
      Inr ((on_swarm (SetPeerChoking i False) ?ts1)\<lparr>pendingRequests := fmdrop i (pendingRequests ?ts1),
        ts_heap := request_all c is (ts_heap ?ts1)\<rparr>, [])"
    by (intro unchoke_answered) simp_all
  have "outbox (request_all c is ((ts_heap ts)(c := ?p)) c) =
      outbox ?p @ map (\<lambda>idx. frame (index_payload MsgRequestPiece idx)) is"
    using assms(4,5) by (subst request_all_outbox) simp_all
  then show ?thesis using one two by auto
qed

lemma example_rarest:
  "GetRarestMissingPieces [[2]] even (UpdatePeerBitfield [2] [0x40] (ts_swarm example_server)) [0x40] = Inr [1]"
proof -
  let ?s = "UpdatePeerBitfield [2] [0x40] (ts_swarm example_server)"
  have s: "swarm_pieces ?s = ts_pieces example_server" "peerBitfields ?s = fmupd [2] [0x40] fmempty"
    by (simp_all add: UpdatePeerBitfield_def example_server_simps)
  have "enumerates [[2]] (peerBitfields ?s)" by (simp add: enumerates_def s)
  moreover have "0 \<le> numPieces (swarm_pieces ?s)" "8 * numPieces (swarm_pieces ?s) \<le> max_alloc"
    by (simp_all add: s example_server_simps max_alloc_def)
  ultimately obtain cs :: "pieceRarity list" where cs: "GetRarestMissingPieces [[2]] even ?s [0x40] = Inr (map rar_index cs)"
    "mset (map rar_index cs) = mset (MissingPieces (swarm_pieces ?s) [0x40])"
    by (rule GetRarest_Inr)
  have "MissingPieces (swarm_pieces ?s) [0x40] = [1]"
    by (simp add: MissingPieces_filter s example_server_simps has_piece_def bf_get_def bf_bit_def upt_rec)
  then have "map rar_index cs = [1]" using cs(2) by (simp del: mset_map)
  with cs(1) show ?thesis by simp
qed

theorem bitfield_then_unchoke_witness:
  "\<exists>ts1 ts2. dispatch (example_step\<lparr>bitfield_ord := [[2]]\<rparr>) (rpc_from [2] [] [MsgBitfield, 0x40]) example_server = Inr (ts1, []) \<and>
    dispatch example_step (rpc_from [2] [] [MsgUnchoke]) ts1 = Inr (ts2, []) \<and>
    outbox (ts_heap ts2 2) = [frame [MsgInterested], frame (index_payload MsgRequestPiece 1)]"
  using bitfield_then_unchoke [of "example_step\<lparr>bitfield_ord := [[2]]\<rparr>" "[2]" "[0x40]" example_server "[1]" 2 "[]" example_step "[]"]
    example_rarest
  by (auto simp: example_step_def GetPeer_def example_server_simps fmap_of_list.rep_eq NewTCPPeer_def outbox_cap_def)

text \<open>
  Requests that do not fit into the outbox are lost: the unchoke handler forgets the whole list
  first, and what \<open>Send\<close> refuses is only logged, so of a list longer than the free room only a prefix is
  ever requested.
\<close>

theorem requests_lost:
  assumes "fmlookup (pendingRequests ts) i = Some is" and "GetPeer (ts_swarm ts) i = Some c"
    and "\<not> is_closed (ts_heap ts c)" and "length (outbox (ts_heap ts c)) \<le> outbox_cap"
  shows "\<exists>ts'. dispatch env (rpc_from i addr [MsgUnchoke]) ts = Inr (ts', []) \<and>
    fmlookup (pendingRequests ts') i = None \<and>
    outbox (ts_heap ts' c) = outbox (ts_heap ts c) @ map (\<lambda>idx. frame (index_payload MsgRequestPiece idx))
      (take (outbox_cap - length (outbox (ts_heap ts c))) is)"
proof -
  let ?ts1 = "on_swarm (SetPeerChoking i False) ts"
  have "GetPeer (ts_swarm ?ts1) i = Some c"
    using assms(2) by (simp add: GetPeer_def on_swarm_def SetPeerChoking_def)
  then show ?thesis
    using assms request_all_outbox [of "ts_heap ts" c "is"]
    by (simp add: dispatch_unchoke sendPendingRequests_def on_swarm_def Let_def)
qed

theorem requests_lost_witness:
  "\<exists>ts'. dispatch example_step (rpc_from [1] [] [MsgUnchoke])
      (example_server\<lparr>pendingRequests := fmupd [1] [0..4999] fmempty\<rparr>) = Inr (ts', []) \<and>
    length (outbox (ts_heap ts' 1)) = 2048 \<and> fmlookup (pendingRequests ts') [1] = None"
  using requests_lost [of "example_server\<lparr>pendingRequests := fmupd [1] [0..4999] fmempty\<rparr>" "[1]" "[0..4999]" 1 example_step "[]"]
  by (auto simp: GetPeer_def example_server_simps fmap_of_list.rep_eq NewTCPPeer_def outbox_cap_def)

text \<open>
  Nothing a peer announces makes the server request a piece at once: a bitfield queues at most the
  interested message and a have message queues nothing, also when the peer has already unchoked us and
  so will send no further unchoke message.
\<close>

theorem announcement_never_requests:
  assumes "dispatch env (rpc_from i addr (m # data)) ts = Inr (ts', effs)" and "m = MsgBitfield \<or> m = MsgHave"
  shows "outbox (ts_heap ts' c) = outbox (ts_heap ts c) \<or>
    m = MsgBitfield \<and> outbox (ts_heap ts' c) = outbox (ts_heap ts c) @ [frame [MsgInterested]]"
  using assms(2)
proof
  assume m: "m = MsgBitfield"
  then have "handleBitfieldAnnouncement env i data ts = Inr ts'"
    using assms(1) by (auto simp: dispatch_bitfield bindE_Inr_iff)
  then show ?thesis
    by (auto simp: handleBitfieldAnnouncement_def bindE_Inr_iff Let_def storePendingRequests_def Send_Inr m
        split: if_splits option.splits sum.splits)
next
  assume m: "m = MsgHave"
  then show ?thesis
    using assms(1) by (auto simp: dispatch_def rpc_from_def dispatch_msgs bindE_Inr_iff split: if_splits)
qed

theorem announcement_never_requests_witness:
  "\<exists>ts'. dispatch example_step (rpc_from [2] [] [MsgHave, 0, 0, 0, 1]) example_server = Inr (ts', []) \<and>
     outbox (ts_heap ts' 2) = []"
proof -
  let ?m = "rpc_from [2] [] (MsgHave # [0, 0, 0, 1])"
  have "make_bytes (bitfield_size 2) = Inr [0]"
    by (simp add: bitfield_size_def make_bytes_def int64_ok_def signed_divide_int_def max_alloc_def)
  then obtain ts' where run: "dispatch example_step ?m example_server = Inr (ts', [])"
    by (auto simp: dispatch_def rpc_from_def dispatch_msgs SetPeerHasPiece_def example_server_simps NumPieces_def)
  from announcement_never_requests [OF this, of 2] run show ?thesis
    by (auto simp: example_server_simps NewTCPPeer_def dispatch_msgs)
qed

text \<open>
  Every piece that passes verification is announced to every peer with room in its outbox, also
  when \<open>AddPiece\<close> refuses it: without piece hashes, a peer can make the server announce any index at
  all, and the piece manager stays as it was.
\<close>

theorem bogus_piece_announced:
  assumes "pieceHashes (ts_pieces ts) = None" and "0 \<le> idx" and "idx < 2 ^ 32" and "numPieces (ts_pieces ts) \<le> idx"
    and "dispatch env (rpc_from i addr (MsgSendPiece # put_u32 (word_of_int idx) @ d)) ts = Inr (ts', effs)"
    and "c \<in> set (Peers (peer_ord env) (ts_swarm ts))" and "can_send (ts_heap ts c)"
  shows "ts_pieces ts' = ts_pieces ts \<and> frame (index_payload MsgHave idx) \<in> set (outbox (ts_heap ts' c))"
proof -
  let ?data = "put_u32 (word_of_int idx) @ d"
  have run: "handlePiece env i ?data ts = Inr (ts', effs)" using assms(5) by (simp add: dispatch_piece)
  have idx: "uint (get_u32 (take 4 ?data)) = idx" "drop 4 ?data = d"
    using assms(2,3) by (simp_all add: uint_word_of_int)
  have ver: "VerifyPiece (ts_pieces ts) x y" for x y using assms(1) by (simp add: VerifyPiece_def)
  have "frame (index_payload MsgHave idx) \<in> set (outbox (ts_heap ts' c))"
    using handlePiece_announces [OF run _ ver assms(6,7)] unfolding idx by simp
  moreover have "ts_pieces ts' = ts_pieces ts"
    using run
  proof (cases rule: handlePiece_Inr)
    case (accepted j e)
    have "j = idx" "e = d" unfolding accepted(2,3) idx by simp_all
    then show ?thesis using accepted(5) ver assms(4) by (simp add: piece_accepted_pieces offer_def AddPiece_def)
  qed simp
  ultimately show ?thesis by blast
qed

theorem bogus_piece_announced_witness:
  "\<exists>ts' effs. dispatch example_step (rpc_from [1] [] (MsgSendPiece # put_u32 (word_of_int 77) @ [5])) example_server = Inr (ts', effs) \<and>
     ts_pieces ts' = ts_pieces example_server \<and> frame (index_payload MsgHave 77) \<in> set (outbox (ts_heap ts' 2))"
proof -
  have "pieces_ok (numPieces (ts_pieces example_server))"
    by (simp add: example_server_simps pieces_ok_def max_alloc_def)
  then obtain ts' effs where run:
    "dispatch example_step (rpc_from [1] [] (MsgSendPiece # put_u32 (word_of_int 77) @ [5])) example_server = Inr (ts', effs)"
    using handlePiece_total [of example_server example_step "[1]"] by (fastforce simp: dispatch_piece)
  have "ts_pieces ts' = ts_pieces example_server \<and> frame (index_payload MsgHave 77) \<in> set (outbox (ts_heap ts' 2))"
    by (rule bogus_piece_announced [OF _ _ _ _ run])
      (simp_all add: example_server_simps example_step_def Peers_def List.map_filter_def fmap_of_list.rep_eq
        can_send_def NewTCPPeer_def outbox_cap_def)
  with run show ?thesis by blast
qed

text \<open>
  Stopping the server panics: \<open>Stop\<close> closes the channel that ends the loop, and the loop's deferred
  \<open>Stop\<close> closes it again.
\<close>

theorem stop_panics:
  assumes "Stop ts = Inr ts'"
  shows "loop_quit ts' = ([AnnounceNow ''stopped''], Inl CloseClosedChannel)"
  using assms by (auto simp: Stop_def loop_quit_def split: if_splits)

theorem stop_panics_witness:
  "\<exists>ts'. Stop example_server = Inr ts' \<and> loop_quit ts' = ([AnnounceNow ''stopped''], Inl CloseClosedChannel)"
proof -
  have "Stop example_server = Inr (example_server\<lparr>quit_closed := True\<rparr>)"
    by (simp add: Stop_def example_server_def NewTorrentServer_def)
  from stop_panics [OF this] this show ?thesis by blast
qed

end
