(* ===== verification/Download_Run.thy ===== *)
theory Download_Run
  imports Torrent_Server
begin

text \<open>
  Runs of a torrent server: its loop handles messages and ticks while connections are accepted, lost
  and drained by other goroutines.  Every interleaving is a sequence of the steps below; a panic ends the
  process and has no successor.  The theorems are invariants of all reachable states and the end-to-end
  correctness of what is written to disk.
\<close>

inductive server_step :: "server \<Rightarrow> effect list \<Rightarrow> server \<Rightarrow> bool" where
  message: "dispatch env rpc ts = Inr (ts', effs) \<Longrightarrow> server_step ts effs ts'"
| unchoke: "env_ok uenv (ts_swarm ts) \<Longrightarrow> server_step ts [] (runUnchokeRound uenv ts)"
| announce: "server_step ts [SpawnAnnounce ''''] ts"
| connect: "\<forall>i. fmlookup (peers (ts_swarm ts)) i \<noteq> Some c \<Longrightarrow>
    handleConn_open (OnPeer now) hash localID c outb write_ok e input (ts_heap ts) (ts_swarm ts) = (w, r, h, s) \<Longrightarrow>
    (\<forall>p. r \<noteq> Inl (Panic p)) \<Longrightarrow>
    server_step ts [] (ts\<lparr>ts_heap := h, ts_swarm := s\<rparr>)"
| lost: "server_step ts [] (ts\<lparr>ts_heap := (ts_heap ts)(c := Close (ts_heap ts c))\<rparr>)"
| drain: "outbox (ts_heap ts c) = buf # bufs \<Longrightarrow>
    server_step ts [] (ts\<lparr>ts_heap := (ts_heap ts)(c := (ts_heap ts c)\<lparr>outbox := bufs\<rparr>)\<rparr>)"
| stop: "Stop ts = Inr ts' \<Longrightarrow> server_step ts [] ts'"

inductive_cases server_stepE: "server_step ts effs ts'"

inductive server_run :: "server \<Rightarrow> effect list \<Rightarrow> server \<Rightarrow> bool" where
  start: "server_run ts [] ts"
| more: "server_run ts effs ts' \<Longrightarrow> server_step ts' effs' ts'' \<Longrightarrow> server_run ts (effs @ effs') ts''"

lemma loop_step_server_step:
  assumes "loop_step env ev ts = Inr (ts', effs)" and "\<And>uenv. ev = UnchokeTick uenv \<Longrightarrow> env_ok uenv (ts_swarm ts)"
  shows "server_step ts effs ts'"
  using assms by (cases ev) (auto simp: loop_step_def intro: server_step.intros)

lemma handleConn_open_pieces:
  assumes "handleConn_open (OnPeer now) hash localID c outb write_ok e input h s = (w, r, h', s')"
  shows "swarm_pieces s' = swarm_pieces s"
  using assms
  by (auto simp: handleConn_open_def OnPeer_def Let_def split: prod.splits sum.splits fail.splits if_splits)

lemma handleConn_open_wf:
  assumes "handleConn_open (OnPeer now) hash localID c outb write_ok e input h s = (w, r, h', s')"
    and "swarm_wf h s" and "\<forall>i. fmlookup (peers s) i \<noteq> Some c"
  shows "swarm_wf h' s'"
proof (cases "\<exists>peerID rest. snd (DefaultHandshakeFunc hash localID outb write_ok e input) = Inr (peerID, rest) \<and> peerID \<noteq> localID")
  case True
  then obtain peerID rest where hs: "snd (DefaultHandshakeFunc hash localID outb write_ok e input) = Inr (peerID, rest)"
    and "peerID \<noteq> localID" by blast
  have wf: "swarm_wf (h(c := p)) s" for p using assms(2,3) by (auto simp: swarm_wf_def)
  obtain w' where "DefaultHandshakeFunc hash localID outb write_ok e input = (w', Inr (peerID, rest))"
    using hs by (cases "DefaultHandshakeFunc hash localID outb write_ok e input") simp
  moreover obtain r0 h0 s0 where on: "OnPeer now c (h(c := SetID (NewTCPPeer outb) peerID)) s = (r0, h0, s0)"
    by (cases "OnPeer now c (h(c := SetID (NewTCPPeer outb) peerID)) s") auto
  ultimately have "s' = s0" "h' = h0 \<or> h' = h0(c := Close (h0 c))"
    using assms(1) \<open>peerID \<noteq> localID\<close>
    by (auto simp: handleConn_open_def Let_def ID_def SetID_def split: sum.splits fail.splits)
  moreover have "swarm_wf h0 s0" using OnPeer_wf [OF wf on] .
  ultimately show ?thesis by (auto simp: swarm_wf_def)
next
  case False
  have "ID (SetID (NewTCPPeer outb) i) = i" for i by (simp add: ID_def SetID_def)
  then have "s' = s \<and> (\<forall>d. d \<noteq> c \<longrightarrow> h' d = h d)"
    using assms(1) False
    by (auto simp: handleConn_open_def Let_def split: prod.splits sum.splits fail.splits if_splits)
  with assms(2,3) show ?thesis by (auto simp: swarm_wf_def)
qed

text \<open>Every step offers pieces at most, and keeps the swarm well-formed.\<close>

lemma server_step_pieces: "server_step ts effs ts' \<Longrightarrow> pieces_step ts effs ts'"
proof (induction rule: server_step.induct)
  case (message env rpc ts ts' effs)
  then show ?case by (rule dispatch_pieces_step)
next
  case (unchoke uenv ts)
  obtain as s' where run: "RunUnchokeAlgorithm uenv (ts_swarm ts) = (as, s')" by fastforce
  show ?case using RunUnchoke_spec(6) [OF unchoke run] run
    by (intro pieces_step_same) (simp_all add: runUnchokeRound_def)
next
  case (connect ts c now hash localID outb write_ok e input w r h s)
  then show ?case using handleConn_open_pieces [OF connect(2)] by (intro pieces_step_same) simp_all
next
  case (stop ts ts')
  then show ?case by (intro pieces_step_same) (auto simp: Stop_def split: if_splits)
qed (auto intro!: pieces_step_same)

lemma server_step_wf:
  "server_step ts effs ts' \<Longrightarrow> swarm_wf (ts_heap ts) (ts_swarm ts) \<Longrightarrow> swarm_wf (ts_heap ts') (ts_swarm ts')"
proof (induction rule: server_step.induct)
  case (message env rpc ts ts' effs)
  then show ?case by (rule dispatch_wf)
next
  case (unchoke uenv ts)
  obtain as s' where run: "RunUnchokeAlgorithm uenv (ts_swarm ts) = (as, s')" by fastforce
  have "swarm_wf (ts_heap ts) s'" using unchoke(1) run unchoke(2) by (rule RunUnchoke_wf)
  then show ?case using run by (auto simp: runUnchokeRound_def swarm_wf_def send_actions_peer_id)
next
  case (connect ts c now hash localID outb write_ok e input w r h s)
  then show ?case using handleConn_open_wf [OF connect(2,4,1)] by simp
next
  case (stop ts ts')
  then show ?case by (auto simp: Stop_def split: if_splits)
qed (auto simp: swarm_wf_def)

lemma offers_append: "offers mgr (ps @ qs) = offers (offers mgr ps) qs"
  by simp

lemma server_run_pieces:
  "server_run ts effs ts' \<Longrightarrow>
     (\<exists>ps. ts_pieces ts' = offers (ts_pieces ts) ps) \<and>
     (\<forall>e \<in> set effs. file_effect e \<longrightarrow>
        (\<exists>ps qs full. ts_pieces ts' = offers (ts_pieces ts) (ps @ qs) \<and> AllPiecesReceived (offers (ts_pieces ts) ps) \<and>
          ReconstructData (offers (ts_pieces ts) ps) = Some full \<and> leaves e full))"
proof (induction rule: server_run.induct)
  case (start ts)
  show ?case by (auto intro: exI [of _ "[]"])
next
  case (more ts effs ts' effs' ts'')
  obtain ps where ps: "ts_pieces ts' = offers (ts_pieces ts) ps" using more.IH by blast
  have step: "pieces_step ts' effs' ts''" using more.hyps(2) by (rule server_step_pieces)
  then obtain qs where "ts_pieces ts'' = offers (ts_pieces ts') qs" by (auto simp: pieces_step_def)
  with ps have pqs: "ts_pieces ts'' = offers (ts_pieces ts) (ps @ qs)" by simp
  have "\<exists>ps qs full. ts_pieces ts'' = offers (ts_pieces ts) (ps @ qs) \<and> AllPiecesReceived (offers (ts_pieces ts) ps) \<and>
      ReconstructData (offers (ts_pieces ts) ps) = Some full \<and> leaves e full"
    if e: "e \<in> set (effs @ effs')" "file_effect e" for e
  proof (cases "e \<in> set effs")
    case True
    then obtain ps1 qs1 full where "ts_pieces ts' = offers (ts_pieces ts) (ps1 @ qs1)"
        "AllPiecesReceived (offers (ts_pieces ts) ps1)" "ReconstructData (offers (ts_pieces ts) ps1) = Some full" "leaves e full"
      using more.IH e(2) by blast
    moreover from this(1) have "ts_pieces ts'' = offers (ts_pieces ts) (ps1 @ (qs1 @ qs))"
      using \<open>ts_pieces ts'' = offers (ts_pieces ts') qs\<close> by simp
    ultimately show ?thesis by blast
  next
    case False
    with e step obtain full where "AllPiecesReceived (ts_pieces ts'')" "ReconstructData (ts_pieces ts'') = Some full" "leaves e full"
      by (auto simp: pieces_step_def)
    moreover have "ts_pieces ts'' = offers (ts_pieces ts) ((ps @ qs) @ [])" using pqs by simp
    ultimately show ?thesis unfolding pqs by blast
  qed
  with pqs show ?case by blast
qed

lemma offers_keep: "GetPiece mgr i = Some d \<Longrightarrow> GetPiece (offers mgr ps) i = Some d"
proof (induction ps arbitrary: mgr)
  case Nil
  then show ?case by simp
next
  case (Cons p ps)
  then show ?case by (cases p) (simp add: pm_store.offer_mono)
qed

lemma offers_verified: "pm_verified mgr \<Longrightarrow> pm_verified (offers mgr ps)"
  unfolding pm_verified_def
  using pm_store.offers_integrity [of mgr ps] offers_frame [of mgr ps] VerifyPiece_frame [of "offers mgr ps" mgr]
  by auto

lemma new_server_simps [simp]:
  "ts_pieces (NewTorrentServer peerID hash mgr h) = mgr"
  "swarm_wf (ts_heap (NewTorrentServer peerID hash mgr h)) (ts_swarm (NewTorrentServer peerID hash mgr h))"
  by (simp_all add: NewTorrentServer_def) (simp add: NewSwarm_def)

lemma server_run_wf:
  "server_run ts effs ts' \<Longrightarrow> swarm_wf (ts_heap ts) (ts_swarm ts) \<Longrightarrow> swarm_wf (ts_heap ts') (ts_swarm ts')"
  by (induction rule: server_run.induct) (auto intro: server_step_wf)

section \<open>What a run leaves on disk\<close>

text \<open>
  A piece that the server holds and that is not the seeder's, although it has the same SHA-1.  A
  downloader starts without pieces, so it has received every piece it holds.
\<close>

definition holds_collision :: "server \<Rightarrow> nat \<Rightarrow> bytes \<Rightarrow> bool" where
  "holds_collision ts k data \<longleftrightarrow>
     (\<exists>i d. i < chunk_count k data \<and> GetPiece (ts_pieces ts) (int i) = Some d \<and> d \<noteq> chunk k data i \<and>
        sha1_Sum d = sha1_Sum (chunk k data i))"

lemma run_leaves:
  assumes start: "seed_ok data k" "runSeed data (int k) = Inr (h, seeder)" "pieceHashes seeder = Some hs"
      "runDownload (hex_encode h) (numPieces seeder) (hex_encode hs) = Inr (h', mgr)"
    and run: "server_run (NewTorrentServer peerID h' mgr heap0) effs ts"
    and no_collision: "\<not> holds_collision ts k data" and e: "e \<in> set effs" "file_effect e"
  shows "leaves e data"
proof -
  have "ts_pieces (NewTorrentServer peerID h' mgr heap0) = mgr" by simp
  with server_run_pieces [OF run] e
  obtain ps qs full where pieces: "ts_pieces ts = offers mgr (ps @ qs)" and all: "AllPiecesReceived (offers mgr ps)"
    and full: "ReconstructData (offers mgr ps) = Some full" "leaves e full" by metis
  have "ReconstructData (offers mgr ps) = Some data"
  proof (rule held_reconstruct [OF start refl all])
    fix i d
    assume i: "i < chunk_count k data" "sha1_Sum d = sha1_Sum (chunk k data i)" and "GetPiece (offers mgr ps) (int i) = Some d"
    then have "GetPiece (ts_pieces ts) (int i) = Some d"
      using offers_keep [of "offers mgr ps" "int i" d qs] by (simp only: pieces offers_append)
    with no_collision i show "d = chunk k data i" by (auto simp: holds_collision_def)
  qed
  with full show ?thesis by simp
qed

section \<open>Properties\<close>

text \<open>
  C1.  End to end: a server started with what the seeder prints, for a piece size within the seeder's
  bounds (\<open>seed_ok\<close>), in any run whatever its peers send and however connections come and go, writes no other file than the seeder's, and a write that fails leaves
  no more than the first bytes of it, unless the server has taken in a piece that differs from the
  seeder's but has the same SHA-1.
\<close>

theorem written_file_correct:
  assumes "seed_ok data k" and "runSeed data (int k) = Inr (h, seeder)" and "pieceHashes seeder = Some hs"
    and "runDownload (hex_encode h) (numPieces seeder) (hex_encode hs) = Inr (h', mgr)"
    and "server_run (NewTorrentServer peerID h' mgr heap0) effs ts"
  shows "(\<forall>x. WriteFile x \<in> set effs \<longrightarrow> x = data) \<and> (\<forall>x. PartialFile x \<in> set effs \<longrightarrow> prefix x data) \<or>
    (\<exists>i d. i < chunk_count k data \<and> GetPiece (ts_pieces ts) (int i) = Some d \<and> d \<noteq> chunk k data i \<and>
       sha1_Sum d = sha1_Sum (chunk k data i))"
  using run_leaves [OF assms] unfolding holds_collision_def by fastforce

text \<open>A run that downloads a file of one byte.\<close>

lemma one_byte_count: "chunk_count 1 [7] = 1"
  by (simp add: chunk_count_def)

lemma one_byte_chunk: "chunk 1 [7] 0 = [7]"
  by (simp add: chunk_def)

lemmas one_byte = one_byte_count one_byte_count [simplified] one_byte_chunk one_byte_chunk [simplified]

lemma one_byte_seed: "seed_ok [7] 1"
  by (simp add: seed_ok_def one_byte max_alloc_def)

text \<open>The message that completes it, at a downloader without peers.\<close>

definition one_byte_rpc :: RPC where
  "one_byte_rpc = rpc_from zero20 [] (MsgSendPiece # put_u32 (0 :: 32 word) @ [7])"

lemma one_byte_message:
  assumes s: "runSeed [7] (int 1) = Inr (h, s)" and hs: "pieceHashes s = Some hs"
    and dl: "runDownload (hex_encode h) (numPieces s) (hex_encode hs) = Inr (h', mgr)"
  shows "\<exists>ts x. dispatch example_step one_byte_rpc (NewTorrentServer i h' mgr heap0) =
    Inr (ts, [SpawnUpdateStats, WriteFile x, SpawnAnnounce ''completed''])"
proof -
  note start = download_start [OF one_byte_seed s hs dl]
  let ?ts = "NewTorrentServer i h' mgr heap0" and ?data = "put_u32 (0 :: 32 word) @ [7]"
  have ver: "VerifyPiece mgr 0 [7]"
    using VerifyPiece_same [OF start(5), of 0 "[7]"] by (simp add: one_byte)
  define ts2 where "ts2 = piece_accepted example_step zero20 0 [7] ?ts"
  have pieces: "ts_pieces ts2 = offers mgr [(0, [7])]" using ver by (simp add: ts2_def piece_accepted_pieces)
  have all: "AllPiecesReceived (ts_pieces ts2)"
    unfolding pieces by (rule download_all_chunks [OF one_byte_seed s hs dl]) (simp add: one_byte)
  have "pm_inv (ts_pieces ts2)" and "0 \<le> numPieces (ts_pieces ts2)"
    unfolding pieces using offers_inv [OF start(4), of "[(0, [7])]"] offers_frame [of mgr "[(0, [7])]"] start(2)
    by simp_all
  then have "ReconstructData (ts_pieces ts2) \<noteq> None"
    using all all_pieces ReconstructData_None by blast
  then obtain x where x: "ReconstructData (ts_pieces ts2) = Some x" by blast
  have "finish_download example_step ts2 = (ts2, [WriteFile x, SpawnAnnounce ''completed''])"
    using x by (simp add: finish_download_def example_step_def)
  then have "handlePiece example_step zero20 ?data ?ts =
      Inr (ts2, [SpawnUpdateStats, WriteFile x, SpawnAnnounce ''completed''])"
    unfolding handlePiece_cases using ver all by (simp add: Let_def ts2_def [symmetric])
  then have "dispatch example_step one_byte_rpc ?ts = Inr (ts2, [SpawnUpdateStats, WriteFile x, SpawnAnnounce ''completed''])"
    by (simp only: dispatch_piece one_byte_rpc_def)
  then show ?thesis by blast
qed

lemma one_byte_run:
  obtains h s hs h' mgr effs ts x where "runSeed [7] (int 1) = Inr (h, s)" and "pieceHashes s = Some hs"
    and "runDownload (hex_encode h) (numPieces s) (hex_encode hs) = Inr (h', mgr)"
    and "server_run (NewTorrentServer zero20 h' mgr (\<lambda>_. NewTCPPeer True)) effs ts" and "WriteFile x \<in> set effs"
proof -
  obtain s where s: "runSeed [7] (int 1) = Inr (sha1_Sum [7], s)" and same: "same_torrent 1 [7] s"
    using one_byte_seed by (rule runSeed_ok)
  define hs where "hs = chunk_hashes 1 [7] (chunk_count 1 [7])"
  have hs: "pieceHashes s = Some hs" and n: "numPieces s = int (chunk_count 1 [7])"
    using same by (simp_all add: same_torrent_def hs_def)
  obtain mgr where dl: "runDownload (hex_encode (sha1_Sum [7])) (numPieces s) (hex_encode hs) = Inr (sha1_Sum [7], mgr)"
    unfolding n hs_def runDownload_printed [of 1 "[7]", OF zero_less_one] by blast
  let ?ts = "NewTorrentServer zero20 (sha1_Sum [7]) mgr (\<lambda>_. NewTCPPeer True)"
  obtain ts2 x where "dispatch example_step one_byte_rpc ?ts = Inr (ts2, [SpawnUpdateStats, WriteFile x, SpawnAnnounce ''completed''])"
    using one_byte_message [OF s hs dl] by blast
  then have "server_step ?ts [SpawnUpdateStats, WriteFile x, SpawnAnnounce ''completed''] ts2"
    by (rule server_step.message)
  with server_run.start have "server_run ?ts ([] @ [SpawnUpdateStats, WriteFile x, SpawnAnnounce ''completed'']) ts2"
    by (rule server_run.more)
  from that [OF s hs dl this, of x] show thesis by simp
qed

theorem written_file_correct_witness:
  "\<exists>h' mgr effs ts x. server_run (NewTorrentServer zero20 h' mgr (\<lambda>_. NewTCPPeer True)) effs ts \<and>
     WriteFile x \<in> set effs \<and> (x = [7] \<or> (\<exists>d. GetPiece (ts_pieces ts) 0 = Some d \<and> d \<noteq> [7] \<and> sha1_Sum d = sha1_Sum [7]))"
proof -
  obtain h s hs h' mgr effs ts x where run: "runSeed [7] (int 1) = Inr (h, s)" "pieceHashes s = Some hs"
      "runDownload (hex_encode h) (numPieces s) (hex_encode hs) = Inr (h', mgr)"
      "server_run (NewTorrentServer zero20 h' mgr (\<lambda>_. NewTCPPeer True)) effs ts" "WriteFile x \<in> set effs"
    by (rule one_byte_run)
  from written_file_correct [OF one_byte_seed run(1-4)] run(5)
  have "x = [7] \<or> (\<exists>d. GetPiece (ts_pieces ts) 0 = Some d \<and> d \<noteq> [7] \<and> sha1_Sum d = sha1_Sum [7])"
    unfolding one_byte_count by (auto simp: one_byte)
  with run(4,5) show ?thesis by blast
qed

text \<open>
  C6.  Invariants of every reachable state: each registered peer has a state and is filed under the id of
  its connection, every piece held has an index in range and matches its hash, the number of pieces and
  the hashes never change, and a piece once held is never lost or replaced.
\<close>

theorem server_run_invariant:
  assumes "server_run (NewTorrentServer peerID hash mgr heap0) effs ts" and "pm_inv mgr" and "pm_verified mgr"
  shows "swarm_wf (ts_heap ts) (ts_swarm ts) \<and> pm_inv (ts_pieces ts) \<and> pm_verified (ts_pieces ts) \<and>
    numPieces (ts_pieces ts) = numPieces mgr \<and> pieceHashes (ts_pieces ts) = pieceHashes mgr \<and>
    (\<forall>i d. GetPiece mgr i = Some d \<longrightarrow> GetPiece (ts_pieces ts) i = Some d)"
proof -
  obtain ps where ps: "ts_pieces ts = offers mgr ps" using server_run_pieces [OF assms(1)] by auto
  show ?thesis
    using server_run_wf [OF assms(1)] offers_inv [OF assms(2)] offers_verified [OF assms(3)] offers_frame [of mgr ps]
    by (simp add: ps offers_keep)
qed

theorem server_run_invariant_witness:
  "\<exists>effs ts. server_run (NewTorrentServer zero20 zero20 (NewPieceManager 3) (\<lambda>_. NewTCPPeer True)) effs ts \<and>
     effs = [SpawnAnnounce ''''] \<and> pm_verified (ts_pieces ts) \<and> numPieces (ts_pieces ts) = 3"
proof -
  let ?ts = "NewTorrentServer zero20 zero20 (NewPieceManager 3) (\<lambda>_. NewTCPPeer True)"
  have "server_run ?ts ([] @ [SpawnAnnounce '''']) ?ts"
    by (rule server_run.more [OF server_run.start server_step.announce])
  from server_run_invariant [OF this] this show ?thesis
    by (intro exI [of _ "[SpawnAnnounce '''']"] exI [of _ ?ts]) (simp, simp add: NewPieceManager_def)
qed

end
