(* ===== verification/Two_Peers.thy ===== *)
theory Two_Peers
  imports Download_Run
begin

text \<open>
  Two processes: one that seeds a file and one that downloads it, joined by a connection.  The two run
  their handshakes, and then take turns: a turn carries everything one side has queued to the other,
  whose loop handles it message by message, or is a choking round.  The theorem says that the protocol
  makes progress: six turns later the downloader has written the file.  Bigger systems, failures and
  other interleavings are covered by the invariants of the theory \<open>Download_Run\<close>.
\<close>

section \<open>A side\<close>

text \<open>The loop of a server on the messages of one connection, in the order in which they arrive.\<close>

fun handle_all :: "step_env \<Rightarrow> id20 \<Rightarrow> string \<Rightarrow> bytes list \<Rightarrow> server \<Rightarrow> go_panic + server \<times> effect list" where
  "handle_all env i addr [] ts = Inr (ts, [])"
| "handle_all env i addr (m # ms) ts =
     bindE (dispatch env (rpc_from i addr m) ts) (\<lambda>(ts1, effs1).
     bindE (handle_all env i addr ms ts1) (\<lambda>(ts2, effs2). Inr (ts2, effs1 @ effs2)))"

text \<open>
  The write loop empties an outbox.  How the bytes are cut into writes makes no difference, by the
  lemmas on \<open>write_buf\<close> in the theory \<open>Wire\<close>.
\<close>

definition flush :: "nat \<Rightarrow> server \<Rightarrow> bytes \<times> server" where
  "flush c ts = (concat (outbox (ts_heap ts c)),
     ts\<lparr>ts_heap := (ts_heap ts)(c := (ts_heap ts c)\<lparr>outbox := []\<rparr>)\<rparr>)"

text \<open>What the read loop of the other side makes of the bytes goes to its server.\<close>

definition receive :: "step_env \<Rightarrow> id20 \<Rightarrow> string \<Rightarrow> bytes \<Rightarrow> server \<Rightarrow> go_panic + server \<times> effect list" where
  "receive env i addr bs ts = handle_all env i addr (fst (read_loop EOF bs)) ts"

text \<open>A new connection: \<open>handleConn\<close> up to its read loop, with what the remote side sends first.\<close>

definition open_conn :: "int \<Rightarrow> id20 \<Rightarrow> id20 \<Rightarrow> nat \<Rightarrow> bool \<Rightarrow> bytes \<Rightarrow> server
    \<Rightarrow> bytes \<times> (swarm_err conn_err fail + bytes) \<times> server" where
  "open_conn now hash localID c outb input ts =
     (case handleConn_open (OnPeer now) hash localID c outb True EOF input (ts_heap ts) (ts_swarm ts) of
        (w, r, h, s) \<Rightarrow> (w, r, ts\<lparr>ts_heap := h, ts_swarm := s\<rparr>))"

section \<open>Both sides\<close>

record side =
  side_env :: step_env
  side_id :: id20
  side_conn :: nat
  side_addr :: string

datatype turn = Forward | Backward | Round unchoke_env

text \<open>
  \<open>Forward\<close> carries messages from the first server to the second, \<open>Backward\<close> the other way, and
  \<open>Round\<close> is a choking round of the second.
\<close>

definition carry :: "side \<Rightarrow> side \<Rightarrow> server \<Rightarrow> server \<Rightarrow> go_panic + server \<times> server \<times> effect list" where
  "carry from to src dst =
     (case flush (side_conn from) src of (bs, src') \<Rightarrow>
        bindE (receive (side_env to) (side_id from) (side_addr from) bs dst)
          (\<lambda>(dst', effs). Inr (src', dst', effs)))"

text \<open>The effects listed are those of the first server.\<close>

fun take_turn :: "side \<Rightarrow> side \<Rightarrow> turn \<Rightarrow> server \<times> server \<Rightarrow> go_panic + (server \<times> server) \<times> effect list" where
  "take_turn x y Forward (a, b) = bindE (carry x y a b) (\<lambda>(a', b', effs). Inr ((a', b'), []))"
| "take_turn x y Backward (a, b) = bindE (carry y x b a) (\<lambda>(b', a', effs). Inr ((a', b'), effs))"
| "take_turn x y (Round uenv) (a, b) = Inr ((a, runUnchokeRound uenv b), [])"

fun play :: "side \<Rightarrow> side \<Rightarrow> turn list \<Rightarrow> server \<times> server \<Rightarrow> go_panic + (server \<times> server) \<times> effect list" where
  "play x y [] s = Inr (s, [])"
| "play x y (t # ts) s =
     bindE (take_turn x y t s) (\<lambda>(s', effs).
     bindE (play x y ts s') (\<lambda>(s'', effs'). Inr (s'', effs @ effs')))"

text \<open>
  The turns of a download: the seeder's bitfield; the downloader's bitfield and its interest; a choking
  round and the unchoke message; the requests; the pieces.
\<close>

definition download_turns :: "unchoke_env \<Rightarrow> turn list" where
  "download_turns uenv = [Backward, Forward, Round uenv, Backward, Forward, Backward]"

section \<open>Carrying messages\<close>

lemma receive_frames:
  "list_all message_ok ms \<Longrightarrow> receive env i addr (concat (map frame ms)) ts = handle_all env i addr ms ts"
proof -
  assume ok: "list_all message_ok ms"
  have "fst (read_loop EOF (concat (map frame ms) @ [])) = ms @ fst (read_loop EOF [])"
    unfolding read_loop_frames [OF ok] by (simp split: prod.split)
  moreover have "fst (read_loop EOF []) = []"
    by (subst read_loop.simps) (simp add: wire_Decode_def io_ReadFull_def)
  ultimately show ?thesis by (simp add: receive_def)
qed

lemma carry_frames:
  assumes "outbox (ts_heap src (side_conn from)) = map frame ms" and "list_all message_ok ms"
  shows "carry from to src dst =
    bindE (handle_all (side_env to) (side_id from) (side_addr from) ms dst)
      (\<lambda>(dst', effs). Inr (snd (flush (side_conn from) src), dst', effs))"
  using receive_frames [OF assms(2)] by (simp add: carry_def flush_def assms(1))

lemma flush_simps [simp]:
  "ts_swarm (snd (flush c ts)) = ts_swarm ts" "pendingRequests (snd (flush c ts)) = pendingRequests ts"
  "ts_heap (snd (flush c ts)) c = (ts_heap ts c)\<lparr>outbox := []\<rparr>"
  by (simp_all add: flush_def)

text \<open>A server that knows the peer \<open>i\<close> on the open connection \<open>c\<close>, where \<open>n\<close> messages wait.\<close>

definition linked :: "server \<Rightarrow> id20 \<Rightarrow> nat \<Rightarrow> bytes list \<Rightarrow> bool" where
  "linked ts i c ms \<longleftrightarrow> GetPeer (ts_swarm ts) i = Some c \<and> \<not> is_closed (ts_heap ts c) \<and>
     outbox (ts_heap ts c) = map frame ms"

lemma linked_flush: "linked ts i c ms \<Longrightarrow> linked (snd (flush c ts)) i c []"
  by (simp add: linked_def)

lemma carry_linked:
  assumes "linked src i (side_conn from) ms" and "list_all message_ok ms"
    and "handle_all (side_env to) (side_id from) (side_addr from) ms dst = Inr (dst', effs)"
  shows "carry from to src dst = Inr (snd (flush (side_conn from) src), dst', effs)"
  using carry_frames [of src "from" ms to dst] assms by (simp add: linked_def)

section \<open>Serving\<close>

abbreviation piece_msg :: "int \<Rightarrow> bytes \<Rightarrow> bytes" where
  "piece_msg i d \<equiv> index_payload MsgSendPiece i @ d"

lemma serve_all:
  assumes "linked b i c ms" and "\<not> IsChoking (ts_swarm b) i" and "length ms + length is \<le> outbox_cap"
    and "\<forall>j \<in> set is. 0 \<le> j \<and> j < 2 ^ 32 \<and> GetPiece (ts_pieces b) j = Some (f j)"
  shows "\<exists>b'. handle_all env i addr (map (index_payload MsgRequestPiece) is) b = Inr (b', []) \<and>
    linked b' i c (ms @ map (\<lambda>j. piece_msg j (f j)) is) \<and> ts_pieces b' = ts_pieces b"
  using assms
proof (induction "is" arbitrary: b ms)
  case Nil
  then show ?case by simp
next
  case (Cons j js)
  let ?b = "handlePieceRequest i j b"
  have "can_send (ts_heap b c)" using Cons.prems(1,3) by (simp add: linked_def can_send_def)
  then have served: "?b = b\<lparr>ts_heap := (ts_heap b)(c := (ts_heap b c)\<lparr>outbox := outbox (ts_heap b c) @
         [frame (piece_msg j (f j))]\<rparr>), ts_swarm := RecordUpload i (int (length (f j))) (ts_swarm b)\<rparr>"
    using Cons.prems by (intro handlePieceRequest_served) (simp_all add: linked_def)
  have "linked ?b i c (ms @ [piece_msg j (f j)])"
    using Cons.prems(1) by (simp add: served linked_def GetPeer_def RecordUpload_def)
  moreover have "\<not> IsChoking (ts_swarm ?b) i"
    using Cons.prems(2)
    by (auto simp: served IsChoking_def RecordUpload_def on_state_def AddUploaded_def IsAmChoking_def split: option.splits)
  moreover have same: "ts_pieces ?b = ts_pieces b" by (rule handlePieceRequest_frame)
  ultimately obtain b' where "handle_all env i addr (map (index_payload MsgRequestPiece) js) ?b = Inr (b', [])"
      "linked b' i c ((ms @ [piece_msg j (f j)]) @ map (\<lambda>j. piece_msg j (f j)) js)" "ts_pieces b' = ts_pieces ?b"
    using Cons.IH [of ?b "ms @ [piece_msg j (f j)]"] Cons.prems(3,4) same by auto
  with Cons.prems(4) same show ?case by (simp add: dispatch_request)
qed

section \<open>Receiving pieces\<close>

lemma receive_piece:
  assumes "0 \<le> i" and "i < 2 ^ 32" and "VerifyPiece (ts_pieces a) i d" and "pieces_ok (numPieces (ts_pieces a))"
    and "mkdir_ok env" and "write_file_ok env"
  shows "\<exists>a' effs. dispatch env (rpc_from idb addr (piece_msg i d)) a = Inr (a', effs) \<and>
    ts_pieces a' = offer VerifyPiece AddPiece (ts_pieces a) i d \<and>
    (\<forall>x. AllPiecesReceived (ts_pieces a') \<and> ReconstructData (ts_pieces a') = Some x \<longrightarrow> WriteFile x \<in> set effs)"
proof -
  let ?data = "put_u32 (word_of_int i) @ d"
  have data: "4 \<le> length ?data" "uint (get_u32 (take 4 ?data)) = i" "drop 4 ?data = d"
    using assms(1,2) by (simp_all add: uint_word_of_int)
  define a2 where "a2 = piece_accepted env idb i d a"
  have pieces: "ts_pieces a2 = offer VerifyPiece AddPiece (ts_pieces a) i d"
    using assms(3) by (simp add: a2_def piece_accepted_pieces)
  have run: "handlePiece env idb ?data a = (if AllPiecesReceived (ts_pieces a2)
      then (case finish_download env a2 of (ts3, effs) \<Rightarrow> Inr (ts3, SpawnUpdateStats # effs))
      else bindE (broadcast_bitfield env a2) (\<lambda>ts3. Inr (ts3, [SpawnUpdateStats])))"
    unfolding handlePiece_cases data a2_def Let_def using assms(3) data(1) by simp
  have "dispatch env (rpc_from idb addr (piece_msg i d)) a = handlePiece env idb ?data a"
    by (simp add: index_payload_def dispatch_piece)
  moreover have "\<exists>a' effs. handlePiece env idb ?data a = Inr (a', effs) \<and> ts_pieces a' = ts_pieces a2 \<and>
    (\<forall>x. AllPiecesReceived (ts_pieces a') \<and> ReconstructData (ts_pieces a') = Some x \<longrightarrow> WriteFile x \<in> set effs)"
  proof (cases "AllPiecesReceived (ts_pieces a2)")
    case True
    then show ?thesis unfolding run
      using assms(5,6) by (simp add: finish_download_def split: option.split)
  next
    case False
    have "numPieces (ts_pieces a2) = numPieces (ts_pieces a)" by (simp add: pieces)
    then obtain bf where "BitfieldOf (ts_pieces a2) = Inr bf" using assms(4) BitfieldOf_total by metis
    with False show ?thesis unfolding run by (simp add: broadcast_bitfield_def swarm_Bitfield_def)
  qed
  ultimately show ?thesis unfolding pieces by auto
qed

lemma handle_all_append:
  "handle_all env i addr (ms @ ms') ts =
     bindE (handle_all env i addr ms ts) (\<lambda>(ts1, effs1).
     bindE (handle_all env i addr ms' ts1) (\<lambda>(ts2, effs2). Inr (ts2, effs1 @ effs2)))"
proof (induction ms arbitrary: ts)
  case Nil
  show ?case by (simp add: bindE_def split: sum.split)
next
  case (Cons m ms)
  show ?case
  proof (cases "dispatch env (rpc_from i addr m) ts")
    case (Inr r)
    then show ?thesis by (cases r) (simp add: Cons bindE_def split: sum.split prod.split)
  qed simp
qed

lemma receive_all:
  assumes "\<forall>j \<in> set is. 0 \<le> j \<and> j < 2 ^ 32 \<and> VerifyPiece (ts_pieces a) j (f j)"
    and "pieces_ok (numPieces (ts_pieces a))" and "mkdir_ok env" and "write_file_ok env"
  shows "\<exists>a' effs. handle_all env idb addr (map (\<lambda>j. piece_msg j (f j)) is) a = Inr (a', effs) \<and>
    ts_pieces a' = offers (ts_pieces a) (map (\<lambda>j. (j, f j)) is) \<and>
    (\<forall>x. is \<noteq> [] \<and> AllPiecesReceived (ts_pieces a') \<and> ReconstructData (ts_pieces a') = Some x \<longrightarrow> WriteFile x \<in> set effs)"
  using assms(1)
proof (induction "is" rule: rev_induct)
  case Nil
  show ?case by simp
next
  case (snoc j js)
  then obtain a1 effs1 where one: "handle_all env idb addr (map (\<lambda>j. piece_msg j (f j)) js) a = Inr (a1, effs1)"
      "ts_pieces a1 = offers (ts_pieces a) (map (\<lambda>j. (j, f j)) js)"
    by auto
  have frame: "numPieces (ts_pieces a1) = numPieces (ts_pieces a)" "pieceHashes (ts_pieces a1) = pieceHashes (ts_pieces a)"
    unfolding one(2) using offers_frame by simp_all
  then have ver: "VerifyPiece (ts_pieces a1) = VerifyPiece (ts_pieces a)" by (rule VerifyPiece_frame)
  obtain a2 effs2 where two: "dispatch env (rpc_from idb addr (piece_msg j (f j))) a1 = Inr (a2, effs2)"
      "ts_pieces a2 = offer VerifyPiece AddPiece (ts_pieces a1) j (f j)"
      "\<forall>x. AllPiecesReceived (ts_pieces a2) \<and> ReconstructData (ts_pieces a2) = Some x \<longrightarrow> WriteFile x \<in> set effs2"
    using receive_piece [of j a1 "f j" env idb addr] snoc.prems assms(2-4) frame ver by auto
  have "handle_all env idb addr (map (\<lambda>j. piece_msg j (f j)) (js @ [j])) a = Inr (a2, effs1 @ effs2)"
    by (simp add: handle_all_append one(1) two(1))
  moreover have "ts_pieces a2 = offers (ts_pieces a) (map (\<lambda>j. (j, f j)) (js @ [j]))"
    by (simp add: two(2) one(2))
  ultimately show ?case using two(3) by (intro exI [of _ a2] exI [of _ "effs1 @ effs2"]) auto
qed

section \<open>The turns of a download\<close>

lemma request_all_open [simp]: "is_closed (request_all c is h d) = is_closed (h d)"
proof (induction "is" arbitrary: h)
  case Nil
  show ?case by simp
next
  case (Cons j js)
  then show ?case by (auto simp: requestPieceFromPeer_def Send_Inr split: sum.split)
qed

lemma bitfield_turn:
  assumes "linked a i c ms" and "length ms < outbox_cap" and "bitfield_ord env = [i]" and "peerBitfields (ts_swarm a) = fmempty"
    and "pieces_ok (numPieces (ts_pieces a))" and "MissingPieces (ts_pieces a) bf \<noteq> []"
  shows "\<exists>a' is. handle_all env i addr [MsgBitfield # bf] a = Inr (a', []) \<and> linked a' i c (ms @ [[MsgInterested]]) \<and>
    fmlookup (pendingRequests a') i = Some is \<and> mset is = mset (MissingPieces (ts_pieces a) bf) \<and>
    ts_pieces a' = ts_pieces a"
proof -
  let ?s = "UpdatePeerBitfield i bf (ts_swarm a)"
  have s: "swarm_pieces ?s = ts_pieces a" by (simp add: UpdatePeerBitfield_def)
  have "enumerates (bitfield_ord env) (peerBitfields ?s)"
    by (simp add: enumerates_def assms(3,4) UpdatePeerBitfield_def)
  then obtain cs :: "pieceRarity list" where
    cs: "GetRarestMissingPieces (bitfield_ord env) (coins env) ?s bf = Inr (map rar_index cs)"
      "mset (map rar_index cs) = mset (MissingPieces (ts_pieces a) bf)"
    using GetRarest_Inr [of "bitfield_ord env" ?s "coins env" bf] assms(5) unfolding s pieces_ok_def by blast
  have "map rar_index cs \<noteq> []" using cs(2) assms(6) by auto
  moreover have "GetPeer (ts_swarm a) i = Some c" "can_send (ts_heap a c)"
    using assms(1,2) by (simp_all add: linked_def can_send_def)
  ultimately show ?thesis
    using bitfield_answered [OF cs(1), of c addr] cs(2) assms(1)
    by (auto simp: linked_def GetPeer_def UpdatePeerBitfield_def)
qed

lemma unchoke_turn:
  assumes "linked a i c ms" and "fmlookup (pendingRequests a) i = Some is" and "length ms + length is \<le> outbox_cap"
  shows "\<exists>a'. handle_all env i addr [[MsgUnchoke]] a = Inr (a', []) \<and>
    linked a' i c (ms @ map (index_payload MsgRequestPiece) is) \<and> ts_pieces a' = ts_pieces a"
proof -
  have peer: "GetPeer (ts_swarm a) i = Some c" using assms(1) by (simp add: linked_def)
  have "outbox (request_all c is (ts_heap a) c) = map frame (ms @ map (index_payload MsgRequestPiece) is)"
    using assms(1,3) by (subst request_all_outbox) (simp_all add: linked_def comp_def)
  moreover have "\<not> is_closed (request_all c is (ts_heap a) c)"
    using assms(1) by (simp add: linked_def request_all_open)
  ultimately show ?thesis
    using unchoke_answered [OF assms(2) peer, of env addr] peer
    by (simp add: linked_def on_swarm_def SetPeerChoking_def GetPeer_def)
qed

lemma interest_turn:
  assumes "linked b i c ms" and "bitfield_ord env = [i]" and "peerBitfields (ts_swarm b) = fmempty"
    and "pieces_ok (numPieces (ts_pieces b))" and "MissingPieces (ts_pieces b) bf = []"
    and "peerStates (ts_swarm b) = fmupd i ps fmempty"
  shows "\<exists>b'. handle_all env i addr [MsgBitfield # bf, [MsgInterested]] b = Inr (b', []) \<and> linked b' i c ms \<and>
    peerStates (ts_swarm b') = fmupd i (ps\<lparr>PeerInterested := True\<rparr>) fmempty \<and> ts_pieces b' = ts_pieces b"
proof -
  let ?s = "UpdatePeerBitfield i bf (ts_swarm b)"
  have s: "swarm_pieces ?s = ts_pieces b" by (simp add: UpdatePeerBitfield_def)
  have "enumerates (bitfield_ord env) (peerBitfields ?s)"
    by (simp add: enumerates_def assms(2,3) UpdatePeerBitfield_def)
  then obtain cs :: "pieceRarity list" where
    cs: "GetRarestMissingPieces (bitfield_ord env) (coins env) ?s bf = Inr (map rar_index cs)"
      "mset (map rar_index cs) = mset (MissingPieces (ts_pieces b) bf)"
    using GetRarest_Inr [of "bitfield_ord env" ?s "coins env" bf] assms(4) unfolding s pieces_ok_def by blast
  have "map rar_index cs = []" using cs(2) assms(5) by simp
  with cs(1) have one: "dispatch env (rpc_from i addr (MsgBitfield # bf)) b = Inr (b\<lparr>ts_swarm := ?s\<rparr>, [])"
    by (simp add: dispatch_bitfield handleBitfieldAnnouncement_def Let_def)
  let ?b = "on_swarm (SetPeerInterested i True) (b\<lparr>ts_swarm := ?s\<rparr>)"
  have two: "dispatch env (rpc_from i addr [MsgInterested]) (b\<lparr>ts_swarm := ?s\<rparr>) = Inr (?b, [])"
    by (simp add: dispatch_def rpc_from_def)
  have "linked ?b i c ms \<and> peerStates (ts_swarm ?b) = fmupd i (ps\<lparr>PeerInterested := True\<rparr>) fmempty \<and>
      ts_pieces ?b = ts_pieces b"
    using assms(1,6)
    by (simp add: linked_def GetPeer_def on_swarm_def SetPeerInterested_def on_state_def UpdatePeerBitfield_def
        ps_SetPeerInterested_def)
  with one two show ?thesis by simp
qed

text \<open>A choking round among a single peer, who is interested, unchokes it.\<close>

lemma unchoke_single:
  assumes "env_ok uenv s" and "RunUnchokeAlgorithm uenv s = (as, s')"
    and "peerStates s = fmupd i ps fmempty" and "PeerInterested ps" and "AmChoking ps"
  shows "as = [\<lparr>ua_PeerID = i, ua_Unchoke = True\<rparr>]" and "\<not> IsChoking s' i"
proof -
  let ?top = "top_unchoked uenv (rated uenv s)"
  have enum: "enumerates (rank_ord uenv) (rated uenv s)" using assms(1) by (simp add: env_ok_def enumerates_rated)
  have only: "j = i" if "j |\<in>| ?top" for j
  proof -
    from top_unchoked_props(2) [OF enum that] have "fmlookup (peerStates s) j \<noteq> None" by (auto simp: lookup_rated)
    with assms(3) show ?thesis by (auto split: if_splits)
  qed
  have "i |\<in>| ?top"
  proof (rule ccontr)
    assume "i |\<notin>| ?top"
    moreover have "fmlookup (rated uenv s) i = Some (UpdateRates (clock uenv i) ps)"
      using lookup_rated [of uenv s i] assms(3) by simp
    ultimately have "card (fset ?top) = MaxUnchokedPeers - 1"
      using top_unchoked_props(3) [OF enum] assms(4) by (metis UpdateRates_frame(2))
    moreover have "fset ?top = {}" using only \<open>i |\<notin>| ?top\<close> by blast
    ultimately show False by (simp add: MaxUnchokedPeers_def)
  qed
  then have "i |\<in>| final_unchoke uenv s" using unchoked_final(3) [OF assms(1,2)] by simp
  moreover have "distinct (action_ord uenv)" "set (action_ord uenv) = {i}"
    using assms(1,3) by (auto simp: env_ok_def enumerates_def)
  then have "action_ord uenv = [i]"
    by (cases "action_ord uenv") (auto simp: subset_singleton_iff)
  ultimately show "as = [\<lparr>ua_PeerID = i, ua_Unchoke = True\<rparr>]" and "\<not> IsChoking s' i"
    using RunUnchoke_spec(1,2) [OF assms(1,2)] assms(3,5)
    by (simp_all add: IsChoking_def IsAmChoking_def SetAmChoking_def)
qed

lemma round_turn:
  assumes "linked b i c ms" and "length ms < outbox_cap" and "env_ok uenv (ts_swarm b)"
    and "peerStates (ts_swarm b) = fmupd i ps fmempty" and "PeerInterested ps" and "AmChoking ps"
  defines "b' \<equiv> runUnchokeRound uenv b"
  shows "linked b' i c (ms @ [[MsgUnchoke]])" and "\<not> IsChoking (ts_swarm b') i" and "ts_pieces b' = ts_pieces b"
proof -
  obtain as s' where run: "RunUnchokeAlgorithm uenv (ts_swarm b) = (as, s')" by fastforce
  note spec = RunUnchoke_spec [OF assms(3) run] and one = unchoke_single [OF assms(3) run assms(4-6)]
  have "GetPeer s' i = Some c" using assms(1) spec(4) by (simp add: linked_def GetPeer_def)
  moreover have "can_send (ts_heap b c)" using assms(1,2) by (simp add: linked_def can_send_def)
  ultimately show "linked b' i c (ms @ [[MsgUnchoke]])"
    using assms(1) by (simp add: b'_def runUnchokeRound_def run one(1) linked_def send_logged_def Send_can)
  show "\<not> IsChoking (ts_swarm b') i" and "ts_pieces b' = ts_pieces b"
    using one(2) spec(6) by (simp_all add: b'_def runUnchokeRound_def run)
qed

section \<open>Negotiation and transfer\<close>

text \<open>What a side's environment may leave open when its only peer is \<open>i\<close>: nothing but coins and files.\<close>

definition only_peer :: "side \<Rightarrow> id20 \<Rightarrow> bool" where
  "only_peer x i \<longleftrightarrow> bitfield_ord (side_env x) = [i]"

lemma play_append:
  "play x y ts s = Inr (s', effs) \<Longrightarrow>
     play x y (ts @ us) s = bindE (play x y us s') (\<lambda>(s'', effs'). Inr (s'', effs @ effs'))"
proof (induction ts arbitrary: s s' effs)
  case Nil
  then show ?case by (simp add: bindE_def split: sum.split)
next
  case (Cons t ts)
  then obtain s1 e1 e2 where one: "take_turn x y t s = Inr (s1, e1)" "play x y ts s1 = Inr (s', e2)" "effs = e1 @ e2"
    by (auto simp: bindE_Inr_iff)
  then show ?case by (simp add: Cons.IH) (simp add: bindE_def split: sum.split)
qed

lemma negotiate:
  assumes a: "linked a (side_id y) (side_conn x) [MsgBitfield # bf_x]" "ts_pieces a = mgr" "peerBitfields (ts_swarm a) = fmempty"
    and b: "linked b (side_id x) (side_conn y) [MsgBitfield # bf_y]" "ts_pieces b = seeder" "peerBitfields (ts_swarm b) = fmempty"
      "peerStates (ts_swarm b) = fmupd (side_id x) (NewPeerState now) fmempty"
    and ok: "pieces_ok (numPieces mgr)" "pieces_ok (numPieces seeder)" "message_ok (MsgBitfield # bf_x)" "message_ok (MsgBitfield # bf_y)"
    and missing: "MissingPieces seeder bf_x = []" "MissingPieces mgr bf_y \<noteq> []" "length (MissingPieces mgr bf_y) < outbox_cap"
    and env: "only_peer x (side_id y)" "only_peer y (side_id x)" "env_ok uenv (ts_swarm b)"
  shows "\<exists>a' b' is. play x y [Backward, Forward, Round uenv, Backward] (a, b) = Inr ((a', b'), []) \<and>
    linked a' (side_id y) (side_conn x) (map (index_payload MsgRequestPiece) is) \<and> ts_pieces a' = mgr \<and>
    linked b' (side_id x) (side_conn y) [] \<and> \<not> IsChoking (ts_swarm b') (side_id x) \<and> ts_pieces b' = seeder \<and>
    mset is = mset (MissingPieces mgr bf_y)"
proof -
  let ?ix = "side_id x" and ?iy = "side_id y" and ?cx = "side_conn x" and ?cy = "side_conn y"
  have cap: "1 < outbox_cap" by (simp add: outbox_cap_def)
  have small: "message_ok [v]" for v by (simp add: message_ok_def MaxMessageLength_def)
  obtain a1 "is" where a1: "handle_all (side_env x) ?iy (side_addr y) [MsgBitfield # bf_y] a = Inr (a1, [])"
      "linked a1 ?iy ?cx ([MsgBitfield # bf_x] @ [[MsgInterested]])" "fmlookup (pendingRequests a1) ?iy = Some is"
      "mset is = mset (MissingPieces mgr bf_y)" "ts_pieces a1 = mgr"
    using bitfield_turn [OF a(1) _ _ a(3), of "side_env x" bf_y "side_addr y"] ok(1) missing(2) cap env(1)
    by (auto simp: a(2) only_peer_def)
  define b1 where "b1 = snd (flush ?cy b)"
  have carry1: "carry y x b a = Inr (b1, a1, [])"
    using carry_linked [OF b(1) _ a1(1)] ok(4) by (simp add: b1_def)
  have b1: "linked b1 ?ix ?cy []" using linked_flush [OF b(1)] by (simp add: b1_def)
  obtain b2 where b2: "handle_all (side_env y) ?ix (side_addr x) [MsgBitfield # bf_x, [MsgInterested]] b1 = Inr (b2, [])"
      "linked b2 ?ix ?cy []" "peerStates (ts_swarm b2) = fmupd ?ix ((NewPeerState now)\<lparr>PeerInterested := True\<rparr>) fmempty"
      "ts_pieces b2 = seeder"
    using interest_turn [OF b1, of "side_env y" bf_x "NewPeerState now" "side_addr x"] ok(2) missing(1) env(2)
    by (auto simp: b1_def b(2-4) only_peer_def)
  define a2 where "a2 = snd (flush ?cx a1)"
  have a2: "linked a2 ?iy ?cx []" "fmlookup (pendingRequests a2) ?iy = Some is" "ts_pieces a2 = mgr"
    using linked_flush [OF a1(2)] a1(3,5) by (simp_all add: a2_def)
  have carry2: "carry x y a1 b1 = Inr (a2, b2, [])"
    using carry_linked [OF a1(2), of y b1] b2(1) ok(3) small by (simp add: a2_def)
  have uenv: "env_ok uenv (ts_swarm b2)" using env(3) by (simp add: env_ok_def enumerates_def b2(3) b(4))
  define b3 where "b3 = runUnchokeRound uenv b2"
  have b3: "linked b3 ?ix ?cy [[MsgUnchoke]]" "\<not> IsChoking (ts_swarm b3) ?ix" "ts_pieces b3 = seeder"
    using round_turn [OF b2(2) _ uenv b2(3)] cap b2(4) by (simp_all add: b3_def NewPeerState_def)
  have "length is = length (MissingPieces mgr bf_y)" using arg_cong [OF a1(4), of size] by simp
  then have "length ([] :: bytes list) + length is \<le> outbox_cap" using missing(3) by simp
  then obtain a3 where a3: "handle_all (side_env x) ?iy (side_addr y) [[MsgUnchoke]] a2 = Inr (a3, [])"
      "linked a3 ?iy ?cx (map (index_payload MsgRequestPiece) is)" "ts_pieces a3 = mgr"
    using unchoke_turn [OF a2(1,2), of "side_env x" "side_addr y"] a2(3) by auto
  define b4 where "b4 = snd (flush ?cy b3)"
  have b4: "linked b4 ?ix ?cy []" "\<not> IsChoking (ts_swarm b4) ?ix" "ts_pieces b4 = seeder"
    using linked_flush [OF b3(1)] b3(2,3) by (simp_all add: b4_def)
  have carry3: "carry y x b3 a2 = Inr (b4, a3, [])"
    using carry_linked [OF b3(1) _ a3(1)] small by (simp add: b4_def)
  have "play x y [Backward, Forward, Round uenv, Backward] (a, b) = Inr ((a3, b4), [])"
    by (simp add: carry1 carry2 carry3 b3_def [symmetric])
  then show ?thesis using a3(2,3) b4 a1(4) by blast
qed

lemma transfer:
  assumes a: "linked a (side_id y) (side_conn x) (map (index_payload MsgRequestPiece) is)" "pieces_ok (numPieces (ts_pieces a))"
      "mkdir_ok (side_env x)" "write_file_ok (side_env x)"
    and b: "linked b (side_id x) (side_conn y) []" "\<not> IsChoking (ts_swarm b) (side_id x)"
    and "is": "is \<noteq> []" "length is \<le> outbox_cap"
      "\<forall>j \<in> set is. 0 \<le> j \<and> j < 2 ^ 32 \<and> GetPiece (ts_pieces b) j = Some (f j) \<and> VerifyPiece (ts_pieces a) j (f j) \<and>
         length (f j) + 5 \<le> MaxMessageLength"
  shows "\<exists>a' b' effs. play x y [Forward, Backward] (a, b) = Inr ((a', b'), effs) \<and>
    ts_pieces a' = offers (ts_pieces a) (map (\<lambda>j. (j, f j)) is) \<and> ts_pieces b' = ts_pieces b \<and>
    (\<forall>d. AllPiecesReceived (ts_pieces a') \<and> ReconstructData (ts_pieces a') = Some d \<longrightarrow> WriteFile d \<in> set effs)"
proof -
  let ?ix = "side_id x" and ?iy = "side_id y" and ?cx = "side_conn x" and ?cy = "side_conn y"
  let ?ps = "map (\<lambda>j. piece_msg j (f j)) is"
  obtain b1 where b1: "handle_all (side_env y) ?ix (side_addr x) (map (index_payload MsgRequestPiece) is) b = Inr (b1, [])"
      "linked b1 ?ix ?cy ?ps" "ts_pieces b1 = ts_pieces b"
    using serve_all [OF b, of "is" f "side_env y" "side_addr x"] "is"(2,3) by auto
  define a1 where "a1 = snd (flush ?cx a)"
  have carry1: "carry x y a b = Inr (a1, b1, [])"
    using carry_linked [OF a(1) _ b1(1)]
    by (simp add: a1_def list_all_iff message_ok_def MaxMessageLength_def index_payload_def)
  have same: "ts_pieces a1 = ts_pieces a" by (simp add: a1_def)
  obtain a2 effs where a2: "handle_all (side_env x) ?iy (side_addr y) ?ps a1 = Inr (a2, effs)"
      "ts_pieces a2 = offers (ts_pieces a) (map (\<lambda>j. (j, f j)) is)"
      "\<forall>d. is \<noteq> [] \<and> AllPiecesReceived (ts_pieces a2) \<and> ReconstructData (ts_pieces a2) = Some d \<longrightarrow> WriteFile d \<in> set effs"
    using receive_all [of "is" a1 f "side_env x" ?iy "side_addr y"] "is"(3) a(2-4) same by auto
  define b2 where "b2 = snd (flush ?cy b1)"
  have "list_all message_ok ?ps" using "is"(3) by (simp add: list_all_iff message_ok_def index_payload_def add.commute)
  then have "carry y x b1 a1 = Inr (b2, a2, effs)" using carry_linked [OF b1(2) _ a2(1)] by (simp add: b2_def)
  then have "play x y [Forward, Backward] (a, b) = Inr ((a2, b2), effs)" by (simp add: carry1)
  moreover have "ts_pieces b2 = ts_pieces b" using b1(3) by (simp add: b2_def)
  ultimately show ?thesis using a2(2,3) "is"(1) by blast
qed

section \<open>Opening\<close>

lemma open_conn_new:
  assumes "is20 hash" and "is20 localID" and "is20 i" and "i \<noteq> localID" and "BitfieldOf mgr = Inr bf"
    and "open_conn now hash localID c outb (buildHandshake hash i) (NewTorrentServer pid h mgr heap) = (w, r, ts)"
  shows "w = buildHandshake hash localID" and "r = Inr []" and "linked ts i c [MsgBitfield # bf]" and "ts_pieces ts = mgr"
    and "peerStates (ts_swarm ts) = fmupd i (NewPeerState now) fmempty"
    and "peerBitfields (ts_swarm ts) = fmempty" and "pendingRequests ts = fmempty"
proof -
  let ?ts = "NewTorrentServer pid h mgr heap"
  obtain h' s' where run: "handleConn_open (OnPeer now) hash localID c outb True EOF (buildHandshake hash i)
      (ts_heap ?ts) (ts_swarm ?ts) = (w, r, h', s')" and ts: "ts = ?ts\<lparr>ts_heap := h', ts_swarm := s'\<rparr>"
    using assms(6) by (auto simp: open_conn_def split: prod.splits)
  have hs: "DefaultHandshakeFunc hash localID outb True EOF (buildHandshake hash i) = (buildHandshake hash localID, Inr (i, []))"
    using DefaultHandshakeFunc_bytes [of hash localID i "replicate 8 0" outb EOF "[]"] assms(1-4)
    by (simp add: buildHandshake_bytes [of _ i])
  show "w = buildHandshake hash localID"
    using run by (auto simp: handleConn_open_def Let_def hs split: prod.splits sum.splits fail.splits if_splits)
  have "swarm_pieces (ts_swarm ?ts) = mgr" "peers (ts_swarm ?ts) = fmempty" "peerStates (ts_swarm ?ts) = fmempty"
    "peerBitfields (ts_swarm ?ts) = fmempty" "pendingRequests ?ts = fmempty"
    by (simp_all add: NewTorrentServer_def NewSwarm_def)
  moreover note handleConn_open_accepted [OF run, of i "[]"]
  ultimately show "r = Inr []" and "linked ts i c [MsgBitfield # bf]" and "ts_pieces ts = mgr"
    and "peerStates (ts_swarm ts) = fmupd i (NewPeerState now) fmempty"
    and "peerBitfields (ts_swarm ts) = fmempty" and "pendingRequests ts = fmempty"
    using hs assms(4,5) by (simp_all add: ts linked_def GetPeer_def)
qed

section \<open>Properties\<close>

lemma offers_reconstruct_honest:
  assumes start: "seed_ok data k" "runSeed data (int k) = Inr (h, seeder)" "pieceHashes seeder = Some hs"
      "runDownload (hex_encode h) (numPieces seeder) (hex_encode hs) = Inr (h', mgr)"
    and ps: "mset is = mset (map int [0..<chunk_count k data])"
  defines "mgr' \<equiv> offers mgr (map (\<lambda>j. (j, chunk k data (nat j))) is)"
  shows "AllPiecesReceived mgr' \<and> ReconstructData mgr' = Some data"
proof
  let ?ps = "map (\<lambda>j. (j, chunk k data (nat j))) is"
  have set: "set is = int ` {..<chunk_count k data}"
    using mset_eq_setD [OF ps] by (simp add: atLeast0LessThan)
  have "(int i, chunk k data i) \<in> set ?ps" if "i < chunk_count k data" for i
    using that set by (force simp: image_image)
  then show all: "AllPiecesReceived mgr'" unfolding mgr'_def
    by (intro download_all_chunks [OF start]) blast
  show "ReconstructData mgr' = Some data"
    by (rule offers_reconstruct [OF start refl [of mgr', unfolded mgr'_def] all [unfolded mgr'_def], folded mgr'_def]) auto
qed

text \<open>The bitfields of the two sides at the start.\<close>

lemma small_bitfield:
  assumes "numPieces mgr = int n" and "Suc n \<le> outbox_cap"
  obtains bf where "BitfieldOf mgr = Inr bf" and "message_ok (MsgBitfield # bf)"
    and "\<And>mgr'. numPieces mgr' = int n \<Longrightarrow>
      MissingPieces mgr' bf = map int (filter (\<lambda>i. has_piece mgr i \<and> \<not> has_piece mgr' i) [0..<n])"
proof -
  have "count_ok (numPieces mgr)" using assms by (simp add: count_ok_def max_alloc_def outbox_cap_def)
  then obtain bf where bf: "BitfieldOf mgr = Inr bf" "length bf = (nat (numPieces mgr) + 7) div 8"
      "\<And>i. bf_get bf i \<longleftrightarrow> i < nat (numPieces mgr) \<and> has_piece mgr i"
    by (rule BitfieldOf_ok) blast
  have "message_ok (MsgBitfield # bf)" using bf(2) assms by (simp add: message_ok_def MaxMessageLength_def outbox_cap_def)
  moreover have "MissingPieces mgr' bf = map int (filter (\<lambda>i. has_piece mgr i \<and> \<not> has_piece mgr' i) [0..<n])"
    if "numPieces mgr' = int n" for mgr'
    using that assms(1) by (simp add: MissingPieces_filter bf(3)) (rule filter_cong, auto)
  ultimately show thesis using that bf(1) by blast
qed

text \<open>The turns of a download, in the form the whole download uses.\<close>

lemma turns_download:
  assumes "seed_ok data k" and "runSeed data (int k) = Inr (h, seeder)" and "pieceHashes seeder = Some hs"
    and "runDownload (hex_encode h) (numPieces seeder) (hex_encode hs) = Inr (h', mgr)"
    and "data \<noteq> []" and "k + 5 \<le> MaxMessageLength" and "Suc (chunk_count k data) \<le> outbox_cap"
    and "is20 (side_id x)" and "is20 (side_id y)" and "side_id x \<noteq> side_id y"
    and "open_conn now h' (side_id x) (side_conn x) True (buildHandshake h (side_id y))
      (NewTorrentServer px h' mgr heapx) = (wa, ra, a)"
    and "open_conn now' h (side_id y) (side_conn y) False wa (NewTorrentServer py h seeder heapy) = (wb, rb, b)"
    and "only_peer x (side_id y)" and "only_peer y (side_id x)" and "env_ok uenv (ts_swarm b)"
    and "mkdir_ok (side_env x)" and "write_file_ok (side_env x)"
  shows "wb = buildHandshake h (side_id y) \<and> (\<exists>a' b' effs. play x y (download_turns uenv) (a, b) = Inr ((a', b'), effs) \<and>
    WriteFile data \<in> set effs \<and> AllPiecesReceived (ts_pieces a') \<and> ts_pieces b' = seeder)"
proof -
  let ?n = "chunk_count k data" and ?ix = "side_id x" and ?iy = "side_id y" and ?cx = "side_conn x" and ?cy = "side_conn y"
  note start = assms(1-4) and mgr = download_start [OF assms(1-4)]
  have same_x: "same_torrent k data mgr" using mgr(5) assms(5) .
  obtain s where "runSeed data (int k) = Inr (sha1_Sum data, s)" "same_torrent k data s" "holds_chunks k data ?n s"
    using assms(1) by (rule runSeed_ok)
  with assms(2) have h: "h = sha1_Sum data" and same: "same_torrent k data seeder" and hold: "holds_chunks k data ?n seeder"
    by simp_all
  have n: "numPieces seeder = int ?n" "numPieces mgr = int ?n" using same mgr(2) by (simp_all add: same_torrent_def)
  then have n_ok: "pieces_ok (numPieces seeder)" "pieces_ok (numPieces mgr)"
    using assms(7) by (simp_all add: pieces_ok_def outbox_cap_def max_alloc_def)
  have has: "has_piece seeder i \<longleftrightarrow> i < ?n" "\<not> has_piece mgr i" for i
    using hold mgr(3) by (auto simp: has_piece_def holds_chunks_def GetPiece_def)
  obtain bf_x where bf_x: "BitfieldOf mgr = Inr bf_x" "message_ok (MsgBitfield # bf_x)" "MissingPieces seeder bf_x = []"
    using small_bitfield [OF n(2) assms(7)] n(1) has(2) by (metis (no_types, lifting) filter_False list.map(1))
  obtain bf_y where bf_y: "BitfieldOf seeder = Inr bf_y" "message_ok (MsgBitfield # bf_y)"
      "MissingPieces mgr bf_y = map int [0..<?n]"
  proof (rule small_bitfield [OF n(1) assms(7)])
    fix bf
    assume bf: "BitfieldOf seeder = Inr bf" "message_ok (MsgBitfield # bf)"
      and "\<And>mgr'. numPieces mgr' = int ?n \<Longrightarrow>
        MissingPieces mgr' bf = map int (filter (\<lambda>i. has_piece seeder i \<and> \<not> has_piece mgr' i) [0..<?n])"
    then have "MissingPieces mgr bf = map int (filter (\<lambda>i. has_piece seeder i \<and> \<not> has_piece mgr i) [0..<?n])"
      using n(2) by blast
    also have "filter (\<lambda>i. has_piece seeder i \<and> \<not> has_piece mgr i) [0..<?n] = [0..<?n]"
      by (rule filter_True) (simp add: has)
    finally show thesis by (rule that [OF bf])
  qed
  have ids: "is20 h" "is20 h'" "?ix \<noteq> ?iy" "?iy \<noteq> ?ix" using h mgr(1) assms(10) by auto
  have hh: "h' = h" using h mgr(1) by simp
  note opened_a = open_conn_new [OF ids(2) assms(8,9) ids(4) bf_x(1) assms(11) [folded hh]]
  have "open_conn now' h ?iy ?cy False (buildHandshake h ?ix) (NewTorrentServer py h seeder heapy) = (wb, rb, b)"
    using assms(12) opened_a(1) hh by simp
  note opened_b = open_conn_new [OF ids(1) assms(9,8) ids(3) bf_y(1) this]
  have pos: "0 < ?n" using assms(1,5) chunk_count_enough [of k data] by (cases ?n) (auto simp: seed_ok_def)
  have "length (MissingPieces mgr bf_y) < outbox_cap" "MissingPieces mgr bf_y \<noteq> []"
    using assms(7) pos by (simp_all add: bf_y(3))
  then obtain a1 b1 "is" where first: "play x y [Backward, Forward, Round uenv, Backward] (a, b) = Inr ((a1, b1), [])"
      and a1: "linked a1 ?iy ?cx (map (index_payload MsgRequestPiece) is)" "ts_pieces a1 = mgr"
      and b1: "linked b1 ?ix ?cy []" "\<not> IsChoking (ts_swarm b1) ?ix" "ts_pieces b1 = seeder"
      and "is": "mset is = mset (map int [0..<?n])"
    using negotiate [OF opened_a(3,4,6) opened_b(3,4,6,5) n_ok(2,1) bf_x(2) bf_y(2) bf_x(3) _ _ assms(13-15)] bf_y(3)
    by metis
  let ?f = "\<lambda>j. chunk k data (nat j)"
  have "length is = ?n" using arg_cong [OF "is", of size] by simp
  then have is_ok: "is \<noteq> []" "length is \<le> outbox_cap" using pos assms(7) by auto
  have "0 \<le> j \<and> j < 2 ^ 32 \<and> GetPiece seeder j = Some (?f j) \<and> VerifyPiece mgr j (?f j) \<and> length (?f j) + 5 \<le> MaxMessageLength"
    if "j \<in> set is" for j
  proof -
    have j: "0 \<le> j" "j < int ?n" using that mset_eq_setD [OF "is"] by auto
    moreover have "int ?n < 2 ^ 32" using assms(7) by (simp add: outbox_cap_def)
    moreover have "length (?f j) \<le> k" by (simp add: chunk_def)
    ultimately show ?thesis using hold VerifyPiece_same [OF same_x] assms(6) by (simp add: holds_chunks_def)
  qed
  then obtain a2 b2 effs where second: "play x y [Forward, Backward] (a1, b1) = Inr ((a2, b2), effs)"
      and a2: "ts_pieces a2 = offers mgr (map (\<lambda>j. (j, ?f j)) is)" and b2: "ts_pieces b2 = seeder"
      and written: "\<forall>d. AllPiecesReceived (ts_pieces a2) \<and> ReconstructData (ts_pieces a2) = Some d \<longrightarrow> WriteFile d \<in> set effs"
    using transfer [OF a1(1) _ assms(16,17) b1(1,2) is_ok, of ?f] n_ok(2) a1(2) b1(3) by auto
  have "play x y (download_turns uenv) (a, b) = Inr ((a2, b2), effs)"
    using play_append [OF first, of "[Forward, Backward]"] by (simp only: download_turns_def second append.simps) simp
  moreover have "AllPiecesReceived (ts_pieces a2) \<and> ReconstructData (ts_pieces a2) = Some data"
    unfolding a2 by (rule offers_reconstruct_honest [OF start "is"])
  ultimately show ?thesis using opened_b(1) b2 written by blast
qed

text \<open>
  C3.  A download from start to finish: a seeder and a downloader, started from the command line with
  what the seeder prints, shake hands, and after a bitfield, an interested message, one choking round,
  the requests in rarest-first order and the pieces, the downloader holds every piece and has written
  exactly the seeder's file.  The file must not be empty, its pieces must fit a message and their
  requests the outbox.
\<close>

theorem two_peer_download:
  assumes "seed_ok data k" and "runSeed data (int k) = Inr (h, seeder)" and "pieceHashes seeder = Some hs"
    and "runDownload (hex_encode h) (numPieces seeder) (hex_encode hs) = Inr (h', mgr)"
    and "data \<noteq> []" and "k + 5 \<le> MaxMessageLength" and "Suc (chunk_count k data) \<le> outbox_cap"
    and "is20 (side_id x)" and "is20 (side_id y)" and "side_id x \<noteq> side_id y"
    and "open_conn now h' (side_id x) (side_conn x) True (buildHandshake h (side_id y))
      (NewTorrentServer px h' mgr heapx) = (wa, ra, a)"
    and "open_conn now' h (side_id y) (side_conn y) False wa (NewTorrentServer py h seeder heapy) = (wb, rb, b)"
    and "only_peer x (side_id y)" and "only_peer y (side_id x)" and "env_ok uenv (ts_swarm b)"
    and "mkdir_ok (side_env x)" and "write_file_ok (side_env x)"
  shows "wb = buildHandshake h (side_id y) \<and> (\<exists>a' b' effs. play x y (download_turns uenv) (a, b) = Inr ((a', b'), effs) \<and>
    WriteFile data \<in> set effs \<and> AllPiecesReceived (ts_pieces a') \<and> ts_pieces b' = seeder)"
  by (rule turns_download [OF assms])

text \<open>The sides of the example: a file of one byte between the peers 1 and 2.\<close>

definition example_x :: side where
  "example_x = \<lparr>side_env = example_step\<lparr>bitfield_ord := [replicate 20 2]\<rparr>, side_id = replicate 20 1,
     side_conn = 4, side_addr = ''10.0.0.1:7''\<rparr>"

definition example_y :: side where
  "example_y = \<lparr>side_env = example_step\<lparr>bitfield_ord := [replicate 20 1]\<rparr>, side_id = replicate 20 2,
     side_conn = 9, side_addr = ''10.0.0.2:8''\<rparr>"

definition example_round :: unchoke_env where
  "example_round = \<lparr>clock = (\<lambda>_. 0), rank_ord = [replicate 20 1], choked_ord = [replicate 20 1],
     action_ord = [replicate 20 1], draw = 0\<rparr>"

text \<open>The sides satisfy what the theorem asks of them, whatever the ids of the servers.\<close>

lemma example_sides:
  "is20 (side_id example_x)" "is20 (side_id example_y)" "side_id example_x \<noteq> side_id example_y"
  "only_peer example_x (side_id example_y)" "only_peer example_y (side_id example_x)"
  "mkdir_ok (side_env example_x)" "write_file_ok (side_env example_x)"
  by (simp_all add: only_peer_def example_x_def example_y_def example_step_def is20_def)

lemma one_byte_fits: "[7 :: byte] \<noteq> []" "1 + 5 \<le> MaxMessageLength" "Suc (chunk_count 1 [7]) \<le> outbox_cap"
  by (simp_all add: one_byte MaxMessageLength_def outbox_cap_def)

lemma example_opened:
  assumes "runSeed [7] (int 1) = Inr (h, s)" and "pieceHashes s = Some hs"
    and "runDownload (hex_encode h) (numPieces s) (hex_encode hs) = Inr (h', mgr)"
    and "open_conn 0 h' (side_id example_x) (side_conn example_x) True (buildHandshake h (side_id example_y))
      (NewTorrentServer px h' mgr heapx) = (wa, ra, a)"
    and "open_conn 0 h (side_id example_y) (side_conn example_y) False wa (NewTorrentServer py h s heapy) = (wb, rb, b)"
  shows "env_ok example_round (ts_swarm b)"
proof -
  obtain s' where s': "runSeed [7] (int 1) = Inr (sha1_Sum [7], s')" "same_torrent 1 [7] s'"
    using one_byte_seed by (rule runSeed_ok)
  then have h: "h = sha1_Sum [7]" and n: "numPieces s = int 1" using assms(1) by (simp_all add: same_torrent_def one_byte)
  note start = download_start [OF one_byte_seed assms(1-3)]
  have small: "numPieces mgr = int 1" "Suc 1 \<le> outbox_cap" using start(2) by (simp_all add: one_byte outbox_cap_def)
  have hh: "is20 h" "h' = h" using h start(1) by simp_all
  obtain bf_x where "BitfieldOf mgr = Inr bf_x" using small_bitfield [OF small] by metis
  from open_conn_new(1) [OF hh(1) example_sides(1,2) example_sides(3) [symmetric] this] assms(4) hh(2)
  have wa: "wa = buildHandshake h (side_id example_x)" by simp
  obtain bf_y where "BitfieldOf s = Inr bf_y" using small_bitfield [OF n small(2)] by metis
  from open_conn_new(5) [OF hh(1) example_sides(2,1) example_sides(3) this assms(5) [unfolded wa]]
  have "peerStates (ts_swarm b) = fmupd (side_id example_x) (NewPeerState 0) fmempty" by simp
  then show ?thesis by (simp add: env_ok_def enumerates_def example_round_def example_x_def)
qed

theorem two_peer_download_witness:
  "\<exists>a b a' b' effs. play example_x example_y (download_turns example_round) (a, b) = Inr ((a', b'), effs) \<and>
     WriteFile [7] \<in> set effs"
proof -
  let ?heap = "\<lambda>_. NewTCPPeer True"
  obtain s where s: "runSeed [7] (int 1) = Inr (sha1_Sum [7], s)" and same: "same_torrent 1 [7] s"
    using one_byte_seed by (rule runSeed_ok)
  define hs where "hs = chunk_hashes 1 [7] (chunk_count 1 [7])"
  have hs: "pieceHashes s = Some hs" and n: "numPieces s = int (chunk_count 1 [7])"
    using same by (simp_all add: same_torrent_def hs_def)
  obtain mgr where dl: "runDownload (hex_encode (sha1_Sum [7])) (numPieces s) (hex_encode hs) = Inr (sha1_Sum [7], mgr)"
    unfolding n hs_def runDownload_printed [of 1 "[7]", OF zero_less_one] by blast
  obtain wa ra a where a: "open_conn 0 (sha1_Sum [7]) (side_id example_x) (side_conn example_x) True
      (buildHandshake (sha1_Sum [7]) (side_id example_y)) (NewTorrentServer zero20 (sha1_Sum [7]) mgr ?heap) = (wa, ra, a)"
    by (metis prod_cases3)
  obtain wb rb b where b: "open_conn 0 (sha1_Sum [7]) (side_id example_y) (side_conn example_y) False wa
      (NewTorrentServer zero20 (sha1_Sum [7]) s ?heap) = (wb, rb, b)"
    by (metis prod_cases3)
  have "env_ok example_round (ts_swarm b)" using s hs dl a b by (rule example_opened)
  then show ?thesis
    using two_peer_download [OF one_byte_seed s hs dl one_byte_fits example_sides(1-3) a b example_sides(4,5) _ example_sides(6,7)]
    by blast
qed

end
