(* ===== verification/Tracker_Client.thy ===== *)
theory Tracker_Client
  imports Go_Http Bencode
begin

text \<open>
  The tracker's client, \<open>src/client/tracker_client.go\<close>.  \<open>url.Parse\<close> of the configured tracker URL
  and the HTTP client are parameters: \<open>get\<close> takes the state of the world and the URL and returns the
  result of \<open>client.Get\<close> with the body read.  The HTTP client takes the URL as a record, so
  \<open>u.String()\<close> and the parsing of that text inside the HTTP client are left out.
\<close>

record TrackerClient =
  tc_peerID :: string
  tc_port :: int
  tc_uploaded :: int
  tc_downloaded :: int

record client_peer =
  cp_PeerID :: string
  cp_IP :: string
  cp_Port :: int

record AnnounceResponse =
  ar_Interval :: int
  ar_Peers :: "client_peer list"

datatype tracker_err =
    BadURL
  | RequestFailed
  | BadStatus nat
  | UnreadableBody
  | DecodeFailed dec_err
  | ExpectedDictionary
  | TrackerFailure string
  | MissingFiles
  | NoStats

definition NewTrackerClient :: "string \<Rightarrow> int \<Rightarrow> TrackerClient" where
  "NewTrackerClient peerID port = \<lparr>tc_peerID = peerID, tc_port = port, tc_uploaded = 0, tc_downloaded = 0\<rparr>"

definition UpdateStats :: "TrackerClient \<Rightarrow> int \<Rightarrow> int \<Rightarrow> TrackerClient" where
  "UpdateStats tc uploaded downloaded = tc\<lparr>tc_uploaded := uploaded, tc_downloaded := downloaded\<rparr>"

section \<open>Announce\<close>

text \<open>The parameters in the order of their keys, as \<open>params.Encode\<close> writes them.\<close>

definition announce_params :: "TrackerClient \<Rightarrow> id20 \<Rightarrow> int \<Rightarrow> string \<Rightarrow> (string \<times> string) list" where
  "announce_params tc infoHash left event =
     [(''compact'', ''0''), (''downloaded'', itoa (tc_downloaded tc))] @
     (if event \<noteq> [] then [(''event'', event)] else []) @
     [(''info_hash'', string_of_bytes infoHash), (''left'', itoa left), (''numwant'', ''50''),
      (''peer_id'', tc_peerID tc), (''port'', itoa (tc_port tc)), (''uploaded'', itoa (tc_uploaded tc))]"

definition buildAnnounceURL ::
  "(string \<Rightarrow> url option) \<Rightarrow> TrackerClient \<Rightarrow> string \<Rightarrow> id20 \<Rightarrow> int \<Rightarrow> string \<Rightarrow> url option" where
  "buildAnnounceURL urlParse tc trackerURL infoHash left event =
     (case urlParse trackerURL of
        None \<Rightarrow> None
      | Some u \<Rightarrow>
          let u1 = (if Path u = [] then u\<lparr>Path := ''/announce''\<rparr> else u)
          in Some (u1\<lparr>RawQuery := Values_Encode (announce_params tc infoHash left event)\<rparr>))"

text \<open>Reading an optional field of a dictionary: absent or of another type gives the zero value.\<close>

definition dict_str :: "(string, node) fmap \<Rightarrow> string \<Rightarrow> string" where
  "dict_str d k = (case fmlookup d k of Some (BString s) \<Rightarrow> s | _ \<Rightarrow> [])"

definition dict_int :: "(string, node) fmap \<Rightarrow> string \<Rightarrow> int" where
  "dict_int d k = (case fmlookup d k of Some (BInt i) \<Rightarrow> i | _ \<Rightarrow> 0)"

definition parse_peer :: "node \<Rightarrow> client_peer option" where
  "parse_peer n =
     (case n of
        BDict d \<Rightarrow> Some \<lparr>cp_PeerID = dict_str d ''peer id'', cp_IP = dict_str d ''ip'', cp_Port = dict_int d ''port''\<rparr>
      | _ \<Rightarrow> None)"

definition parseAnnounceResponse :: "node \<Rightarrow> tracker_err + AnnounceResponse" where
  "parseAnnounceResponse decoded =
     (case decoded of
        BDict d \<Rightarrow>
          (case fmlookup d ''failure reason'' of
             Some (BString reason) \<Rightarrow> Inl (TrackerFailure reason)
           | _ \<Rightarrow>
               Inr \<lparr>ar_Interval = dict_int d ''interval'',
                    ar_Peers = (case fmlookup d ''peers'' of
                               Some (BList ns) \<Rightarrow> List.map_filter parse_peer ns
                             | _ \<Rightarrow> [])\<rparr>)
      | _ \<Rightarrow> Inl ExpectedDictionary)"

definition lift_dec :: "dec_err fail \<Rightarrow> tracker_err fail" where
  "lift_dec e = (case e of Err d \<Rightarrow> Err (DecodeFailed d) | Panic p \<Rightarrow> Panic p)"

definition decode_body :: "string \<Rightarrow> tracker_err fail + node" where
  "decode_body body = (case Decode body of Inl e \<Rightarrow> Inl (lift_dec e) | Inr (v, _) \<Rightarrow> Inr v)"

definition lift_err :: "tracker_err + 'a \<Rightarrow> tracker_err fail + 'a" where
  "lift_err r = (case r of Inl e \<Rightarrow> Inl (Err e) | Inr x \<Rightarrow> Inr x)"

definition announce_result :: "http_result \<Rightarrow> tracker_err fail + AnnounceResponse" where
  "announce_result res =
     (case res of
        GetFailed \<Rightarrow> Inl (Err RequestFailed)
      | BodyUnreadable status \<Rightarrow> Inl (Err (if status \<noteq> 200 then BadStatus status else UnreadableBody))
      | GotResponse resp \<Rightarrow>
          if StatusCode resp \<noteq> 200 then Inl (Err (BadStatus (StatusCode resp)))
          else bindE (decode_body (Body resp)) (\<lambda>v. lift_err (parseAnnounceResponse v)))"

definition Announce ::
  "(string \<Rightarrow> url option) \<Rightarrow> ('w \<Rightarrow> url \<Rightarrow> http_result \<times> 'w) \<Rightarrow> 'w \<Rightarrow> TrackerClient \<Rightarrow>
    string \<Rightarrow> id20 \<Rightarrow> int \<Rightarrow> string \<Rightarrow> (tracker_err fail + AnnounceResponse) \<times> 'w" where
  "Announce urlParse get w tc trackerURL infoHash left event =
     (case buildAnnounceURL urlParse tc trackerURL infoHash left event of
        None \<Rightarrow> (Inl (Err BadURL), w)
      | Some u \<Rightarrow> (let (res, w') = get w u in (announce_result res, w')))"

section \<open>Scrape\<close>

record ScrapeResponse =
  sc_Complete :: int
  sc_Incomplete :: int
  sc_Downloaded :: int

text \<open>The loop over the files leaves at the first dictionary, in the order of the runtime.\<close>

fun first_stats :: "(string, node) fmap \<Rightarrow> string list \<Rightarrow> ScrapeResponse option" where
  "first_stats files [] = None"
| "first_stats files (k # ks) =
     (case fmlookup files k of
        Some (BDict d) \<Rightarrow>
          Some \<lparr>sc_Complete = dict_int d ''complete'', sc_Incomplete = dict_int d ''incomplete'',
                sc_Downloaded = dict_int d ''downloaded''\<rparr>
      | _ \<Rightarrow> first_stats files ks)"

definition parse_scrape :: "map_order \<Rightarrow> node \<Rightarrow> tracker_err + ScrapeResponse" where
  "parse_scrape c decoded =
     (case decoded of
        BDict d \<Rightarrow>
          (case fmlookup d ''files'' of
             Some (BDict files) \<Rightarrow>
               (case first_stats files (c (fmdom files)) of None \<Rightarrow> Inl NoStats | Some r \<Rightarrow> Inr r)
           | _ \<Rightarrow> Inl MissingFiles)
      | _ \<Rightarrow> Inl ExpectedDictionary)"

text \<open>The status code is not looked at.\<close>

definition scrape_result :: "map_order \<Rightarrow> http_result \<Rightarrow> tracker_err fail + ScrapeResponse" where
  "scrape_result c res =
     (case res of
        GetFailed \<Rightarrow> Inl (Err RequestFailed)
      | BodyUnreadable status \<Rightarrow> Inl (Err UnreadableBody)
      | GotResponse resp \<Rightarrow> bindE (decode_body (Body resp)) (\<lambda>v. lift_err (parse_scrape c v)))"

definition Scrape ::
  "(string \<Rightarrow> url option) \<Rightarrow> ('w \<Rightarrow> url \<Rightarrow> http_result \<times> 'w) \<Rightarrow> 'w \<Rightarrow> map_order \<Rightarrow> string \<Rightarrow> id20 \<Rightarrow>
    (tracker_err fail + ScrapeResponse) \<times> 'w" where
  "Scrape urlParse get w c trackerURL infoHash =
     (case urlParse trackerURL of
        None \<Rightarrow> (Inl (Err BadURL), w)
      | Some u \<Rightarrow>
          let u' = u\<lparr>Path := ''/scrape'', RawQuery := Values_Encode [(''info_hash'', string_of_bytes infoHash)]\<rparr>;
              (res, w') = get w u'
          in (scrape_result c res, w'))"

section \<open>Bootstrapping\<close>

text \<open>
  \<open>populateBootstrapNodes\<close> of \<open>src/torrent_server/server.go\<close>: the addresses of the reply, each once and
  without the server's own, behind the ones already known.
\<close>

definition formatAddr :: "string \<Rightarrow> int \<Rightarrow> string" where
  "formatAddr ip port =
     (if CHR '':'' \<in> set ip then ''['' @ ip @ '']:'' @ itoa port else ip @ '':'' @ itoa port)"

fun add_nodes :: "string \<Rightarrow> client_peer list \<Rightarrow> string fset \<Rightarrow> string list \<Rightarrow> string list" where
  "add_nodes own [] unique nodes = nodes"
| "add_nodes own (p # ps) unique nodes =
     (let addr = formatAddr (cp_IP p) (cp_Port p) in
      if addr = own then add_nodes own ps unique nodes
      else if addr |\<notin>| unique then add_nodes own ps (finsert addr unique) (nodes @ [addr])
      else add_nodes own ps unique nodes)"

definition populateBootstrapNodes ::
  "(string \<Rightarrow> url option) \<Rightarrow> ('w \<Rightarrow> url \<Rightarrow> http_result \<times> 'w) \<Rightarrow> 'w \<Rightarrow> TrackerClient \<Rightarrow>
    string \<Rightarrow> id20 \<Rightarrow> string \<Rightarrow> string list \<Rightarrow> (tracker_err fail + string list) \<times> 'w" where
  "populateBootstrapNodes urlParse get w tc trackerURL infoHash own nodes =
     (let (res, w') = Announce urlParse get w tc trackerURL infoHash 0 ''started'' in
      (case res of
         Inl e \<Rightarrow> (Inl e, w')
       | Inr resp \<Rightarrow> (Inr (add_nodes own (ar_Peers resp) {||} nodes), w')))"

text \<open>\<open>bootstrapNetwork\<close> then dials every node in a goroutine of its own: the nodes, and the dials.\<close>

definition bootstrapNetwork ::
  "(string \<Rightarrow> url option) \<Rightarrow> ('w \<Rightarrow> url \<Rightarrow> http_result \<times> 'w) \<Rightarrow> 'w \<Rightarrow> TrackerClient \<Rightarrow>
    string \<Rightarrow> id20 \<Rightarrow> string \<Rightarrow> string list \<Rightarrow> (tracker_err fail + string list \<times> string list) \<times> 'w" where
  "bootstrapNetwork urlParse get w tc trackerURL infoHash own nodes =
     (let (res, w') = populateBootstrapNodes urlParse get w tc trackerURL infoHash own nodes
      in (bindE res (\<lambda>nodes'. Inr (nodes', nodes')), w'))"

text \<open>What the loop over the peers adds: the addresses, in order, each once, never the own one.\<close>

lemma add_nodes_append:
  "\<exists>new. add_nodes own ps U nodes = nodes @ new \<and> distinct new \<and> set new \<inter> fset U = {} \<and>
    set new = (\<lambda>p. formatAddr (cp_IP p) (cp_Port p)) ` set ps - {own} - fset U"
proof (induction ps arbitrary: U nodes)
  case Nil
  show ?case by simp
next
  case (Cons p ps)
  let ?a = "formatAddr (cp_IP p) (cp_Port p)"
  show ?case
  proof (cases "?a = own \<or> ?a |\<in>| U")
    case True
    then show ?thesis using Cons.IH [of U nodes] by (auto simp: Let_def)
  next
    case False
    obtain new where new: "add_nodes own ps (finsert ?a U) (nodes @ [?a]) = (nodes @ [?a]) @ new" "distinct new"
        "set new \<inter> fset (finsert ?a U) = {}"
        "set new = (\<lambda>p. formatAddr (cp_IP p) (cp_Port p)) ` set ps - {own} - fset (finsert ?a U)"
      using Cons.IH [of "finsert ?a U" "nodes @ [?a]"] by blast
    have "add_nodes own (p # ps) U nodes = nodes @ (?a # new)" using False new(1) by (simp add: Let_def)
    moreover have "distinct (?a # new)" using new(2,3) by auto
    moreover have "set (?a # new) \<inter> fset U = {}" using new(3) False by auto
    moreover have "set (?a # new) = (\<lambda>p. formatAddr (cp_IP p) (cp_Port p)) ` set (p # ps) - {own} - fset U"
      using new(4) False by auto
    ultimately show ?thesis by blast
  qed
qed

end
