(* ===== verification/Tracker_Session.thy ===== *)
theory Tracker_Session
  imports Torrent_Server Tracker_Client Tracker_Server
begin

text \<open>
  The torrent server's calls of the tracker client (\<open>AnnounceToTracker\<close>, \<open>ScrapeTracker\<close> and
  \<open>UpdateTrackerStats\<close> of \<open>src/torrent_server/handler.go\<close>), and the composition of the client with
  the tracker: the client's HTTP library delivers the request to the tracker's handlers and their
  response back.  The theorems follow an announcement from the client's parameters through the query,
  the storage and the bencoded reply to the addresses the server dials.
\<close>

section \<open>The torrent server's calls\<close>

datatype session_err = NoTrackerClient | TrackerCall tracker_err

definition lift_session :: "tracker_err fail + 'a \<Rightarrow> session_err fail + unit" where
  "lift_session res =
     (case res of
        Inl (Err e) \<Rightarrow> Inl (Err (TrackerCall e)) | Inl (Panic p) \<Rightarrow> Inl (Panic p) | Inr _ \<Rightarrow> Inr ())"

definition AnnounceToTracker ::
  "(string \<Rightarrow> url option) \<Rightarrow> ('w \<Rightarrow> url \<Rightarrow> http_result \<times> 'w) \<Rightarrow> 'w \<Rightarrow> TrackerClient option \<Rightarrow>
    string \<Rightarrow> id20 \<Rightarrow> server \<Rightarrow> string \<Rightarrow> (session_err fail + unit) \<times> 'w" where
  "AnnounceToTracker urlParse get w client trackerURL infoHash ts event =
     (case client of
        None \<Rightarrow> (Inl (Err NoTrackerClient), w)
      | Some tc \<Rightarrow>
          (let (res, w') = Announce urlParse get w tc trackerURL infoHash (announce_left ts) event
           in (lift_session res, w')))"

definition ScrapeTracker ::
  "(string \<Rightarrow> url option) \<Rightarrow> ('w \<Rightarrow> url \<Rightarrow> http_result \<times> 'w) \<Rightarrow> 'w \<Rightarrow> map_order \<Rightarrow> TrackerClient option \<Rightarrow>
    string \<Rightarrow> id20 \<Rightarrow> (session_err fail + unit) \<times> 'w" where
  "ScrapeTracker urlParse get w c client trackerURL infoHash =
     (case client of
        None \<Rightarrow> (Inl (Err NoTrackerClient), w)
      | Some tc \<Rightarrow>
          (let (res, w') = Scrape urlParse get w c trackerURL infoHash in (lift_session res, w')))"

text \<open>The client is shared, so the new counters are a result too.\<close>

definition UpdateTrackerStats ::
  "(string \<Rightarrow> url option) \<Rightarrow> ('w \<Rightarrow> url \<Rightarrow> http_result \<times> 'w) \<Rightarrow> 'w \<Rightarrow> TrackerClient option \<Rightarrow>
    string \<Rightarrow> id20 \<Rightarrow> step_env \<Rightarrow> server \<Rightarrow> (session_err fail + unit) \<times> 'w \<times> TrackerClient option" where
  "UpdateTrackerStats urlParse get w client trackerURL infoHash env ts =
     (case client of
        None \<Rightarrow> (Inl (Err NoTrackerClient), w, None)
      | Some tc \<Rightarrow>
          (let (uploaded, downloaded) = tracker_stats env ts;
               tc' = UpdateStats tc uploaded downloaded;
               (res, w') = AnnounceToTracker urlParse get w (Some tc') trackerURL infoHash ts []
           in (res, w', Some tc')))"

section \<open>The tracker behind the client\<close>

text \<open>
  A \<open>Get\<close> that reaches the tracker: the world is the tracker's storage, the remote address is the
  client's as the tracker sees it.
\<close>

definition tracker_get ::
  "(node \<Rightarrow> string option) \<Rightarrow> map_order \<Rightarrow> int \<Rightarrow> string \<Rightarrow> MemoryStorage \<Rightarrow> url \<Rightarrow> http_result \<times> MemoryStorage" where
  "tracker_get marshal c now remote m u =
     (let (resp, m') = NewTracker marshal memory_store m c now (request_of u remote)
      in (GotResponse resp, m'))"

definition client_view :: "tpeer \<Rightarrow> client_peer" where
  "client_view p = \<lparr>cp_PeerID = ID p, cp_IP = IP p, cp_Port = Port p\<rparr>"

definition seen_ip :: "string \<Rightarrow> string" where
  "seen_ip remote = (let ip = split_host remote in if ip = ''::1'' then ''127.0.0.1'' else ip)"

lemma dict_simps [simp]:
  "dict_str (fmupd k' v d) k = (if k = k' then case v of BString s \<Rightarrow> s | _ \<Rightarrow> [] else dict_str d k)"
  "dict_int (fmupd k' v d) k = (if k = k' then case v of BInt i \<Rightarrow> i | _ \<Rightarrow> 0 else dict_int d k)"
  by (simp_all add: dict_str_def dict_int_def)

lemma parse_peer_node [simp]: "parse_peer (peer_node p) = Some (client_view p)"
  by (simp add: parse_peer_def peer_node_def client_view_def)

lemma parse_peer_nodes [simp]: "List.map_filter parse_peer (map peer_node ps) = map client_view ps"
  by (induction ps) (simp_all add: List.map_filter_simps)

lemma parse_announce_node [simp]:
  "parseAnnounceResponse (announce_node ps n) = Inr \<lparr>ar_Interval = n, ar_Peers = map client_view ps\<rparr>"
  by (simp add: parseAnnounceResponse_def announce_node_def convertPeersToList_def fmlookup_of_list)

lemma parse_failure_node [simp]: "parseAnnounceResponse (failure_node reason) = Inl (TrackerFailure reason)"
  by (simp add: parseAnnounceResponse_def failure_node_def fmlookup_of_list)

lemma announce_result_carries:
  "carries resp v \<Longrightarrow> announce_result (GotResponse resp) = lift_err (parseAnnounceResponse v)"
  by (simp add: announce_result_def carries_def decode_body_def)

lemma scrape_result_carries:
  "carries resp v \<Longrightarrow> scrape_result c (GotResponse resp) = lift_err (parse_scrape c v)"
  by (simp add: scrape_result_def carries_def decode_body_def)

section \<open>The query\<close>

text \<open>Both escaping characters of a query, percent and plus, are bytes an info hash may contain.\<close>

definition plain_hash :: "id20 \<Rightarrow> bool" where
  "plain_hash h \<longleftrightarrow> 37 \<notin> set h \<and> 43 \<notin> set h"

definition announce_request :: "TrackerClient \<Rightarrow> id20 \<Rightarrow> int \<Rightarrow> string \<Rightarrow> string \<Rightarrow> http_request" where
  "announce_request tc h left event remote =
     \<lparr>req_Path = ''/announce'', req_RawQuery = Values_Encode (announce_params tc h left event),
      X_Real_IP = [], X_Forwarded_For = [], RemoteAddr = remote\<rparr>"

lemma announce_args:
  "arg (announce_request tc h left event remote) ''info_hash'' = string_of_bytes h"
  "arg (announce_request tc h left event remote) ''peer_id'' = tc_peerID tc"
  "arg (announce_request tc h left event remote) ''port'' = itoa (tc_port tc)"
  "arg (announce_request tc h left event remote) ''uploaded'' = itoa (tc_uploaded tc)"
  "arg (announce_request tc h left event remote) ''downloaded'' = itoa (tc_downloaded tc)"
  "arg (announce_request tc h left event remote) ''left'' = itoa left"
  "arg (announce_request tc h left event remote) ''numwant'' = ''50''"
  "arg (announce_request tc h left event remote) ''event'' = event"
  by (simp_all add: announce_request_def query_Get_def announce_params_def)

lemma num_want_50: "num_want (announce_request tc h left event remote) = 50"
proof -
  have "itoa 50 = ''50''" by (simp add: itoa_def utoa.simps digit_char_def)
  then have "ParseInt ''50'' = (50, None)" using ParseInt_itoa [of 50] by (simp add: int64_ok_def)
  then show ?thesis by (simp add: num_want_def announce_args Atoi_def)
qed

definition client_ok :: "TrackerClient \<Rightarrow> bool" where
  "client_ok tc \<longleftrightarrow> tc_peerID tc \<noteq> [] \<and> int64_ok (tc_port tc) \<and> int64_ok (tc_uploaded tc) \<and> int64_ok (tc_downloaded tc)"

text \<open>What the tracker puts on record for the client: the very numbers it announced.\<close>

definition client_record :: "TrackerClient \<Rightarrow> int \<Rightarrow> string \<Rightarrow> string \<Rightarrow> int \<Rightarrow> tpeer" where
  "client_record tc left event remote now =
     \<lparr>ID = tc_peerID tc, IP = seen_ip remote, Port = tc_port tc, Uploaded = tc_uploaded tc,
      Downloaded = tc_downloaded tc, Left = (if event = ''completed'' then 0 else left), LastSeen = now\<rparr>"

lemma recorded_client:
  assumes "client_ok tc" and "int64_ok left"
  shows "recorded_peer (announce_request tc h left event remote) now = client_record tc left event remote now"
proof -
  have "getClientIP (announce_request tc h left event remote) = seen_ip remote"
    by (simp add: getClientIP_def seen_ip_def announce_request_def)
  then show ?thesis
    using assms
    by (auto simp: recorded_peer_def announced_peer_def Let_def announce_args client_record_def client_ok_def
        Atoi_def ParseInt_itoa)
qed

text \<open>The second unescaping: harmless without the two characters, harmful with them.\<close>

definition plus_to_space :: "id20 \<Rightarrow> id20" where
  "plus_to_space h = map (\<lambda>b. if b = 43 then 32 else b) h"

lemma char_of_byte_eq: "(char_of (unat b) :: char) = ch \<longleftrightarrow> b = of_char ch" for b :: byte
proof
  assume "(char_of (unat b) :: char) = ch"
  then have "of_char ch = (of_char (char_of (unat b) :: char) :: byte)" by simp
  then show "b = of_char ch" by (simp only: of_char_char_of_unat)
qed simp

lemma in_string_of_bytes: "ch \<in> set (string_of_bytes h) \<longleftrightarrow> of_char ch \<in> set h"
proof
  assume "ch \<in> set (string_of_bytes h)"
  then show "of_char ch \<in> set h" by (auto simp: string_of_bytes_def)
next
  assume "of_char ch \<in> set h"
  then have "char_of (unat (of_char ch :: byte)) \<in> set (string_of_bytes h)"
    unfolding string_of_bytes_def by (simp only: set_map) (rule imageI)
  then show "ch \<in> set (string_of_bytes h)" by simp
qed

lemma decode_no_percent:
  assumes "is20 h" and "37 \<notin> set h"
  shows "decodeInfoHash (string_of_bytes h) = Inr (plus_to_space h)"
proof -
  have "CHR ''%'' \<notin> set (string_of_bytes h)" using assms(2) by (simp add: in_string_of_bytes)
  from QueryUnescape_plain [OF this]
  have u: "QueryUnescape (string_of_bytes h) =
      Some (map (\<lambda>c. if c = CHR ''+'' then CHR '' '' else c) (string_of_bytes h))" .
  have "bytes_of_string (map (\<lambda>c. if c = CHR ''+'' then CHR '' '' else c) (string_of_bytes h)) = plus_to_space h"
    by (simp add: bytes_of_string_def string_of_bytes_def plus_to_space_def char_of_byte_eq)
  then show ?thesis using assms(1) by (simp add: decodeInfoHash_def u is20_def)
qed

lemma decode_plain: "is20 h \<Longrightarrow> plain_hash h \<Longrightarrow> decodeInfoHash (string_of_bytes h) = Inr h"
proof -
  assume h: "is20 h" "plain_hash h"
  then have "plus_to_space h = h"
    unfolding plus_to_space_def plain_hash_def by (intro map_idI) auto
  with h show ?thesis using decode_no_percent [of h] by (simp add: plain_hash_def)
qed

lemma QueryUnescape_shorter:
  "QueryUnescape s = Some t \<Longrightarrow> CHR ''%'' \<in> set s \<Longrightarrow> length t < length s"
proof (induction s arbitrary: t rule: QueryUnescape.induct)
  case 1
  then show ?case by simp
next
  case (2 c cs)
  show ?case
  proof (cases "c = CHR ''%''")
    case True
    with 2(3) obtain a b r t' where "cs = a # b # r" "QueryUnescape r = Some t'" "length t = Suc (length t')"
      by (auto split: list.splits option.splits)
    then show ?thesis using QueryUnescape_length [of r t'] by simp
  next
    case False
    with 2(3) obtain t' where t': "QueryUnescape cs = Some t'" "length t = Suc (length t')" by auto
    from False 2(4) have "CHR ''%'' \<in> set cs" by simp
    with 2(2) [OF False t'(1)] t'(2) show ?thesis by simp
  qed
qed

lemma decode_percent:
  assumes "is20 h" and "37 \<in> set h"
  shows "\<exists>e. decodeInfoHash (string_of_bytes h) = Inl e"
proof (cases "QueryUnescape (string_of_bytes h)")
  case None
  then show ?thesis by (simp add: decodeInfoHash_def)
next
  case (Some t)
  have "CHR ''%'' \<in> set (string_of_bytes h)" using assms(2) by (simp add: in_string_of_bytes)
  with Some have "length t < length (string_of_bytes h)" by (rule QueryUnescape_shorter)
  then show ?thesis using Some assms(1) by (simp add: decodeInfoHash_def is20_def)
qed

lemma client_valid:
  assumes "client_ok tc" and "is20 h" and "37 \<notin> set h"
  shows "announce_valid (announce_request tc h left event remote) (plus_to_space h)"
proof -
  have "string_of_bytes h \<noteq> []" using assms(2) by (auto simp: is20_def string_of_bytes_def)
  then show ?thesis using assms decode_no_percent by (simp add: announce_valid_def announce_args client_ok_def)
qed


section \<open>An announcement, end to end\<close>

lemma mem_announce_state:
  assumes "announce_valid r h" and "arg r ''event'' \<noteq> ''stopped''"
  shows "snd (handleAnnounce marshal memory_store m c now r) =
    (let m1 = mem_AddPeer m h (recorded_peer r now)
     in if arg r ''event'' = ''completed'' then mem_IncrementCompleted m1 h else m1)"
  using assms
  by (cases "arg r ''event'' = ''completed''")
    (simp_all add: handleAnnounce_def announce_valid_def recorded_peer_def Let_def memory_store_def)

definition announce_url :: "(string \<Rightarrow> url option) \<Rightarrow> string \<Rightarrow> bool" where
  "announce_url urlParse t \<longleftrightarrow> (\<exists>u. urlParse t = Some u \<and> (Path u = [] \<or> Path u = ''/announce''))"

lemma Announce_tracker:
  assumes "announce_url urlParse t"
  shows "Announce urlParse (tracker_get marshal c now remote) m tc t h left event =
    (let (resp, m') = handleAnnounce marshal memory_store m c now (announce_request tc h left event remote)
     in (announce_result (GotResponse resp), m'))"
proof -
  obtain u where u: "urlParse t = Some u" "Path u = [] \<or> Path u = ''/announce''"
    using assms by (auto simp: announce_url_def)
  let ?q = "Values_Encode (announce_params tc h left event)"
  let ?u = "(if Path u = [] then u\<lparr>Path := ''/announce''\<rparr> else u)\<lparr>RawQuery := ?q\<rparr>"
  have "buildAnnounceURL urlParse tc t h left event = Some ?u"
    by (simp add: buildAnnounceURL_def u(1) Let_def)
  moreover have "request_of ?u remote = announce_request tc h left event remote" "Path ?u = ''/announce''"
    using u(2) by (auto simp: request_of_def announce_request_def)
  ultimately show ?thesis
    by (simp add: Announce_def tracker_get_def NewTracker_def request_of_def announce_request_def split_def Let_def)
qed

lemma lift_err_Inr [simp]: "lift_err (Inr x) = Inr x"
  and lift_err_Inl [simp]: "lift_err (Inl e) = Inl (Err e)"
  by (simp_all add: lift_err_def)

text \<open>What holds for the hash the tracker understands, whether or not it is the announced one.\<close>

lemma announce_decoded:
  assumes "marshals marshal" and "mem_inv m" and "view_ok mem_view m" and "order_ok c" and "announce_url urlParse t"
    and "client_ok tc" and "int64_ok left" and "is20 h" and "37 \<notin> set h" and "event \<noteq> ''stopped''"
  shows "\<exists>ps m'. Announce urlParse (tracker_get marshal c now remote) m tc t h left event =
      (Inr \<lparr>ar_Interval = 1800, ar_Peers = map client_view ps\<rparr>, m') \<and>
    reply_list (mem_view m' (plus_to_space h)) 50 (tc_peerID tc) ps \<and> mem_inv m' \<and>
    mem_view m' (plus_to_space h) (tc_peerID tc) = Some (client_record tc left event remote now) \<and>
    (\<forall>h' i. is20 h' \<and> i \<noteq> tc_peerID tc \<longrightarrow> mem_view m' h' i = mem_view m h' i) \<and>
    (\<forall>h' q. is20 h' \<and> mem_view m' h' (tc_peerID tc) = Some q \<longrightarrow> q = client_record tc left event remote now) \<and>
    mem_count m' (plus_to_space h) =
      (if event = ''completed'' then wrap64 (mem_count m (plus_to_space h) + 1) else mem_count m (plus_to_space h))"
proof -
  let ?r = "announce_request tc h left event remote"
  have valid: "announce_valid ?r (plus_to_space h)" using assms(6,8,9) by (rule client_valid)
  have h20: "is20 (plus_to_space h)" using valid by (rule announce_valid_is20)
  obtain resp m' where run: "handleAnnounce marshal memory_store m c now ?r = (resp, m')" by fastforce
  have ev: "arg ?r ''event'' \<noteq> ''stopped''" using assms(10) by (simp add: announce_args)
  note facts = memory.announce_recorded [OF assms(2,4) valid ev run,
      unfolded announce_args num_want_50 recorded_client [OF assms(6,7)]]
  then obtain ps where ps: "resp = sendAnnounceResponse marshal ps 1800"
      "reply_list (mem_view m' (plus_to_space h)) 50 (tc_peerID tc) ps" by blast
  have "tpeer_ok p" if "p \<in> set ps" for p
  proof -
    have "ID p \<noteq> tc_peerID tc" "mem_view m' (plus_to_space h) (ID p) = Some p"
      using ps(2) that by (auto simp: reply_list_def)
    then have "mem_view m (plus_to_space h) (ID p) = Some p" using facts h20 by auto
    then show ?thesis using assms(3) h20 unfolding view_ok_def by blast
  qed
  then have "carries resp (announce_node ps 1800)"
    unfolding ps(1) using assms(1) by (intro announce_carries) auto
  from announce_result_carries [OF this]
  have "announce_result (GotResponse resp) = Inr \<lparr>ar_Interval = 1800, ar_Peers = map client_view ps\<rparr>" by simp
  then have "Announce urlParse (tracker_get marshal c now remote) m tc t h left event =
      (Inr \<lparr>ar_Interval = 1800, ar_Peers = map client_view ps\<rparr>, m')"
    by (simp add: Announce_tracker [OF assms(5)] run)
  with ps(2) facts show ?thesis by blast
qed

lemma plus_to_space_plain [simp]: "plain_hash h \<Longrightarrow> plus_to_space h = h"
  unfolding plus_to_space_def plain_hash_def by (intro map_idI) auto


text \<open>A client and a tracker URL for the witnesses.\<close>

definition sample_client :: "string \<Rightarrow> TrackerClient" where
  "sample_client i = NewTrackerClient i 6881"

definition sample_parse :: "string \<Rightarrow> url option" where
  "sample_parse t = Some \<lparr>Scheme = ''http'', Host = t, Path = [], RawQuery = []\<rparr>"

lemma sample_session [simp]:
  "announce_url sample_parse t" "i \<noteq> [] \<Longrightarrow> client_ok (sample_client i)" "tc_peerID (sample_client i) = i"
  "is20 sample_hash" "plain_hash sample_hash" "int64_ok 0" "int64_ok 6881"
  by (simp_all add: announce_url_def sample_parse_def client_ok_def sample_client_def NewTrackerClient_def
      int64_ok_def is20_def sample_hash_def plain_hash_def bytes_of_string_def)


text \<open>
  C34.  The tracker unescapes the info hash a second time.  A hash with a percent byte is refused as
  invalid, whatever the rest of it, and nothing is recorded; a hash with a plus byte (and no percent)
  is filed under a different torrent, with spaces for the pluses, so in an empty tracker the peer is not
  on record for the torrent it announced.
\<close>

theorem announce_hash_corrupted:
  assumes "marshals marshal" and "order_ok c" and "announce_url urlParse t"
    and "client_ok tc" and "int64_ok left" and "is20 h" and "\<not> plain_hash h" and "event \<noteq> ''stopped''"
  shows "(37 \<in> set h \<longrightarrow>
      Announce urlParse (tracker_get marshal c now remote) m tc t h left event =
        (Inl (Err (TrackerFailure ''Invalid info_hash'')), m)) \<and>
    (37 \<notin> set h \<longrightarrow>
      (\<exists>res m'. Announce urlParse (tracker_get marshal c now remote) NewMemoryStorage tc t h left event = (Inr res, m') \<and>
        mem_view m' h (tc_peerID tc) = None \<and>
        plus_to_space h \<noteq> h \<and>
        mem_view m' (plus_to_space h) (tc_peerID tc) = Some (client_record tc left event remote now)))"
proof (intro conjI impI)
  assume pc: "37 \<in> set h"
  let ?r = "announce_request tc h left event remote"
  obtain e where e: "decodeInfoHash (string_of_bytes h) = Inl e" using decode_percent [OF assms(6) pc] by blast
  have "string_of_bytes h \<noteq> []" using assms(6) by (auto simp: is20_def string_of_bytes_def)
  then have "handleAnnounce marshal memory_store m c now ?r = (sendErrorResponse marshal ''Invalid info_hash'', m)"
    using assms(4) e unfolding handleAnnounce_def Let_def announce_args by (simp add: client_ok_def)
  moreover have "announce_result (GotResponse (sendErrorResponse marshal ''Invalid info_hash'')) =
      Inl (Err (TrackerFailure ''Invalid info_hash''))"
    using announce_result_carries [OF error_carries [OF assms(1), of "''Invalid info_hash''"]] by simp
  ultimately show "Announce urlParse (tracker_get marshal c now remote) m tc t h left event =
        (Inl (Err (TrackerFailure ''Invalid info_hash'')), m)"
    by (simp add: Announce_tracker [OF assms(3)])
next
  assume np: "37 \<notin> set h"
  then have plus: "43 \<in> set h" using assms(7) by (simp add: plain_hash_def)
  have "43 \<notin> set (plus_to_space h)" by (auto simp: plus_to_space_def)
  with plus have ne: "plus_to_space h \<noteq> h" by metis
  let ?r = "announce_request tc h left event remote"
  show "\<exists>res m'. Announce urlParse (tracker_get marshal c now remote) NewMemoryStorage tc t h left event = (Inr res, m') \<and>
        mem_view m' h (tc_peerID tc) = None \<and> plus_to_space h \<noteq> h \<and>
        mem_view m' (plus_to_space h) (tc_peerID tc) = Some (client_record tc left event remote now)"
  proof -
    obtain res m' where run: "Announce urlParse (tracker_get marshal c now remote) NewMemoryStorage tc t h left event = (Inr res, m')"
        "mem_view m' (plus_to_space h) (tc_peerID tc) = Some (client_record tc left event remote now)"
      using announce_decoded [OF assms(1) mem_inv_New view_ok_New(1) assms(2-6) np assms(8), of now remote] by blast
    have "m' = snd (handleAnnounce marshal memory_store NewMemoryStorage c now ?r)"
      using run(1) by (simp add: Announce_tracker [OF assms(3)] split_def Let_def)
    then have "mem_view m' h (tc_peerID tc) = mem_view (mem_AddPeer NewMemoryStorage (plus_to_space h) (recorded_peer ?r now)) h (tc_peerID tc)"
      using mem_announce_state [OF client_valid [OF assms(4,6) np]] assms(8) by (simp add: announce_args Let_def)
    also have "\<dots> = None" using ne by (simp add: AddPeer_view announce_args NewMemoryStorage_def)
    finally show ?thesis using run ne by blast
  qed
qed

theorem announce_hash_corrupted_witness:
  "Announce sample_parse (tracker_get (\<lambda>v. Some (benc v)) key_order 5 ''10.0.0.1:4000'') NewMemoryStorage
      (sample_client ''p1'') ''tracker'' (replicate 20 37) 7 ''started'' =
      (Inl (Err (TrackerFailure ''Invalid info_hash'')), NewMemoryStorage)"
proof -
  have "int64_ok 7" by (simp add: int64_ok_def)
  moreover have "is20 (replicate 20 37)" "\<not> plain_hash (replicate 20 37)" "37 \<in> set (replicate 20 (37 :: byte))"
    by (simp_all add: is20_def plain_hash_def)
  ultimately show ?thesis
    using announce_hash_corrupted [OF marshals_benc order_ok_key_order sample_session(1,2),
        of "''p1''" 7 "replicate 20 37" "''started''" 5 "''10.0.0.1:4000''" NewMemoryStorage "''tracker''"]
    by simp
qed


section \<open>Bootstrapping, end to end\<close>

text \<open>
  Bootstrapping adds exactly the addresses the tracker returned: behind the nodes already known,
  each once, in the order of their first occurrence, and never the server's own; on a failed announce
  nothing is added, and the server dials exactly the resulting nodes.
\<close>

theorem bootstrap_nodes_exact:
  "case fst (Announce urlParse get w tc t h 0 ''started'') of
     Inl e \<Rightarrow> fst (bootstrapNetwork urlParse get w tc t h own nodes) = Inl e
   | Inr resp \<Rightarrow> \<exists>new. fst (bootstrapNetwork urlParse get w tc t h own nodes) = Inr (nodes @ new, nodes @ new) \<and>
       distinct new \<and> own \<notin> set new \<and>
       set new = (\<lambda>p. formatAddr (cp_IP p) (cp_Port p)) ` set (ar_Peers resp) - {own}"
proof (cases "fst (Announce urlParse get w tc t h 0 ''started'')")
  case (Inl e)
  then show ?thesis by (auto simp: bootstrapNetwork_def populateBootstrapNodes_def split_def Let_def)
next
  case (Inr resp)
  obtain new where "add_nodes own (ar_Peers resp) {||} nodes = nodes @ new" "distinct new"
      "set new = (\<lambda>p. formatAddr (cp_IP p) (cp_Port p)) ` set (ar_Peers resp) - {own}"
    using add_nodes_append [of own "ar_Peers resp" "{||}" nodes] by auto
  with Inr show ?thesis by (auto simp: bootstrapNetwork_def populateBootstrapNodes_def split_def Let_def)
qed

text \<open>The address another peer dials for a recorded one.\<close>

definition peer_addr :: "TrackerClient \<Rightarrow> string \<Rightarrow> string" where
  "peer_addr tc remote = formatAddr (seen_ip remote) (tc_port tc)"

lemma bootstrap_reply:
  assumes "marshals marshal" and "mem_inv m" and "view_ok mem_view m" and "order_ok c" and "announce_url urlParse t"
    and "client_ok tc" and "is20 h" and "plain_hash h"
  shows "\<exists>ps m' new. bootstrapNetwork urlParse (tracker_get marshal c now remote) m tc t h own nodes =
      (Inr (nodes @ new, nodes @ new), m') \<and>
    set new = (\<lambda>p. formatAddr (IP p) (Port p)) ` set ps - {own} \<and>
    reply_list (mem_view m' h) 50 (tc_peerID tc) ps \<and> mem_inv m' \<and>
    mem_view m' h (tc_peerID tc) = Some (client_record tc 0 ''started'' remote now) \<and>
    (\<forall>h' i. is20 h' \<and> i \<noteq> tc_peerID tc \<longrightarrow> mem_view m' h' i = mem_view m h' i) \<and>
    (\<forall>h' q. is20 h' \<and> mem_view m' h' (tc_peerID tc) = Some q \<longrightarrow> q = client_record tc 0 ''started'' remote now)"
proof -
  have np: "37 \<notin> set h" using assms(8) by (simp add: plain_hash_def)
  have z: "int64_ok 0" by (simp add: int64_ok_def)
  obtain ps m' where a: "Announce urlParse (tracker_get marshal c now remote) m tc t h 0 ''started'' =
      (Inr \<lparr>ar_Interval = 1800, ar_Peers = map client_view ps\<rparr>, m')"
    "reply_list (mem_view m' h) 50 (tc_peerID tc) ps" "mem_inv m'"
    "mem_view m' h (tc_peerID tc) = Some (client_record tc 0 ''started'' remote now)"
    "\<forall>h' i. is20 h' \<and> i \<noteq> tc_peerID tc \<longrightarrow> mem_view m' h' i = mem_view m h' i"
    "\<forall>h' q. is20 h' \<and> mem_view m' h' (tc_peerID tc) = Some q \<longrightarrow> q = client_record tc 0 ''started'' remote now"
    using announce_decoded [OF assms(1-6) z assms(7) np, of "''started''" now remote] assms(8)
    by (simp only: plus_to_space_plain) auto
  obtain new where "add_nodes own (map client_view ps) {||} nodes = nodes @ new"
      "set new = (\<lambda>p. formatAddr (cp_IP p) (cp_Port p)) ` set (map client_view ps) - {own}"
    using add_nodes_append [of own "map client_view ps" "{||}" nodes] by auto
  then have "bootstrapNetwork urlParse (tracker_get marshal c now remote) m tc t h own nodes =
      (Inr (nodes @ new, nodes @ new), m')"
    "set new = (\<lambda>p. formatAddr (IP p) (Port p)) ` set ps - {own}"
    using a(1) by (simp_all add: bootstrapNetwork_def populateBootstrapNodes_def client_view_def image_image)
  with a(2-6) show ?thesis by blast
qed

lemma client_record_ok: "client_ok tc \<Longrightarrow> str_ok (tc_peerID tc) \<Longrightarrow> str_ok remote \<Longrightarrow> tpeer_ok (client_record tc left event remote now)"
  using split_host_length [of remote] str_ok_le
  by (auto simp: tpeer_ok_def client_record_def client_ok_def seen_ip_def Let_def)

lemma bootstrap_view_ok:
  assumes "marshals marshal" and "mem_inv m" and "view_ok mem_view m" and "order_ok c" and "announce_url urlParse t"
    and "client_ok tc" and "is20 h" and "plain_hash h" and "str_ok (tc_peerID tc)" and "str_ok remote"
  shows "view_ok mem_view (snd (bootstrapNetwork urlParse (tracker_get marshal c now remote) m tc t h own nodes))"
  unfolding view_ok_def
proof (intro allI impI)
  fix h' i p
  let ?m = "snd (bootstrapNetwork urlParse (tracker_get marshal c now remote) m tc t h own nodes)"
  note facts = bootstrap_reply [OF assms(1-8), of now remote own nodes]
  assume p: "is20 h' \<and> mem_view ?m h' i = Some p"
  show "tpeer_ok p"
  proof (cases "i = tc_peerID tc")
    case True
    then have "p = client_record tc 0 ''started'' remote now" using facts p by auto
    then show ?thesis using client_record_ok [OF assms(6,9,10)] by simp
  next
    case False
    then have "mem_view m h' i = Some p" using facts p by auto
    then show ?thesis using assms(3) p unfolding view_ok_def by blast
  qed
qed

lemma bootstrap_keeps:
  assumes "marshals marshal" and "mem_inv m" and "view_ok mem_view m" and "order_ok c" and "announce_url urlParse t"
    and "client_ok tc" and "is20 h" and "plain_hash h"
  shows "mem_inv (snd (bootstrapNetwork urlParse (tracker_get marshal c now remote) m tc t h own nodes)) \<and>
    dom (mem_view (snd (bootstrapNetwork urlParse (tracker_get marshal c now remote) m tc t h own nodes)) h)
      \<subseteq> insert (tc_peerID tc) (dom (mem_view m h))"
proof -
  obtain m' where "snd (bootstrapNetwork urlParse (tracker_get marshal c now remote) m tc t h own nodes) = m'"
      "mem_inv m'" "\<forall>h' i. is20 h' \<and> i \<noteq> tc_peerID tc \<longrightarrow> mem_view m' h' i = mem_view m h' i"
    using bootstrap_reply [OF assms, of now remote own nodes] by auto
  then show ?thesis using assms(7) by (auto simp: dom_def)
qed

lemma peer_found:
  assumes "marshals marshal" and "mem_inv m" and "view_ok mem_view m" and "order_ok c" and "order_ok c'"
    and "announce_url urlParse t" and "client_ok tcA" and "client_ok tcB" and "tc_peerID tcA \<noteq> tc_peerID tcB"
    and "str_ok (tc_peerID tcA)" and "str_ok remoteA" and "is20 h" and "plain_hash h"
    and "bootstrapNetwork urlParse (tracker_get marshal c nowA remoteA) m tcA t h ownA nodesA = (resA, mA)"
    and "bootstrapNetwork urlParse (tracker_get marshal c' nowB remoteB) mA tcB t h ownB nodesB = (resB, mB)"
    and "card (dom (mem_view mB h)) \<le> 50" and "peer_addr tcA remoteA \<noteq> ownB"
  shows "\<exists>nodes. resB = Inr (nodes, nodes) \<and> peer_addr tcA remoteA \<in> set nodes"
proof -
  note A = bootstrap_reply [OF assms(1-4,6,7,12,13), of nowA remoteA ownA nodesA, unfolded assms(14)]
  then have invA: "mem_inv mA" and recA: "mem_view mA h (tc_peerID tcA) = Some (client_record tcA 0 ''started'' remoteA nowA)"
    by blast+
  have okA: "view_ok mem_view mA"
    using bootstrap_view_ok [OF assms(1-4,6,7,12,13,10,11), of nowA ownA nodesA] by (simp add: assms(14))
  obtain ps new where B: "resB = Inr (nodesB @ new, nodesB @ new)"
      "set new = (\<lambda>p. formatAddr (IP p) (Port p)) ` set ps - {ownB}"
      "reply_list (mem_view mB h) 50 (tc_peerID tcB) ps"
      "mem_view mB h (tc_peerID tcA) = mem_view mA h (tc_peerID tcA)"
    using bootstrap_reply [OF assms(1) invA okA assms(5,6,8,12,13), of nowB remoteB ownB nodesB, unfolded assms(15)]
      assms(9,12) by auto
  have "client_record tcA 0 ''started'' remoteA nowA \<in> set ps"
    using B(3,4) recA assms(9,16) unfolding reply_list_def by simp
  then have "peer_addr tcA remoteA \<in> set new"
    unfolding B(2) peer_addr_def using assms(17) by (force simp: client_record_def peer_addr_def)
  with B(1) show ?thesis by auto
qed

text \<open>
  Two peers find each other: when a peer bootstraps and another one bootstraps after it for the
  same torrent at the same tracker, the second one's nodes contain the address of the first, and it dials
  it, provided the torrent has at most fifty peers and the two addresses differ.  This composes the
  client's query, the tracker's handler and storage, the bencoded reply, the decoder and the address
  formatting.
\<close>

theorem peer_discovery:
  assumes "marshals marshal" and "mem_inv m" and "view_ok mem_view m" and "order_ok c" and "order_ok c'"
    and "announce_url urlParse t" and "client_ok tcA" and "client_ok tcB" and "tc_peerID tcA \<noteq> tc_peerID tcB"
    and "str_ok (tc_peerID tcA)" and "str_ok remoteA" and "is20 h" and "plain_hash h"
    and "bootstrapNetwork urlParse (tracker_get marshal c nowA remoteA) m tcA t h ownA nodesA = (resA, mA)"
    and "bootstrapNetwork urlParse (tracker_get marshal c' nowB remoteB) mA tcB t h ownB nodesB = (resB, mB)"
    and "card (dom (mem_view mB h)) \<le> 50" and "peer_addr tcA remoteA \<noteq> ownB"
  shows "\<exists>nodes. resB = Inr (nodes, nodes) \<and> peer_addr tcA remoteA \<in> set nodes"
  using assms by (rule peer_found)

theorem peer_discovery_witness:
  "let get = tracker_get (\<lambda>v. Some (benc v)) key_order;
       mA = snd (bootstrapNetwork sample_parse (get 5 ''10.0.0.1:4000'') NewMemoryStorage (sample_client ''a'')
              ''tracker'' sample_hash '':6881'' []);
       resB = fst (bootstrapNetwork sample_parse (get 9 ''10.0.0.2:4000'') mA (sample_client ''b'')
              ''tracker'' sample_hash '':6881'' [])
   in \<exists>nodes. resB = Inr (nodes, nodes) \<and> formatAddr ''10.0.0.1'' 6881 \<in> set nodes"
proof -
  let ?get = "tracker_get (\<lambda>v. Some (benc v)) key_order"
  let ?A = "bootstrapNetwork sample_parse (?get 5 ''10.0.0.1:4000'') NewMemoryStorage (sample_client ''a'')
              ''tracker'' sample_hash '':6881'' []"
  let ?B = "bootstrapNetwork sample_parse (?get 9 ''10.0.0.2:4000'') (snd ?A) (sample_client ''b'')
              ''tracker'' sample_hash '':6881'' []"
  note keepA = bootstrap_keeps [OF marshals_benc mem_inv_New view_ok_New(1) order_ok_key_order sample_session(1,2,4,5),
      of "''a''" 5 "''10.0.0.1:4000''" "''tracker''" "'':6881''" "[]"]
  have invA: "mem_inv (snd ?A)" and domA: "dom (mem_view (snd ?A) sample_hash) \<subseteq> {''a''}"
    using keepA by (auto simp: dom_def)
  have remote: "str_ok ''10.0.0.1:4000''" "str_ok ''a''" by simp_all
  have okA: "view_ok mem_view (snd ?A)"
    using bootstrap_view_ok [OF marshals_benc mem_inv_New view_ok_New(1) order_ok_key_order sample_session(1,2,4,5),
        of "''a''" "''10.0.0.1:4000''"] remote by (simp add: sample_session(3))
  have "dom (mem_view (snd ?B) sample_hash) \<subseteq> insert ''b'' (dom (mem_view (snd ?A) sample_hash))"
    using bootstrap_keeps [OF marshals_benc invA okA order_ok_key_order sample_session(1,2,4,5),
        of "''b''" 9 "''10.0.0.2:4000''" "''tracker''" "'':6881''" "[]"] by (simp add: sample_session(3))
  with domA have "dom (mem_view (snd ?B) sample_hash) \<subseteq> {''a'', ''b''}" by blast
  then have "card (dom (mem_view (snd ?B) sample_hash)) \<le> card {''a'', ''b''}" by (intro card_mono) auto
  then have card: "card (dom (mem_view (snd ?B) sample_hash)) \<le> 50" by (rule le_trans) simp
  have addr: "peer_addr (sample_client ''a'') ''10.0.0.1:4000'' = formatAddr ''10.0.0.1'' 6881"
    by (simp add: peer_addr_def seen_ip_def split_host_def last_colon_def Let_def sample_client_def NewTrackerClient_def)
  have "peer_addr (sample_client ''a'') ''10.0.0.1:4000'' \<noteq> '':6881''"
    by (simp add: addr formatAddr_def)
  with remote have "\<exists>nodes. fst ?B = Inr (nodes, nodes) \<and> peer_addr (sample_client ''a'') ''10.0.0.1:4000'' \<in> set nodes"
    using peer_discovery [OF marshals_benc mem_inv_New view_ok_New(1) order_ok_key_order order_ok_key_order
        sample_session(1,2) sample_session(2) _ _ _ sample_session(4,5) prod.collapse [symmetric] prod.collapse [symmetric] card]
    by (simp add: sample_session(3))
  then show ?thesis unfolding addr Let_def .
qed

text \<open>
  A bootstrapping server always announces that nothing is left to download: until its next
  announce the tracker counts it among the seeders, even when it has no piece at all.
\<close>

theorem bootstrap_counts_as_seeder:
  assumes "marshals marshal" and "mem_inv m" and "view_ok mem_view m" and "order_ok c" and "announce_url urlParse t"
    and "client_ok tc" and "is20 h" and "plain_hash h"
  shows "tc_peerID tc \<in> seeders_of (mem_view (snd (bootstrapNetwork urlParse (tracker_get marshal c now remote) m tc t h own nodes)) h)"
  using bootstrap_reply [OF assms, of now remote own nodes]
  by (auto simp: seeders_of_def client_record_def)

theorem bootstrap_counts_as_seeder_witness:
  "''p1'' \<in> seeders_of (mem_view (snd (bootstrapNetwork sample_parse (tracker_get (\<lambda>v. Some (benc v)) key_order 5 ''10.0.0.1:4000'')
     NewMemoryStorage (sample_client ''p1'') ''tracker'' sample_hash '':6881'' [])) sample_hash)"
  using bootstrap_counts_as_seeder [OF marshals_benc mem_inv_New view_ok_New(1) order_ok_key_order sample_session(1,2,4,5), of "''p1''"]
  by simp

section \<open>Scraping, end to end\<close>

definition scrape_request :: "id20 \<Rightarrow> string \<Rightarrow> http_request" where
  "scrape_request h remote =
     \<lparr>req_Path = ''/scrape'', req_RawQuery = Values_Encode [(''info_hash'', string_of_bytes h)],
      X_Real_IP = [], X_Forwarded_For = [], RemoteAddr = remote\<rparr>"

lemma Scrape_tracker:
  assumes "urlParse t = Some u"
  shows "Scrape urlParse (tracker_get marshal c now remote) m c' t h =
    (scrape_result c' (GotResponse (handleScrape marshal memory_store m c (scrape_request h remote))), m)"
  by (simp add: Scrape_def assms tracker_get_def NewTracker_def request_of_def scrape_request_def Let_def)

lemma single_enumeration: "distinct xs \<Longrightarrow> set xs = {x} \<Longrightarrow> xs = [x]"
proof (cases xs)
  case (Cons y ys)
  then show "distinct xs \<Longrightarrow> set xs = {x} \<Longrightarrow> xs = [x]" by (cases ys) auto
qed simp

lemma parse_scrape_single:
  assumes "order_ok c" and "\<And>k. fmlookup files k = (if k = key then Some (view_stats v n) else None)"
  shows "parse_scrape c (scrape_node files) =
    Inr \<lparr>sc_Complete = int (card (seeders_of v)), sc_Incomplete = int (card (leechers_of v)), sc_Downloaded = n\<rparr>"
proof -
  have "fmdom files = {|key|}" by (rule fset_eqI) (simp add: fmlookup_dom_iff assms(2))
  then have "distinct (c (fmdom files))" "set (c (fmdom files)) = {key}"
    using assms(1) by (auto simp: order_ok_def)
  then have "c (fmdom files) = [key]" by (rule single_enumeration)
  then show ?thesis
    by (simp add: parse_scrape_def scrape_node_def assms(2) view_stats_def stats_node_def)
qed

text \<open>
  C29.  A scrape makes the whole round trip: for an info hash without percent and plus bytes the client's
  \<open>Scrape\<close> returns the number of peers on record with nothing left, the number of the others and the
  completion count of that torrent, in whatever order the runtime walks the maps, and the tracker's
  storage is unchanged.
\<close>

theorem scrape_round_trip:
  assumes "marshals marshal" and "mem_inv m" and "view_small mem_view m" and "order_ok c" and "order_ok c'"
    and "urlParse t = Some u" and "is20 h" and "plain_hash h" and "str_ok remote"
  shows "Scrape urlParse (tracker_get marshal c now remote) m c' t h =
    (Inr \<lparr>sc_Complete = int (card (seeders_of (mem_view m h))), sc_Incomplete = int (card (leechers_of (mem_view m h))),
          sc_Downloaded = mem_count m h\<rparr>, m)"
proof -
  let ?r = "scrape_request h remote"
  have params: "query_all (ParseQuery (req_RawQuery ?r)) ''info_hash'' = [string_of_bytes h]"
    by (simp add: scrape_request_def query_all_def)
  have "length (QueryEscape s) \<le> 3 * length s" for s
    by (induction s) (auto simp: QueryEscape_def escape_char_def)
  from this [of "string_of_bytes h"] have "length (QueryEscape (string_of_bytes h)) \<le> 60"
    using assms(7) by (simp add: is20_def)
  moreover have "length (QueryEscape ''info_hash'') \<le> 27"
    by (simp add: QueryEscape_def escape_char_def unreserved_def)
  ultimately have "request_ok ?r" using assms(9)
    by (simp add: request_ok_def scrape_request_def Values_Encode_def encode_part_def str_ok_def max_alloc_def)
  then have carries: "carries (handleScrape marshal memory_store m c ?r)
      (scrape_node (foldl (scrape_step memory_store m c) fmempty [string_of_bytes h]))"
    using memory.handleScrape_carries [OF assms(1-3) _ assms(4)] params by metis
  have "fmlookup (foldl (scrape_step memory_store m c) fmempty [string_of_bytes h]) k =
      (if k = string_of_bytes h then Some (view_stats (mem_view m h) (mem_count m h)) else None)" for k
    using memory.scrape_step_view [OF assms(2,4)] decode_plain [OF assms(7,8)] by simp
  from parse_scrape_single [OF assms(5) this] scrape_result_carries [OF carries]
  show ?thesis by (simp add: Scrape_tracker [where urlParse = urlParse and t = t, OF assms(6)])
qed

text \<open>A tracker that knows one seeder and two leechers of the torrent, and one completion.\<close>

definition swarm_peer :: "string \<Rightarrow> int \<Rightarrow> tpeer" where
  "swarm_peer i left = \<lparr>ID = i, IP = ''10.0.0.2'', Port = 6881, Uploaded = 0, Downloaded = 0, Left = left, LastSeen = 0\<rparr>"

definition swarm_memory :: MemoryStorage where
  "swarm_memory = mem_IncrementCompleted (mem_AddPeer (mem_AddPeer (mem_AddPeer NewMemoryStorage
     sample_hash (swarm_peer ''a'' 0)) sample_hash (swarm_peer ''b'' 7)) sample_hash (swarm_peer ''c'' 9)) sample_hash"

lemma swarm_memory_view:
  "mem_view swarm_memory h i = (if h \<noteq> sample_hash then None else if i = ''a'' then Some (swarm_peer i 0)
     else if i = ''b'' then Some (swarm_peer i 7) else if i = ''c'' then Some (swarm_peer i 9) else None)"
  by (auto simp: swarm_memory_def AddPeer_view swarm_peer_def mem_AddPeer_def Let_def NewMemoryStorage_def mem_view_def
      split: option.split)

lemma swarm_memory_facts:
  "mem_inv swarm_memory" "view_small mem_view swarm_memory" "mem_count swarm_memory sample_hash = 1"
  "seeders_of (mem_view swarm_memory sample_hash) = {''a''}"
  "leechers_of (mem_view swarm_memory sample_hash) = {''b'', ''c''}"
proof -
  show "mem_inv swarm_memory"
    unfolding swarm_memory_def by (intro mem_inv_increment mem_inv_AddPeer mem_inv_New)
  have "dom (mem_view swarm_memory h) \<subseteq> {''a'', ''b'', ''c''}" for h
    by (auto simp: swarm_memory_view split: if_splits)
  then have "card (dom (mem_view swarm_memory h)) \<le> card {''a'', ''b'', ''c''}" for h
    by (intro card_mono) simp_all
  then have "card (dom (mem_view swarm_memory h)) \<le> Suc (Suc (Suc 0))" for h by simp
  from le_less_trans [OF this] show "view_small mem_view swarm_memory" by (simp add: view_small_def)
  show "mem_count swarm_memory sample_hash = 1"
    by (simp add: swarm_memory_def) (simp add: mem_count_def completed_of_def NewMemoryStorage_def wrap64_def)
  show "seeders_of (mem_view swarm_memory sample_hash) = {''a''}"
    "leechers_of (mem_view swarm_memory sample_hash) = {''b'', ''c''}"
    by (auto simp: seeders_of_def leechers_of_def swarm_memory_view swarm_peer_def split: if_splits)
qed

theorem scrape_round_trip_witness:
  "fst (Scrape sample_parse (tracker_get (\<lambda>v. Some (benc v)) key_order 5 ''10.0.0.1:4000'') swarm_memory key_order
      ''tracker'' sample_hash) = Inr \<lparr>sc_Complete = 1, sc_Incomplete = 2, sc_Downloaded = 1\<rparr>"
proof -
  have "str_ok ''10.0.0.1:4000''" by simp
  then show ?thesis
    using scrape_round_trip [OF marshals_benc swarm_memory_facts(1,2) order_ok_key_order order_ok_key_order
        sample_parse_def sample_session(4,5)]
    by (simp add: swarm_memory_facts)
qed

section \<open>The statistics a server reports\<close>

lemma downloaded_fold:
  assumes "0 \<le> d" and "d + 1024 * int (length is) < 2 ^ 63"
  shows "foldl (\<lambda>d i. if P i then wrap64 (d + 1024) else d) d is = d + 1024 * int (length (filter P is))"
  using assms
proof (induction "is" arbitrary: d)
  case Nil
  then show ?case by simp
next
  case (Cons i "is")
  then have "wrap64 (d + 1024) = d + 1024" by (intro wrap64_id int64_ok_small) auto
  with Cons show ?case by simp
qed

lemma tracker_stats_range:
  "int64_ok (fst (tracker_stats env ts))" "int64_ok (snd (tracker_stats env ts))"
proof -
  have "int64_ok (foldl (\<lambda>d i. if P i then wrap64 (d + 1024) else d) d is)" if "int64_ok d" for P :: "nat \<Rightarrow> bool" and d "is"
    using that by (induction "is" arbitrary: d) simp_all
  then show "int64_ok (snd (tracker_stats env ts))" by (simp add: tracker_stats_def int64_ok_small)
qed (simp add: tracker_stats_def)

text \<open>
  A server's statistics reach the tracker: after \<open>UpdateTrackerStats\<close> the tracker has on record
  for it the number of missing pieces as what is left, and 1024 bytes for every piece it holds as
  downloaded; as uploaded it has 1024 bytes for every connected peer, whatever was really sent.
\<close>

theorem stats_reported:
  assumes "marshals marshal" and "mem_inv m" and "view_ok mem_view m" and "order_ok c" and "announce_url urlParse t"
    and "client_ok tc" and "is20 h" and "plain_hash h"
    and "swarm_NumPieces (ts_swarm ts) < 2 ^ 50" and "length (Swarm.Peers (peer_ord env) (ts_swarm ts)) < 2 ^ 50"
  shows "\<exists>m' tc' p. UpdateTrackerStats urlParse (tracker_get marshal c now remote) m (Some tc) t h env ts = (Inr (), m', Some tc') \<and>
    mem_view m' h (tc_peerID tc) = Some p \<and> Left p = MissingPiecesCount (ts_swarm ts) \<and>
    Downloaded p = 1024 * int (length (filter (\<lambda>i. swarm_GetPiece (ts_swarm ts) (int i) \<noteq> None)
      [0..<nat (swarm_NumPieces (ts_swarm ts))])) \<and>
    Uploaded p = 1024 * int (length (Swarm.Peers (peer_ord env) (ts_swarm ts)))"
proof -
  obtain up down where stats: "tracker_stats env ts = (up, down)" by fastforce
  let ?tc = "UpdateStats tc up down"
  have tc: "client_ok ?tc" "tc_peerID ?tc = tc_peerID tc"
    using assms(6) tracker_stats_range [of env ts] stats by (simp_all add: client_ok_def UpdateStats_def)
  have left: "int64_ok (announce_left ts)" by (simp add: announce_left_def MissingPiecesCount_def)
  have "37 \<notin> set h" using assms(8) by (simp add: plain_hash_def)
  then obtain res m' where a: "Announce urlParse (tracker_get marshal c now remote) m ?tc t h (announce_left ts) [] = (Inr res, m')"
      "mem_view m' h (tc_peerID tc) = Some (client_record ?tc (announce_left ts) [] remote now)"
    using announce_decoded [OF assms(1-5) tc(1) left assms(7), of "[]" now remote] assms(8) tc(2)
    by (simp only: plus_to_space_plain) auto
  have "UpdateTrackerStats urlParse (tracker_get marshal c now remote) m (Some tc) t h env ts = (Inr (), m', Some ?tc)"
    by (simp add: UpdateTrackerStats_def stats AnnounceToTracker_def a(1) lift_session_def)
  moreover have "up = 1024 * int (length (Swarm.Peers (peer_ord env) (ts_swarm ts)))"
    using stats assms(10) by (simp add: tracker_stats_def int64_ok_small)
  moreover have "down = 1024 * int (length (filter (\<lambda>i. swarm_GetPiece (ts_swarm ts) (int i) \<noteq> None)
      [0..<nat (swarm_NumPieces (ts_swarm ts))]))"
  proof -
    have "0 + 1024 * int (length [0..<nat (swarm_NumPieces (ts_swarm ts))]) < 2 ^ 63" using assms(9) by simp
    from downloaded_fold [OF order_refl this, of "\<lambda>i. swarm_GetPiece (ts_swarm ts) (int i) \<noteq> None"]
    show ?thesis using stats unfolding tracker_stats_def by simp
  qed
  ultimately show ?thesis
    using a(2) by (intro exI [of _ m'] exI [of _ ?tc] exI [of _ "client_record ?tc (announce_left ts) [] remote now"])
      (simp add: client_record_def announce_left_def UpdateStats_def)
qed

theorem stats_reported_witness:
  "\<exists>m' p. mem_view m' sample_hash ''p1'' = Some p \<and> Left p = 2 \<and> Uploaded p = 0 \<and>
     m' = fst (snd (UpdateTrackerStats sample_parse (tracker_get (\<lambda>v. Some (benc v)) key_order 5 ''10.0.0.1:4000'') NewMemoryStorage
       (Some (sample_client ''p1'')) ''tracker'' sample_hash
       \<lparr>peer_ord = [], bitfield_ord = [], coins = (\<lambda>_. False), mkdir_ok = True, write_file_ok = True, write_left = None\<rparr>
       (NewTorrentServer [1] zero20 (NewPieceManager 2) (\<lambda>_. NewTCPPeer True))))"
proof -
  let ?ts = "NewTorrentServer [1] zero20 (NewPieceManager 2) (\<lambda>_. NewTCPPeer True)"
  let ?env = "\<lparr>peer_ord = [], bitfield_ord = [], coins = (\<lambda>_. False), mkdir_ok = True, write_file_ok = True, write_left = None\<rparr>"
  have ts: "swarm_NumPieces (ts_swarm ?ts) = 2" "Swarm.Peers [] (ts_swarm ?ts) = []"
      "MissingPiecesCount (ts_swarm ?ts) = 2"
    by (simp_all add: NewTorrentServer_def NewSwarm_def NewPieceManager_def swarm_NumPieces_def NumPieces_def
        Peers_def List.map_filter_def MissingPiecesCount_def ReceivedCount_def int64_ok_def fcard_def)
  show ?thesis
    using stats_reported [OF marshals_benc mem_inv_New view_ok_New(1) order_ok_key_order sample_session(1,2,4,5),
        of "''p1''" ?ts ?env 5 "''10.0.0.1:4000''" "''tracker''"]
    by (fastforce simp: ts)
qed


section \<open>Peer ids\<close>

text \<open>
  \<open>newPeerId\<close> of \<open>src/torrent_server/server.go\<close>, over the numbers the random source returned; \<open>None\<close> as
  the tail is an error of the source, on which the function panics (\<open>None\<close>).  The server gives the
  tracker client the id in hexadecimal.
\<close>

definition randomLetter :: "nat \<Rightarrow> byte" where
  "randomLetter n = 65 + word_of_nat n"

definition randomDigit :: "nat \<Rightarrow> byte" where
  "randomDigit n = 48 + word_of_nat n"

definition newPeerId :: "nat \<Rightarrow> nat \<Rightarrow> nat \<times> nat \<times> nat \<times> nat \<Rightarrow> bytes option \<Rightarrow> id20 option" where
  "newPeerId l1 l2 ds rand_tail =
     (case (ds, rand_tail) of
        (_, None) \<Rightarrow> None
      | ((d3, d4, d5, d6), Some rest) \<Rightarrow>
          Some ([45, randomLetter l1, randomLetter l2, randomDigit d3, randomDigit d4, randomDigit d5, randomDigit d6, 45]
            @ take 12 rest))"

definition server_client :: "id20 \<Rightarrow> int \<Rightarrow> TrackerClient" where
  "server_client peerID port = NewTrackerClient (hex_encode peerID) port"

lemma newPeerId_is20: "length rest = 12 \<Longrightarrow> newPeerId l1 l2 ds (Some rest) = Some i \<Longrightarrow> is20 i"
  by (auto simp: newPeerId_def is20_def split: prod.splits)

lemma server_client_ok:
  assumes "is20 i" and "int64_ok port"
  shows "client_ok (server_client i port) \<and> length (tc_peerID (server_client i port)) = 40"
proof -
  have "length (hex_encode i) = 40" using assms(1) by (simp add: is20_def)
  moreover then have "hex_encode i \<noteq> []" by (metis list.size(3) zero_neq_numeral)
  ultimately show ?thesis using assms(2)
    by (simp add: client_ok_def server_client_def NewTrackerClient_def int64_ok_small)
qed

end
