(* ===== verification/Server_Life.thy ===== *)
theory Server_Life
  imports Tracker_Session Download_Run
begin

text \<open>
  The life of a torrent server, \<open>src/torrent_server/server.go\<close>, and of its transport,
  \<open>src/p2p/tcp_transport.go\<close>: listening, accepting and dialing, the start-up with the tracker, the loop
  as a whole with the channel that ends it, and \<open>Stop\<close>.  \<open>net.Listen\<close> and \<open>net.Dial\<close> are parameters, what
  \<open>Accept\<close> returns is a list of outcomes, and a goroutine that is started is listed in a result.
\<close>

section \<open>The transport\<close>

record transport =
  listen_addr :: string
  tr_infoHash :: id20
  tr_localID :: id20
  listener :: "(string \<times> int) option"   \<comment> \<open>the address it is bound to, and its port\<close>

text \<open>\<open>generate20ByteID\<close> panics (\<open>None\<close>) when the random source fails.\<close>

definition generate20ByteID :: "bytes option \<Rightarrow> id20 option" where
  "generate20ByteID rand = map_option (take 20) rand"

definition NewTCPTransport :: "string \<Rightarrow> id20 \<Rightarrow> bytes option \<Rightarrow> transport option" where
  "NewTCPTransport addr infoHash rand =
     map_option (\<lambda>i. \<lparr>listen_addr = addr, tr_infoHash = infoHash, tr_localID = i, listener = None\<rparr>)
       (generate20ByteID rand)"

text \<open>Before \<open>ListenAndAccept\<close> the listener is nil.\<close>

definition transport_Addr :: "transport \<Rightarrow> go_panic + string" where
  "transport_Addr t = (case listener t of None \<Rightarrow> Inl NilDereference | Some (a, _) \<Rightarrow> Inr a)"

definition transport_Port :: "transport \<Rightarrow> go_panic + int" where
  "transport_Port t = (case listener t of None \<Rightarrow> Inl NilDereference | Some (_, p) \<Rightarrow> Inr p)"

text \<open>Closing the listener; the error of a second \<open>Close\<close> is ignored by the caller.\<close>

definition transport_Close :: "transport \<Rightarrow> go_panic + unit" where
  "transport_Close t = (case listener t of None \<Rightarrow> Inl NilDereference | Some _ \<Rightarrow> Inr ())"

text \<open>\<open>ListenAndAccept\<close> leaves the accept loop running in a goroutine of its own.\<close>

datatype listen_err = ListenFailed

definition ListenAndAccept :: "(string \<Rightarrow> (string \<times> int) option) \<Rightarrow> transport \<Rightarrow> listen_err + transport" where
  "ListenAndAccept netListen t =
     (case netListen (listen_addr t) of
        None \<Rightarrow> Inl ListenFailed
      | Some bound \<Rightarrow> Inr (t\<lparr>listener := Some bound\<rparr>))"

text \<open>The connections for which \<open>handleConn\<close> is started, inbound, and whether the loop has returned.\<close>

datatype accept_outcome = Accepted nat | AcceptFailed | ListenerClosed

fun acceptLoop :: "accept_outcome list \<Rightarrow> nat list \<times> bool" where
  "acceptLoop [] = ([], False)"
| "acceptLoop (Accepted c # os) = (case acceptLoop os of (cs, returned) \<Rightarrow> (c # cs, returned))"
| "acceptLoop (AcceptFailed # os) = acceptLoop os"
| "acceptLoop (ListenerClosed # os) = ([], True)"

text \<open>\<open>Dial\<close> starts \<open>handleConn\<close> for an outbound connection.\<close>

datatype dial_err = DialFailed

definition Dial :: "(string \<Rightarrow> nat option) \<Rightarrow> string \<Rightarrow> dial_err + nat" where
  "Dial netDial addr = (case netDial addr of None \<Rightarrow> Inl DialFailed | Some c \<Rightarrow> Inr c)"

text \<open>The goroutines of \<open>bootstrapNetwork\<close>: the connections opened, a failed dial is only logged.\<close>

definition dial_all :: "(string \<Rightarrow> nat option) \<Rightarrow> string list \<Rightarrow> nat list" where
  "dial_all netDial addrs =
     List.map_filter (\<lambda>a. case Dial netDial a of Inl _ \<Rightarrow> None | Inr c \<Rightarrow> Some c) addrs"

section \<open>The server\<close>

record node_state =
  nd_peerID :: id20
  nd_trackerUrl :: string
  nd_transport :: transport
  nd_client :: TrackerClient
  nd_bootstrap :: "string list"
  nd_server :: server

text \<open>\<open>NewTorrentServer\<close> with the default transport: two ids are drawn, one for each.\<close>

definition new_node :: "id20 \<Rightarrow> string \<Rightarrow> string \<Rightarrow> id20 \<Rightarrow> bytes option \<Rightarrow> piece_manager \<Rightarrow> heap \<Rightarrow> node_state option" where
  "new_node peerID trackerUrl addr infoHash rand pieceMgr h =
     map_option (\<lambda>t. \<lparr>nd_peerID = peerID, nd_trackerUrl = trackerUrl, nd_transport = t,
         nd_client = server_client peerID 0, nd_bootstrap = [],
         nd_server = NewTorrentServer peerID infoHash pieceMgr h\<rparr>)
       (NewTCPTransport addr infoHash rand)"

text \<open>
  \<open>Start\<close> up to its loop: listen, renew the tracker client with the port, bootstrap.  On success the
  result is the list of the nodes dialed.  The two sleeps of half a second are left out.
\<close>

datatype start_err = StartListen listen_err | StartBootstrap tracker_err

definition Start ::
  "(string \<Rightarrow> (string \<times> int) option) \<Rightarrow> (string \<Rightarrow> url option) \<Rightarrow> ('w \<Rightarrow> url \<Rightarrow> http_result \<times> 'w) \<Rightarrow> 'w \<Rightarrow>
    node_state \<Rightarrow> (start_err fail + string list) \<times> node_state \<times> 'w" where
  "Start netListen urlParse get w nd =
     (case ListenAndAccept netListen (nd_transport nd) of
        Inl e \<Rightarrow> (Inl (Err (StartListen e)), nd, w)
      | Inr t \<Rightarrow>
          (case (transport_Port t, transport_Addr t) of
             (Inr port, Inr own) \<Rightarrow>
               let tc = server_client (nd_peerID nd) port;
                   nd1 = nd\<lparr>nd_transport := t, nd_client := tc\<rparr>;
                   (res, w') = bootstrapNetwork urlParse get w tc (nd_trackerUrl nd) (tr_infoHash t) own (nd_bootstrap nd)
               in (case res of
                     Inl (Err e) \<Rightarrow> (Inl (Err (StartBootstrap e)), nd1, w')
                   | Inl (Panic p) \<Rightarrow> (Inl (Panic p), nd1, w')
                   | Inr (nodes, dials) \<Rightarrow> (Inr dials, nd1\<lparr>nd_bootstrap := nodes\<rparr>, w'))
           | (Inl p, _) \<Rightarrow> (Inl (Panic p), nd\<lparr>nd_transport := t\<rparr>, w)
           | (_, Inl p) \<Rightarrow> (Inl (Panic p), nd\<lparr>nd_transport := t\<rparr>, w)))"

text \<open>\<open>Stop\<close>, with the transport: the channel is closed first.\<close>

definition node_Stop :: "node_state \<Rightarrow> go_panic + node_state" where
  "node_Stop nd =
     bindE (Stop (nd_server nd)) (\<lambda>ts.
     bindE (transport_Close (nd_transport nd)) (\<lambda>_. Inr (nd\<lparr>nd_server := ts\<rparr>)))"

section \<open>The loop\<close>

text \<open>
  What the \<open>select\<close> of the loop picks, and the call of \<open>Stop\<close> by the goroutine that waits for a signal.
  The branch of \<open>quitch\<close> is ready only when the channel is closed.
\<close>

datatype select = Picked step_env loop_event | StopCalled | QuitPicked

datatype loop_state = Running server | Returned server | Crashed go_panic

fun loop :: "select list \<Rightarrow> server \<Rightarrow> effect list \<times> loop_state" where
  "loop [] ts = ([], Running ts)"
| "loop (Picked env ev # es) ts =
     (case loop_step env ev ts of
        Inl p \<Rightarrow> ([], Crashed p)
      | Inr (ts', effs) \<Rightarrow> (case loop es ts' of (effs', r) \<Rightarrow> (effs @ effs', r)))"
| "loop (StopCalled # es) ts = (case Stop ts of Inl p \<Rightarrow> ([], Crashed p) | Inr ts' \<Rightarrow> loop es ts')"
| "loop (QuitPicked # es) ts =
     (if \<not> quit_closed ts then loop es ts
      else (case loop_quit ts of
          (effs, Inl p) \<Rightarrow> (effs, Crashed p)
        | (effs, Inr ts') \<Rightarrow> (effs, Returned ts')))"

section \<open>Accepting\<close>

text \<open>The connections a list of outcomes brings before the listener is closed.\<close>

fun accepted_conns :: "accept_outcome list \<Rightarrow> nat list" where
  "accepted_conns os = List.map_filter (\<lambda>out. case out of Accepted c \<Rightarrow> Some c | _ \<Rightarrow> None)
     (takeWhile (\<lambda>out. out \<noteq> ListenerClosed) os)"

lemma acceptLoop_spec: "acceptLoop os = (accepted_conns os, ListenerClosed \<in> set os)"
  by (induction os rule: acceptLoop.induct) (simp_all add: List.map_filter_simps)

section \<open>The loop refines the step relation\<close>

text \<open>The choking rounds of a run iterate over the states as they are at that moment.\<close>

fun rounds_ok :: "select list \<Rightarrow> server \<Rightarrow> bool" where
  "rounds_ok [] ts \<longleftrightarrow> True"
| "rounds_ok (Picked env ev # es) ts \<longleftrightarrow>
     (case ev of UnchokeTick uenv \<Rightarrow> env_ok uenv (ts_swarm ts) | _ \<Rightarrow> True) \<and>
     (case loop_step env ev ts of Inl _ \<Rightarrow> True | Inr (ts', _) \<Rightarrow> rounds_ok es ts')"
| "rounds_ok (StopCalled # es) ts \<longleftrightarrow> (case Stop ts of Inl _ \<Rightarrow> True | Inr ts' \<Rightarrow> rounds_ok es ts')"
| "rounds_ok (QuitPicked # es) ts \<longleftrightarrow> rounds_ok es ts"

lemma server_run_step: "server_step ts effs ts' \<Longrightarrow> server_run ts effs ts'"
  using server_run.more [OF server_run.start] by simp


lemma server_run_trans:
  assumes "server_run ts' effs' ts''" and "server_run ts effs ts'"
  shows "server_run ts (effs @ effs') ts''"
  using assms
proof (induction rule: server_run.induct)
  case (start ts')
  then show ?case by simp
next
  case (more ts' effs1 ts1 effs2 ts2)
  then have "server_run ts ((effs @ effs1) @ effs2) ts2" using server_run.more by blast
  then show ?case by simp
qed

lemma loop_run:
  assumes "loop es ts = (effs, Running ts')" and "rounds_ok es ts"
  shows "server_run ts effs ts'"
  using assms
proof (induction es ts arbitrary: effs rule: loop.induct)
  case (1 ts)
  then show ?case by (simp add: server_run.start)
next
  case (2 env ev es ts)
  obtain ts1 effs1 where step: "loop_step env ev ts = Inr (ts1, effs1)"
    using 2(2) by (auto split: sum.splits)
  obtain effs2 where rest: "loop es ts1 = (effs2, Running ts')" "effs = effs1 @ effs2"
    using 2(2) step by (auto split: prod.splits)
  have "server_run ts1 effs2 ts'" using 2(1) [OF step refl rest(1)] 2(3) step by simp
  moreover have "server_step ts effs1 ts1"
    using step 2(3) by (intro loop_step_server_step) auto
  ultimately show ?case unfolding rest(2) using server_run_trans server_run_step by blast
next
  case (3 es ts)
  obtain ts1 where stop: "Stop ts = Inr ts1" using 3(2) by (auto split: sum.splits)
  then have "server_run ts1 effs ts'" using 3 by auto
  from server_run_trans [OF this server_run_step [OF server_step.stop [OF stop]]] show ?case by simp
next
  case (4 es ts)
  then show ?case by (auto simp: loop_quit_def split: if_splits sum.splits)
qed

lemma loop_step_total:
  assumes "pieces_ok (numPieces (ts_pieces ts))"
  shows "\<exists>ts' effs. loop_step env ev ts = Inr (ts', effs)"
  using assms dispatch_ok by (cases ev) (simp_all add: loop_step_def)

lemma loop_step_numPieces:
  assumes "loop_step env ev ts = Inr (ts', effs)"
  shows "numPieces (ts_pieces ts') = numPieces (ts_pieces ts)"
proof (cases ev)
  case (Received rpc)
  with assms have "pieces_step ts effs ts'" by (simp add: loop_step_def dispatch_pieces_step)
  then show ?thesis using offers_frame by (auto simp: pieces_step_def)
next
  case (UnchokeTick uenv)
  with assms show ?thesis
    by (auto simp: loop_step_def runUnchokeRound_def RunUnchoke_unfold Let_def split: prod.splits)
qed (use assms in \<open>simp add: loop_step_def\<close>)

text \<open>A crash of the loop is the second close of the channel; it never just returns.\<close>

lemma loop_outcome:
  assumes "loop es ts = (effs, r)" and "pieces_ok (numPieces (ts_pieces ts))"
  shows "(\<exists>ts'. r = Running ts') \<or> r = Crashed CloseClosedChannel"
  using assms
proof (induction es ts arbitrary: effs rule: loop.induct)
  case (2 env ev es ts)
  obtain ts1 effs1 where step: "loop_step env ev ts = Inr (ts1, effs1)"
    using loop_step_total [OF 2(3)] by blast
  then obtain effs2 where "loop es ts1 = (effs2, r)" using 2(2) by (auto split: prod.splits)
  then show ?case using 2(1) [OF step refl] 2(3) loop_step_numPieces [OF step] by simp
next
  case (3 es ts)
  show ?case
  proof (cases "Stop ts")
    case (Inl p)
    then show ?thesis using 3(2) by (auto simp: Stop_def split: if_splits)
  next
    case (Inr ts1)
    then have "ts_pieces ts1 = ts_pieces ts" by (auto simp: Stop_def split: if_splits)
    with 3 Inr show ?thesis by simp
  qed
qed (auto simp: loop_quit_def Stop_def split: if_splits)

section \<open>Starting\<close>

lemma dial_all_member: "a \<in> set addrs \<Longrightarrow> netDial a = Some c \<Longrightarrow> c \<in> set (dial_all netDial addrs)"
  by (induction addrs) (auto simp: dial_all_def Dial_def List.map_filter_simps split: option.split)

lemma Start_bootstraps:
  assumes "netListen (listen_addr (nd_transport nd)) = Some (own, port)"
    and "bootstrapNetwork urlParse get w (server_client (nd_peerID nd) port) (nd_trackerUrl nd)
      (tr_infoHash (nd_transport nd)) own (nd_bootstrap nd) = (res, w')"
  shows "Start netListen urlParse get w nd =
    (let nd1 = nd\<lparr>nd_transport := (nd_transport nd)\<lparr>listener := Some (own, port)\<rparr>,
               nd_client := server_client (nd_peerID nd) port\<rparr>
     in case res of
          Inl (Err e) \<Rightarrow> (Inl (Err (StartBootstrap e)), nd1, w')
        | Inl (Panic p) \<Rightarrow> (Inl (Panic p), nd1, w')
        | Inr (nodes, dials) \<Rightarrow> (Inr dials, nd1\<lparr>nd_bootstrap := nodes\<rparr>, w'))"
  using assms
  by (simp add: Start_def ListenAndAccept_def transport_Port_def transport_Addr_def Let_def
      split: sum.split fail.split prod.split)

lemma new_node_fields:
  assumes "new_node peerID t addr h rand mgr heap = Some nd"
  shows "nd_peerID nd = peerID" "nd_trackerUrl nd = t" "listen_addr (nd_transport nd) = addr"
    "tr_infoHash (nd_transport nd) = h" "nd_bootstrap nd = []" "listener (nd_transport nd) = None"
    "nd_server nd = NewTorrentServer peerID h mgr heap"
  using assms by (auto simp: new_node_def NewTCPTransport_def)

text \<open>A start against a tracker whose bootstrap is known.\<close>

lemma Start_new:
  assumes "new_node peerID t addr h rand mgr heap = Some nd" and "netListen addr = Some (own, port)"
    and "Start netListen urlParse get w nd = (res, nd', w')"
  obtains bres where "bootstrapNetwork urlParse get w (server_client peerID port) t h own [] = (bres, w')"
    and "\<And>nodes dials. bres = Inr (nodes, dials) \<Longrightarrow> res = Inr dials \<and> nd_bootstrap nd' = nodes \<and>
      nd_client nd' = server_client peerID port \<and> nd_server nd' = nd_server nd"
proof -
  note nd = new_node_fields [OF assms(1)]
  obtain bres w1 where boot: "bootstrapNetwork urlParse get w (server_client peerID port) t h own [] = (bres, w1)"
    by fastforce
  from Start_bootstraps [of netListen nd own port urlParse get w bres w1] assms(2,3) boot
  have start: "(let nd1 = nd\<lparr>nd_transport := (nd_transport nd)\<lparr>listener := Some (own, port)\<rparr>,
               nd_client := server_client (nd_peerID nd) port\<rparr>
     in case bres of
          Inl (Err e) \<Rightarrow> (Inl (Err (StartBootstrap e)), nd1, w1)
        | Inl (Panic p) \<Rightarrow> (Inl (Panic p), nd1, w1)
        | Inr (nodes, dials) \<Rightarrow> (Inr dials, nd1\<lparr>nd_bootstrap := nodes\<rparr>, w1)) = (res, nd', w')"
    by (simp add: nd)
  then have "w1 = w'" by (auto simp: Let_def split: sum.splits fail.splits prod.splits)
  moreover have "res = Inr dials \<and> nd_bootstrap nd' = nodes \<and>
      nd_client nd' = server_client peerID port \<and> nd_server nd' = nd_server nd"
    if "bres = Inr (nodes, dials)" for nodes dials
    using start that by (auto simp: Let_def nd(1))
  ultimately show thesis using that boot by blast
qed

section \<open>Properties\<close>

text \<open>A start at a tracker in memory always succeeds; what it leaves behind.\<close>

lemma start_announced:
  assumes "marshals marshal" and "mem_inv m" and "view_ok mem_view m" and "order_ok c" and "announce_url urlParse t"
    and "is20 i" and "int64_ok port" and "is20 h" and "plain_hash h" and "str_ok remote"
    and "new_node i t addr h rand mgr heap = Some nd" and "netListen addr = Some (own, port)"
    and "Start netListen urlParse (tracker_get marshal c now remote) m nd = (res, nd', m')"
  shows "\<exists>dials. res = Inr dials \<and> nd_server nd' = NewTorrentServer i h mgr heap" and "mem_inv m'"
    and "view_ok mem_view m'" and "dom (mem_view m' h) \<subseteq> insert (hex_encode i) (dom (mem_view m h))"
proof -
  let ?tc = "server_client i port"
  obtain bres where boot: "bootstrapNetwork urlParse (tracker_get marshal c now remote) m ?tc t h own [] = (bres, m')"
    and bres: "\<And>nodes dials. bres = Inr (nodes, dials) \<Longrightarrow> res = Inr dials \<and> nd_bootstrap nd' = nodes \<and>
      nd_client nd' = ?tc \<and> nd_server nd' = nd_server nd"
    using assms(11-13) by (rule Start_new) blast
  have ok: "client_ok ?tc" "length (tc_peerID ?tc) = 40" using server_client_ok [OF assms(6,7)] by simp_all
  then have s: "str_ok (tc_peerID ?tc)" by (simp add: str_ok_def max_alloc_def)
  note args = assms(1-5) ok(1) assms(8,9)
  obtain new where "bres = Inr (new, new)" using bootstrap_reply [OF args, of now remote own "[]"] boot by auto
  with bres show "\<exists>dials. res = Inr dials \<and> nd_server nd' = NewTorrentServer i h mgr heap"
    using new_node_fields(7) [OF assms(11)] by simp
  show "view_ok mem_view m'" using bootstrap_view_ok [OF args s assms(10), of now own "[]"] boot by simp
  from bootstrap_keeps [OF args, of now remote own "[]"] boot
  show "mem_inv m'" and "dom (mem_view m' h) \<subseteq> insert (hex_encode i) (dom (mem_view m h))"
    by (simp_all add: server_client_def NewTrackerClient_def)
qed

text \<open>Two starts, in the form the whole download uses.\<close>

lemma start_finds:
  assumes "marshals marshal" and "mem_inv m" and "view_ok mem_view m" and "order_ok c" and "order_ok c'"
    and "announce_url urlParse t" and "is20 idA" and "is20 idB" and "idA \<noteq> idB" and "int64_ok portA" and "int64_ok portB"
    and "str_ok remoteA" and "is20 h" and "plain_hash h"
    and "new_node idA t addrA h randA mgrA heapA = Some ndA" and "new_node idB t addrB h randB mgrB heapB = Some ndB"
    and "listenA addrA = Some (ownA, portA)" and "listenB addrB = Some (ownB, portB)"
    and "Start listenA urlParse (tracker_get marshal c nowA remoteA) m ndA = (resA, ndA', mA)"
    and "Start listenB urlParse (tracker_get marshal c' nowB remoteB) mA ndB = (resB, ndB', mB)"
    and "card (dom (mem_view mB h)) \<le> 50" and "formatAddr (seen_ip remoteA) portA \<noteq> ownB"
  shows "\<exists>dials. resB = Inr dials \<and> nd_bootstrap ndB' = dials \<and> nd_client ndB' = server_client idB portB \<and>
    formatAddr (seen_ip remoteA) portA \<in> set dials \<and>
    (\<forall>conn. netDial (formatAddr (seen_ip remoteA) portA) = Some conn \<longrightarrow> conn \<in> set (dial_all netDial dials))"
proof -
  obtain bresA where A: "bootstrapNetwork urlParse (tracker_get marshal c nowA remoteA) m (server_client idA portA) t h ownA [] = (bresA, mA)"
    using assms(15,17,19) by (rule Start_new) blast
  obtain bresB where B: "bootstrapNetwork urlParse (tracker_get marshal c' nowB remoteB) mA (server_client idB portB) t h ownB [] = (bresB, mB)"
    and Bres: "\<And>nodes dials. bresB = Inr (nodes, dials) \<Longrightarrow> resB = Inr dials \<and> nd_bootstrap ndB' = nodes \<and>
      nd_client ndB' = server_client idB portB \<and> nd_server ndB' = nd_server ndB"
    using assms(16,18,20) by (rule Start_new) blast
  have "client_ok (server_client idA portA)" "client_ok (server_client idB portB)" and len: "length (tc_peerID (server_client idA portA)) = 40"
    using server_client_ok assms(7,8,10,11) by blast+
  moreover have "str_ok (tc_peerID (server_client idA portA))" using len by (simp add: str_ok_def max_alloc_def)
  moreover have "tc_peerID (server_client idA portA) \<noteq> tc_peerID (server_client idB portB)"
    using assms(9) hex_decode_encode by (metis NewTrackerClient_def Inr_inject TrackerClient.select_convs(1) server_client_def)
  moreover have addr: "peer_addr (server_client idA portA) remoteA = formatAddr (seen_ip remoteA) portA"
    by (simp add: peer_addr_def server_client_def NewTrackerClient_def)
  ultimately obtain nodes where "bresB = Inr (nodes, nodes)" "formatAddr (seen_ip remoteA) portA \<in> set nodes"
    using peer_found [OF assms(1-6) _ _ _ _ assms(12-14) A B assms(21)] assms(22) by auto
  moreover then have "\<forall>conn. netDial (formatAddr (seen_ip remoteA) portA) = Some conn \<longrightarrow> conn \<in> set (dial_all netDial nodes)"
    using dial_all_member by blast
  ultimately show ?thesis using Bres by blast
qed

text \<open>
  C8.  Two servers with different ids that start one after the other at the same tracker find each other,
  under three conditions: the info hash has no percent and no plus byte (the tracker refuses a hash with
  the former and files one with the latter under another hash, see \<open>announce_hash_corrupted\<close>), the torrent
  then has at most fifty peers on record (more are not returned), and the address of the first server is
  not what the second one's own listener reports.  Then the second one's start succeeds and dials the
  address of the first, made of the host the tracker saw and the port the first one's listener was bound
  to, whatever port it had asked for.
\<close>

theorem start_discovers:
  assumes "marshals marshal" and "mem_inv m" and "view_ok mem_view m" and "order_ok c" and "order_ok c'"
    and "announce_url urlParse t" and "is20 idA" and "is20 idB" and "idA \<noteq> idB" and "int64_ok portA" and "int64_ok portB"
    and "str_ok remoteA" and "is20 h" and "plain_hash h"
    and "new_node idA t addrA h randA mgrA heapA = Some ndA" and "new_node idB t addrB h randB mgrB heapB = Some ndB"
    and "listenA addrA = Some (ownA, portA)" and "listenB addrB = Some (ownB, portB)"
    and "Start listenA urlParse (tracker_get marshal c nowA remoteA) m ndA = (resA, ndA', mA)"
    and "Start listenB urlParse (tracker_get marshal c' nowB remoteB) mA ndB = (resB, ndB', mB)"
    and "card (dom (mem_view mB h)) \<le> 50" and "formatAddr (seen_ip remoteA) portA \<noteq> ownB"
  shows "\<exists>dials. resB = Inr dials \<and> nd_bootstrap ndB' = dials \<and> nd_client ndB' = server_client idB portB \<and>
    formatAddr (seen_ip remoteA) portA \<in> set dials \<and>
    (\<forall>conn. netDial (formatAddr (seen_ip remoteA) portA) = Some conn \<longrightarrow> conn \<in> set (dial_all netDial dials))"
  by (rule start_finds [OF assms])

definition sample_node :: "id20 \<Rightarrow> node_state option" where
  "sample_node i = new_node i ''tracker'' ''0.0.0.0:0'' sample_hash (Some (replicate 20 5)) (NewPieceManager 1) (\<lambda>_. NewTCPPeer True)"

definition sample_get :: "int \<Rightarrow> string \<Rightarrow> MemoryStorage \<Rightarrow> url \<Rightarrow> http_result \<times> MemoryStorage" where
  "sample_get = tracker_get (\<lambda>v. Some (benc v)) key_order"

text \<open>One start at the tracker of the example: what it keeps, and whom it adds.\<close>

lemma sample_start:
  assumes "sample_node i = Some nd" and "Start (\<lambda>_. Some (''0.0.0.0:6881'', 6881)) sample_parse (sample_get now remote) m nd = (res, nd', m')"
    and "is20 i" and "str_ok remote" and "mem_inv m" and "view_ok mem_view m"
  shows "mem_inv m'" and "view_ok mem_view m'" and "dom (mem_view m' sample_hash) \<subseteq> insert (hex_encode i) (dom (mem_view m sample_hash))"
  using start_announced [OF marshals_benc assms(5,6) order_ok_key_order sample_session(1) assms(3) sample_session(7,4,5) assms(4)
      assms(1) [unfolded sample_node_def] refl assms(2) [unfolded sample_get_def]] by simp_all

theorem start_discovers_witness:
  "\<exists>ndA ndB mA dials. sample_node (replicate 20 1) = Some ndA \<and> sample_node (replicate 20 2) = Some ndB \<and>
     mA = snd (snd (Start (\<lambda>_. Some (''0.0.0.0:6881'', 6881)) sample_parse (sample_get 5 ''10.0.0.1:4000'') NewMemoryStorage ndA)) \<and>
     fst (Start (\<lambda>_. Some (''0.0.0.0:6881'', 6881)) sample_parse (sample_get 9 ''10.0.0.2:4000'') mA ndB) = Inr dials \<and>
     formatAddr ''10.0.0.1'' 6881 \<in> set dials"
proof -
  let ?listen = "\<lambda>_ :: string. Some (''0.0.0.0:6881'', 6881 :: int)"
  let ?a = "replicate 20 (1 :: byte)" and ?b = "replicate 20 (2 :: byte)"
  obtain ndA ndB where nd: "sample_node ?a = Some ndA" "sample_node ?b = Some ndB"
    by (auto simp: sample_node_def new_node_def NewTCPTransport_def generate20ByteID_def)
  obtain resA ndA' mA where A: "Start ?listen sample_parse (sample_get 5 ''10.0.0.1:4000'') NewMemoryStorage ndA = (resA, ndA', mA)"
    by (metis prod_cases3)
  obtain resB ndB' mB where B: "Start ?listen sample_parse (sample_get 9 ''10.0.0.2:4000'') mA ndB = (resB, ndB', mB)"
    by (metis prod_cases3)
  have ids: "is20 ?a" "is20 ?b" "?a \<noteq> ?b" by (simp_all add: is20_def)
  have remote: "str_ok ''10.0.0.1:4000''" "str_ok ''10.0.0.2:4000''" by simp_all
  note keepA = sample_start [OF nd(1) A ids(1) remote(1) mem_inv_New view_ok_New(1)]
  note keepB = sample_start [OF nd(2) B ids(2) remote(2) keepA(1,2)]
  have "dom (mem_view NewMemoryStorage sample_hash) = {}" by (auto simp: dom_def)
  then have "dom (mem_view mB sample_hash) \<subseteq> {hex_encode ?a, hex_encode ?b}"
    using keepA(3) keepB(3) by blast
  then have "card (dom (mem_view mB sample_hash)) \<le> card {hex_encode ?a, hex_encode ?b}" by (intro card_mono) auto
  also have "\<dots> \<le> 2" by (rule order_trans [OF card_insert_le_m1 [of 2]]) simp_all
  finally have card: "card (dom (mem_view mB sample_hash)) \<le> 50" by simp
  have ip: "seen_ip ''10.0.0.1:4000'' = ''10.0.0.1''"
    by (simp add: seen_ip_def split_host_def last_colon_def Let_def)
  then have "formatAddr (seen_ip ''10.0.0.1:4000'') 6881 \<noteq> ''0.0.0.0:6881''" by (simp add: formatAddr_def)
  then obtain dials where "resB = Inr dials" "formatAddr ''10.0.0.1'' 6881 \<in> set dials"
    using start_discovers [OF marshals_benc mem_inv_New view_ok_New(1) order_ok_key_order order_ok_key_order sample_session(1)
        ids sample_session(7,7) remote(1) sample_session(4,5) nd [unfolded sample_node_def] refl refl
        A [unfolded sample_get_def] B [unfolded sample_get_def] card] unfolding ip by blast
  with nd A B show ?thesis by (intro exI [of _ ndA] exI [of _ ndB] exI [of _ mA] exI [of _ dials]) simp
qed

text \<open>
  The loop survives every message, tick and choking round, but it cannot end well: for a piece count
  that fits the allocations it either still runs or, after its last announce, the process has crashed
  with the second close of the channel.  It never returns.  (The announce is an effect here, one that
  comes back; that reading its reply can panic is a matter of the process.)
\<close>

theorem loop_never_returns:
  assumes "pieces_ok (numPieces (ts_pieces ts))"
  shows "snd (loop es ts) \<in> {Crashed CloseClosedChannel} \<union> range Running \<and>
    (quit_closed ts \<longrightarrow> loop (QuitPicked # es) ts = ([AnnounceNow ''stopped''], Crashed CloseClosedChannel))"
proof
  obtain effs r where run: "loop es ts = (effs, r)" by fastforce
  from loop_outcome [OF this assms] run
  show "snd (loop es ts) \<in> {Crashed CloseClosedChannel} \<union> range Running" by auto
qed (simp add: loop_quit_def Stop_def)

theorem loop_never_returns_witness:
  "snd (loop [Picked example_step (Received (rpc_from [1] [] [4, 0])), StopCalled, QuitPicked] example_server) =
     Crashed CloseClosedChannel"
proof -
  let ?es = "[Picked example_step (Received (rpc_from [1] [] [4, 0])), StopCalled, QuitPicked]"
  have "pieces_ok (numPieces (ts_pieces example_server))"
    by (simp add: example_server_simps pieces_ok_def max_alloc_def)
  from loop_never_returns [OF this, of ?es]
  have "snd (loop ?es example_server) \<in> {Crashed CloseClosedChannel} \<union> range Running" by blast
  moreover have "snd (loop ?es example_server) \<noteq> Running ts'" for ts'
    by (auto simp: loop_step_def Stop_def loop_quit_def split: sum.splits prod.splits)
  ultimately show ?thesis by blast
qed

text \<open>
  The accept loop hands every connection that arrives before the listener is closed to \<open>handleConn\<close>,
  once and in order; other errors of \<open>Accept\<close> lose nothing, and only the closed listener ends it.
\<close>

theorem acceptLoop_hands_over:
  "acceptLoop os = (accepted_conns os, ListenerClosed \<in> set os)"
  by (rule acceptLoop_spec)

text \<open>
  A start that fails does not dial anyone, and leaves the peer list empty; after a failed announce the
  listener stays open, and \<open>Stop\<close> before a successful listen is a nil dereference.
\<close>

theorem start_failure:
  assumes "new_node peerID t addr h rand mgr heap = Some nd"
    and "Start netListen urlParse get w nd = (Inl (Err e), nd', w')"
  shows "nd_bootstrap nd' = [] \<and> nd_server nd' = nd_server nd \<and>
    (case e of StartListen _ \<Rightarrow> netListen addr = None \<and> w' = w \<and> nd' = nd \<and> node_Stop nd' = Inl NilDereference
     | StartBootstrap _ \<Rightarrow> listener (nd_transport nd') = netListen addr \<and> netListen addr \<noteq> None)"
proof -
  note nd = new_node_fields [OF assms(1)]
  have "node_Stop nd = Inl NilDereference"
    by (simp add: node_Stop_def Stop_def transport_Close_def nd NewTorrentServer_def)
  then show ?thesis
    using assms(2) nd
    by (cases "netListen addr")
      (auto simp: Start_def ListenAndAccept_def transport_Port_def transport_Addr_def Let_def
        split: sum.splits fail.splits prod.splits)
qed

theorem start_failure_witness:
  "\<exists>nd. new_node (replicate 20 1) ''tracker'' '':1'' zero20 (Some (replicate 20 5)) (NewPieceManager 1) (\<lambda>_. NewTCPPeer True) = Some nd \<and>
     Start (\<lambda>_. None) sample_parse (\<lambda>w u. (GetFailed, w)) () nd = (Inl (Err (StartListen ListenFailed)), nd, ()) \<and>
     node_Stop nd = Inl NilDereference"
proof -
  obtain nd where nd: "new_node (replicate 20 1) ''tracker'' '':1'' zero20 (Some (replicate 20 5)) (NewPieceManager 1)
      (\<lambda>_. NewTCPPeer True) = Some nd"
    by (auto simp: new_node_def NewTCPTransport_def generate20ByteID_def)
  moreover have run: "Start (\<lambda>_. None) sample_parse (\<lambda>w u. (GetFailed, w)) () nd = (Inl (Err (StartListen ListenFailed)), nd, ())"
    by (simp add: Start_def ListenAndAccept_def)
  ultimately show ?thesis using start_failure [OF nd run] by auto
qed

end
