(* ===== verification/Redis_Storage.thy ===== *)
theory Redis_Storage
  imports Memory_Storage Go_Text
begin

text \<open>
  The Redis storage, \<open>src/tracker/redis_storage.go\<close>.  The Redis server and its client library are not
  part of the repository: the record \<open>redis\<close> holds the commands the storage issues, over a state
  \<open>'r\<close> of the server, and is a parameter of every definition.  A command fails or succeeds; what the
  server is free to choose (which random members, in which order, in which pages) depends on an argument
  of type \<open>'o\<close>.  The documented meaning of the commands is the predicate \<open>redis_ok\<close>, over the hashes
  and the sets the server holds.
\<close>

section \<open>The commands\<close>

datatype redis_cmd =
    HSet string "(string \<times> string) list"
  | SAdd string string
  | Expire string int
  | Del string
  | SRem string string
  | HIncrBy string string int

datatype hget_result = HGetError | HGetNil | HGetValue string

text \<open>\<open>Exec\<close> runs a pipeline, or a single command, and tells whether it failed.\<close>

record ('r, 'o) redis =
  Exec :: "'r \<Rightarrow> redis_cmd list \<Rightarrow> bool \<times> 'r"
  HGetAll :: "'r \<Rightarrow> string \<Rightarrow> (string, string) fmap option"
  HGet :: "'r \<Rightarrow> string \<Rightarrow> string \<Rightarrow> hget_result"
  SRandMemberN :: "'r \<Rightarrow> 'o \<Rightarrow> string \<Rightarrow> int \<Rightarrow> string list option"
  SMembers :: "'r \<Rightarrow> 'o \<Rightarrow> string \<Rightarrow> string list option"
  Scan :: "'r \<Rightarrow> 'o \<Rightarrow> nat \<Rightarrow> string \<Rightarrow> (string list \<times> nat) option"
  redis_Close :: "'r \<Rightarrow> bool \<times> 'r"

definition cmd_error :: "bool \<times> 'r \<Rightarrow> store_err option \<times> 'r" where
  "cmd_error res = (if fst res then Some BackendError else None, snd res)"

section \<open>Operations\<close>

definition peerKey :: "string \<Rightarrow> string" where
  "peerKey peerID = ''peer:'' @ peerID"

definition torrentPeersKey :: "id20 \<Rightarrow> string" where
  "torrentPeersKey h = ''torrent:'' @ hex_encode h @ '':peers''"

definition torrentStatsKey :: "id20 \<Rightarrow> string" where
  "torrentStatsKey h = ''torrent:'' @ hex_encode h @ '':stats''"

text \<open>\<open>time.Time.Unix\<close> and \<open>time.Unix\<close>, for times in nanoseconds.\<close>

definition unix_secs :: "int \<Rightarrow> int" where
  "unix_secs t = t div 10 ^ 9"

definition from_unix :: "int \<Rightarrow> int" where
  "from_unix s = s * 10 ^ 9"

definition peer_fields :: "tpeer \<Rightarrow> (string \<times> string) list" where
  "peer_fields p =
     [(''ip'', IP p), (''port'', itoa (Port p)), (''uploaded'', itoa (Uploaded p)),
      (''downloaded'', itoa (Downloaded p)), (''left'', itoa (Left p)),
      (''last_seen'', itoa (unix_secs (LastSeen p)))]"

definition minutes :: "int \<Rightarrow> int" where
  "minutes n = n * 60 * 10 ^ 9"

definition red_AddPeer :: "('r, 'o) redis \<Rightarrow> 'r \<Rightarrow> id20 \<Rightarrow> tpeer \<Rightarrow> store_err option \<times> 'r" where
  "red_AddPeer R s h p =
     cmd_error (Exec R s
       [HSet (peerKey (ID p)) (peer_fields p), SAdd (torrentPeersKey h) (ID p),
        Expire (peerKey (ID p)) (minutes 30), Expire (torrentPeersKey h) (minutes 120)])"

definition red_RemovePeer :: "('r, 'o) redis \<Rightarrow> 'r \<Rightarrow> id20 \<Rightarrow> string \<Rightarrow> store_err option \<times> 'r" where
  "red_RemovePeer R s h peerID =
     cmd_error (Exec R s [Del (peerKey peerID), SRem (torrentPeersKey h) peerID])"

text \<open>A field that is not there reads as the empty string, whose number is zero.\<close>

definition field :: "(string, string) fmap \<Rightarrow> string \<Rightarrow> string" where
  "field d k = (case fmlookup d k of None \<Rightarrow> [] | Some v \<Rightarrow> v)"

definition red_GetPeer :: "('r, 'o) redis \<Rightarrow> 'r \<Rightarrow> string \<Rightarrow> store_err + tpeer" where
  "red_GetPeer R s peerID =
     (case HGetAll R s (peerKey peerID) of
        None \<Rightarrow> Inl BackendError
      | Some result \<Rightarrow>
          if fmdom result = {||} then Inl (PeerNotFound peerID)
          else Inr \<lparr>ID = peerID, IP = field result ''ip'', Port = fst (Atoi (field result ''port'')),
                    Uploaded = fst (ParseInt (field result ''uploaded'')),
                    Downloaded = fst (ParseInt (field result ''downloaded'')),
                    Left = fst (ParseInt (field result ''left'')),
                    LastSeen = from_unix (fst (ParseInt (field result ''last_seen'')))\<rparr>)"

text \<open>The peers that can be read; the others are skipped.\<close>

definition read_peer :: "('r, 'o) redis \<Rightarrow> 'r \<Rightarrow> string \<Rightarrow> tpeer option" where
  "read_peer R s i = (case red_GetPeer R s i of Inl _ \<Rightarrow> None | Inr p \<Rightarrow> Some p)"

definition red_GetPeers :: "('r, 'o) redis \<Rightarrow> 'r \<Rightarrow> 'o \<Rightarrow> id20 \<Rightarrow> int \<Rightarrow> store_err + tpeer list" where
  "red_GetPeers R s c h maxPeers =
     (case SRandMemberN R s c (torrentPeersKey h) maxPeers of
        None \<Rightarrow> Inl BackendError
      | Some peerIDs \<Rightarrow> Inr (List.map_filter (read_peer R s) peerIDs))"

definition take_where :: "(tpeer \<Rightarrow> bool) \<Rightarrow> int \<Rightarrow> tpeer list \<Rightarrow> tpeer list" where
  "take_where P maxPeers ps =
     fst (foldl (\<lambda>(acc, n) p. if P p \<and> n < maxPeers then (acc @ [p], n + 1) else (acc, n)) ([], 0 :: int) ps)"

definition red_GetSeeders :: "('r, 'o) redis \<Rightarrow> 'r \<Rightarrow> 'o \<Rightarrow> id20 \<Rightarrow> int \<Rightarrow> store_err + tpeer list" where
  "red_GetSeeders R s c h maxPeers =
     bindE (red_GetPeers R s c h (wrap64 (maxPeers * 2))) (\<lambda>ps. Inr (take_where (\<lambda>p. Left p = 0) maxPeers ps))"

definition red_GetLeechers :: "('r, 'o) redis \<Rightarrow> 'r \<Rightarrow> 'o \<Rightarrow> id20 \<Rightarrow> int \<Rightarrow> store_err + tpeer list" where
  "red_GetLeechers R s c h maxPeers =
     bindE (red_GetPeers R s c h (wrap64 (maxPeers * 2))) (\<lambda>ps. Inr (take_where (\<lambda>p. Left p > 0) maxPeers ps))"

definition red_stats_step :: "('r, 'o) redis \<Rightarrow> 'r \<Rightarrow> string list \<times> string list \<Rightarrow> string \<Rightarrow> string list \<times> string list" where
  "red_stats_step R s acc i =
     (case read_peer R s i of
        None \<Rightarrow> acc
      | Some p \<Rightarrow> if Left p = 0 then (fst acc @ [i], snd acc) else (fst acc, snd acc @ [i]))"

definition red_GetTorrentStats :: "('r, 'o) redis \<Rightarrow> 'r \<Rightarrow> 'o \<Rightarrow> id20 \<Rightarrow> store_err + TorrentInfo" where
  "red_GetTorrentStats R s c h =
     (case SMembers R s c (torrentPeersKey h) of
        None \<Rightarrow> Inl BackendError
      | Some peerIDs \<Rightarrow>
          let (seeders, leechers) = foldl (red_stats_step R s) ([], []) peerIDs in
          (case HGet R s (torrentStatsKey h) ''completed'' of
             HGetError \<Rightarrow> Inl BackendError
           | HGetNil \<Rightarrow> Inr \<lparr>InfoHash = h, Seeders = seeders, Leechers = leechers, Completed = 0\<rparr>
           | HGetValue v \<Rightarrow>
               Inr \<lparr>InfoHash = h, Seeders = seeders, Leechers = leechers,
                    Completed = (if v \<noteq> [] then fst (Atoi v) else 0)\<rparr>))"

definition red_IncrementCompleted :: "('r, 'o) redis \<Rightarrow> 'r \<Rightarrow> id20 \<Rightarrow> store_err option \<times> 'r" where
  "red_IncrementCompleted R s h = cmd_error (Exec R s [HIncrBy (torrentStatsKey h) ''completed'' 1])"

definition red_UpdatePeerLastSeen :: "('r, 'o) redis \<Rightarrow> 'r \<Rightarrow> int \<Rightarrow> string \<Rightarrow> store_err option \<times> 'r" where
  "red_UpdatePeerLastSeen R s now peerID =
     cmd_error (Exec R s [HSet (peerKey peerID) [(''last_seen'', itoa (unix_secs now))]])"

text \<open>
  The scan loops follow the server's cursor until it is zero again; whether they end is up to the server,
  so they are partial functions: \<open>None\<close> is a loop that never ends.  \<open>scanKeys\<close> keeps what it has on an
  error.
\<close>

partial_function (option) scan_loop ::
  "('r, 'o) redis \<Rightarrow> 'r \<Rightarrow> 'o \<Rightarrow> string \<Rightarrow> nat \<Rightarrow> string list \<Rightarrow> string list option" where
  "scan_loop R s c pattern cursor keys =
     (case Scan R s c cursor pattern of
        None \<Rightarrow> Some keys
      | Some (batch, nextCursor) \<Rightarrow>
          if nextCursor = 0 then Some (keys @ batch)
          else scan_loop R s c pattern nextCursor (keys @ batch))"

definition scanKeys :: "('r, 'o) redis \<Rightarrow> 'r \<Rightarrow> 'o \<Rightarrow> string \<Rightarrow> string list option" where
  "scanKeys R s c pattern = scan_loop R s c pattern 0 []"

text \<open>One key of the clean-up: \<open>key[5:]\<close> cannot be out of range, the pattern has five characters.\<close>

definition clean_key :: "('r, 'o) redis \<Rightarrow> 'o \<Rightarrow> int \<Rightarrow> 'r \<Rightarrow> string \<Rightarrow> 'r option" where
  "clean_key R c cutoff s key =
     (case HGet R s key ''last_seen'' of
        HGetValue lastSeenStr \<Rightarrow>
          (case ParseInt lastSeenStr of
             (lastSeen, None) \<Rightarrow>
               if lastSeen < cutoff then
                 map_option (\<lambda>torrentKeys.
                     let s' = foldl (\<lambda>s k. snd (Exec R s [SRem k (drop 5 key)])) s torrentKeys
                     in snd (Exec R s' [Del key]))
                   (scanKeys R s c ''torrent:*:peers'')
               else Some s
           | (_, Some _) \<Rightarrow> Some s)
      | _ \<Rightarrow> Some s)"

fun clean_keys :: "('r, 'o) redis \<Rightarrow> 'o \<Rightarrow> int \<Rightarrow> 'r \<Rightarrow> string list \<Rightarrow> 'r option" where
  "clean_keys R c cutoff s [] = Some s"
| "clean_keys R c cutoff s (k # ks) = Option.bind (clean_key R c cutoff s k) (\<lambda>s'. clean_keys R c cutoff s' ks)"

partial_function (option) cleanup_loop ::
  "('r, 'o) redis \<Rightarrow> 'o \<Rightarrow> int \<Rightarrow> nat \<Rightarrow> 'r \<Rightarrow> (store_err option \<times> 'r) option" where
  "cleanup_loop R c cutoff cursor s =
     (case Scan R s c cursor ''peer:*'' of
        None \<Rightarrow> Some (Some BackendError, s)
      | Some (keys, nextCursor) \<Rightarrow>
          Option.bind (clean_keys R c cutoff s keys) (\<lambda>s'.
            if nextCursor = 0 then Some (None, s') else cleanup_loop R c cutoff nextCursor s'))"

definition red_CleanupExpiredPeers :: "('r, 'o) redis \<Rightarrow> 'r \<Rightarrow> 'o \<Rightarrow> int \<Rightarrow> (store_err option \<times> 'r) option" where
  "red_CleanupExpiredPeers R s c now = cleanup_loop R c (unix_secs (now - minutes 30)) 0 s"

definition red_GetActiveTorrents :: "('r, 'o) redis \<Rightarrow> 'r \<Rightarrow> 'o \<Rightarrow> string list option" where
  "red_GetActiveTorrents R s c =
     map_option (\<lambda>keys. map (\<lambda>key. take (length key - 6 - 8) (drop 8 key)) (filter (\<lambda>key. length key > 17) keys))
       (scanKeys R s c ''torrent:*:peers'')"

definition redis_store :: "('r, 'o) redis \<Rightarrow> ('r, 'o) Storage" where
  "redis_store R =
     \<lparr>st_AddPeer = red_AddPeer R,
      st_RemovePeer = red_RemovePeer R,
      st_GetPeer = red_GetPeer R,
      st_GetPeers = red_GetPeers R,
      st_GetSeeders = red_GetSeeders R,
      st_GetLeechers = red_GetLeechers R,
      st_UpdatePeerLastSeen = red_UpdatePeerLastSeen R,
      st_GetTorrentStats = red_GetTorrentStats R,
      st_IncrementCompleted = red_IncrementCompleted R,
      st_GetActiveTorrents = \<lambda>s c. map_option Inr (red_GetActiveTorrents R s c),
      st_CleanupExpiredPeers = red_CleanupExpiredPeers R,
      st_Close = \<lambda>s. cmd_error (redis_Close R s)\<rparr>"

section \<open>What the commands mean\<close>

text \<open>
  The content of the server: the hashes and the sets, by key.  No expiry happens between the calls of a
  run: a key is refreshed by every announcement, and what expiry removes is what \<open>CleanupExpiredPeers\<close>
  would remove.
\<close>

record redis_content =
  hashes :: "(string, (string, string) fmap) fmap"
  members :: "(string, string fset) fmap"

definition hash_at :: "redis_content \<Rightarrow> string \<Rightarrow> (string, string) fmap" where
  "hash_at C k = (case fmlookup (hashes C) k of None \<Rightarrow> fmempty | Some d \<Rightarrow> d)"

definition set_at :: "redis_content \<Rightarrow> string \<Rightarrow> string fset" where
  "set_at C k = (case fmlookup (members C) k of None \<Rightarrow> {||} | Some S \<Rightarrow> S)"

definition counter_at :: "redis_content \<Rightarrow> string \<Rightarrow> string \<Rightarrow> int" where
  "counter_at C k f = (case fmlookup (hash_at C k) f of None \<Rightarrow> 0 | Some v \<Rightarrow> fst (ParseInt v))"

fun cmd_effect :: "redis_content \<Rightarrow> redis_cmd \<Rightarrow> redis_content" where
  "cmd_effect C (HSet k fs) = C\<lparr>hashes := fmupd k (foldl (\<lambda>d (f, v). fmupd f v d) (hash_at C k) fs) (hashes C)\<rparr>"
| "cmd_effect C (SAdd k m) = C\<lparr>members := fmupd k (finsert m (set_at C k)) (members C)\<rparr>"
| "cmd_effect C (Expire k t) = C"
| "cmd_effect C (Del k) = C\<lparr>hashes := fmdrop k (hashes C), members := fmdrop k (members C)\<rparr>"
| "cmd_effect C (SRem k m) = C\<lparr>members := fmupd k (set_at C k |-| {|m|}) (members C)\<rparr>"
| "cmd_effect C (HIncrBy k f n) =
     C\<lparr>hashes := fmupd k (fmupd f (itoa (counter_at C k f + n)) (hash_at C k)) (hashes C)\<rparr>"

text \<open>
  A key holds one type.  The keys of torrent sets are told by their form; a command of the other type on
  a key is an error of the server, of which nothing is assumed.
\<close>

definition set_key :: "string \<Rightarrow> bool" where
  "set_key k \<longleftrightarrow> 14 \<le> length k \<and> take 8 k = ''torrent:'' \<and> drop (length k - 6) k = '':peers''"

fun cmd_typed :: "redis_content \<Rightarrow> redis_cmd \<Rightarrow> bool" where
  "cmd_typed C (HSet k fs) \<longleftrightarrow> \<not> set_key k"
| "cmd_typed C (SAdd k m) \<longleftrightarrow> set_key k"
| "cmd_typed C (Expire k t) \<longleftrightarrow> True"
| "cmd_typed C (Del k) \<longleftrightarrow> True"
| "cmd_typed C (SRem k m) \<longleftrightarrow> set_key k"
| "cmd_typed C (HIncrBy k f n) \<longleftrightarrow> \<not> set_key k \<and> int64_ok (counter_at C k f + n)"

fun cmds_typed :: "redis_content \<Rightarrow> redis_cmd list \<Rightarrow> bool" where
  "cmds_typed C [] \<longleftrightarrow> True"
| "cmds_typed C (c # cs) \<longleftrightarrow> cmd_typed C c \<and> cmds_typed (cmd_effect C c) cs"

definition redis_ok :: "('r, 'o) redis \<Rightarrow> ('r \<Rightarrow> redis_content) \<Rightarrow> bool" where
  "redis_ok R content \<longleftrightarrow>
     (\<forall>s cmds. cmds_typed (content s) cmds \<longrightarrow>
        \<not> fst (Exec R s cmds) \<and> content (snd (Exec R s cmds)) = foldl cmd_effect (content s) cmds) \<and>
     (\<forall>s k. \<not> set_key k \<longrightarrow> HGetAll R s k = Some (hash_at (content s) k)) \<and>
     (\<forall>s k f. \<not> set_key k \<longrightarrow> HGet R s k f =
        (case fmlookup (hash_at (content s) k) f of None \<Rightarrow> HGetNil | Some v \<Rightarrow> HGetValue v)) \<and>
     (\<forall>s c k. set_key k \<longrightarrow> (\<exists>xs. SMembers R s c k = Some xs \<and> distinct xs \<and> set xs = fset (set_at (content s) k))) \<and>
     (\<forall>s c k n. set_key k \<longrightarrow> (\<exists>xs. SRandMemberN R s c k n = Some xs \<and> set xs \<subseteq> fset (set_at (content s) k) \<and>
        (if 0 \<le> n then distinct xs \<and> int (length xs) = min n (int (fcard (set_at (content s) k)))
         else set_at (content s) k \<noteq> {||} \<longrightarrow> int (length xs) = - n)))"

lemma redis_okD:
  assumes "redis_ok R content"
  shows "cmds_typed (content s) cmds \<Longrightarrow> \<not> fst (Exec R s cmds)"
    and "cmds_typed (content s) cmds \<Longrightarrow> content (snd (Exec R s cmds)) = foldl cmd_effect (content s) cmds"
    and "\<not> set_key k \<Longrightarrow> HGetAll R s k = Some (hash_at (content s) k)"
    and "\<not> set_key k \<Longrightarrow> HGet R s k f =
        (case fmlookup (hash_at (content s) k) f of None \<Rightarrow> HGetNil | Some v \<Rightarrow> HGetValue v)"
  using assms by (simp_all add: redis_ok_def)

lemma set_key_keys [simp]:
  "\<not> set_key (peerKey i)" "set_key (torrentPeersKey h)" "\<not> set_key (torrentStatsKey h)"
  by (simp_all add: set_key_def peerKey_def torrentPeersKey_def torrentStatsKey_def)

lemma redis_keys [simp]:
  "peerKey i = peerKey j \<longleftrightarrow> i = j" "torrentPeersKey h = torrentPeersKey h' \<longleftrightarrow> h = h'"
  "torrentStatsKey h = torrentStatsKey h' \<longleftrightarrow> h = h'"
  "peerKey i \<noteq> torrentPeersKey h" "peerKey i \<noteq> torrentStatsKey h" "torrentPeersKey h \<noteq> torrentStatsKey h'"
  "torrentPeersKey h \<noteq> peerKey i" "torrentStatsKey h \<noteq> peerKey i" "torrentStatsKey h' \<noteq> torrentPeersKey h"
proof -
  show ne: "torrentPeersKey h \<noteq> torrentStatsKey h'" for h h'
    using set_key_keys(2) [of h] set_key_keys(3) [of h'] by metis
  show "torrentStatsKey h' \<noteq> torrentPeersKey h" using ne [of h h'] by metis
qed (simp_all add: peerKey_def torrentPeersKey_def torrentStatsKey_def)

lemma content_simps [simp]:
  "hash_at (C\<lparr>hashes := fmupd k d H\<rparr>) k' = (if k' = k then d else hash_at (C\<lparr>hashes := H\<rparr>) k')"
  "set_at (C\<lparr>hashes := H\<rparr>) k' = set_at C k'"
  "set_at (C\<lparr>members := fmupd k S M\<rparr>) k' = (if k' = k then S else set_at (C\<lparr>members := M\<rparr>) k')"
  "hash_at (C\<lparr>members := M\<rparr>) k' = hash_at C k'"
  "hash_at (C\<lparr>hashes := fmdrop k H\<rparr>) k' = (if k' = k then fmempty else hash_at (C\<lparr>hashes := H\<rparr>) k')"
  "set_at (C\<lparr>members := fmdrop k M\<rparr>) k' = (if k' = k then {||} else set_at (C\<lparr>members := M\<rparr>) k')"
  "hash_at (C\<lparr>hashes := hashes C\<rparr>) k' = hash_at C k'"
  "set_at (C\<lparr>members := members C\<rparr>) k' = set_at C k'"
  by (simp_all add: hash_at_def set_at_def)


section \<open>Refinement\<close>

text \<open>The storage keeps a record with its time cut to whole seconds.\<close>

definition stored :: "tpeer \<Rightarrow> tpeer" where
  "stored p = p\<lparr>LastSeen := from_unix (unix_secs (LastSeen p))\<rparr>"

definition redis_view :: "('r, 'o) redis \<Rightarrow> ('r \<Rightarrow> redis_content) \<Rightarrow> 'r \<Rightarrow> id20 \<Rightarrow> string \<Rightarrow> tpeer option" where
  "redis_view R content s h i = (if i |\<in>| set_at (content s) (torrentPeersKey h) then read_peer R s i else None)"

definition redis_count :: "('r, 'o) redis \<Rightarrow> 'r \<Rightarrow> id20 \<Rightarrow> int" where
  "redis_count R s h =
     (case HGet R s (torrentStatsKey h) ''completed'' of HGetValue v \<Rightarrow> fst (Atoi v) | _ \<Rightarrow> 0)"

definition ints_ok :: "tpeer \<Rightarrow> bool" where
  "ints_ok p \<longleftrightarrow> int64_ok (Port p) \<and> int64_ok (Uploaded p) \<and> int64_ok (Downloaded p) \<and> int64_ok (Left p) \<and>
     int64_ok (LastSeen p)"

primrec op_ok :: "store_op \<Rightarrow> bool" where
  "op_ok (AddOp h p) \<longleftrightarrow> ints_ok p"
| "op_ok (RemoveOp h i) \<longleftrightarrow> True"
| "op_ok (CompletedOp h) \<longleftrightarrow> True"

definition record_hash :: "tpeer option \<Rightarrow> (string, string) fmap" where
  "record_hash r = (case r of None \<Rightarrow> fmempty | Some p \<Rightarrow> fmap_of_list (peer_fields p))"

definition count_hash :: "int \<Rightarrow> (string, string) fmap" where
  "count_hash n = (if n = 0 then fmempty else fmupd ''completed'' (itoa n) fmempty)"

lemma unix_secs_ok: "int64_ok t \<Longrightarrow> int64_ok (unix_secs t)"
  unfolding int64_ok_def unix_secs_def by simp linarith

lemma ParseInt_Nil [simp]: "ParseInt [] = (0, Some ErrSyntax)"
  by (simp add: ParseInt_def)

lemma read_peer_hash:
  assumes "redis_ok R content" and "hash_at (content s) (peerKey i) = record_hash r"
    and "\<forall>p. r = Some p \<longrightarrow> ID p = i \<and> ints_ok p"
  shows "read_peer R s i = map_option stored r"
proof (cases r)
  case None
  then show ?thesis using assms redis_okD(3) [OF assms(1), of "peerKey i" s]
    by (simp add: read_peer_def red_GetPeer_def record_hash_def)
next
  case (Some p)
  then have p: "ID p = i" "ints_ok p" using assms(3) by blast+
  have "HGetAll R s (peerKey i) = Some (fmap_of_list (peer_fields p))"
    using assms(2) redis_okD(3) [OF assms(1), of "peerKey i" s] Some by (simp add: record_hash_def)
  moreover have "fmdom (fmap_of_list (peer_fields p)) \<noteq> {||}" by (simp add: peer_fields_def)
  ultimately have "read_peer R s i = Some (stored p)"
    using p unix_secs_ok
    by (simp add: read_peer_def red_GetPeer_def field_def peer_fields_def fmlookup_of_list Atoi_def ParseInt_itoa
        ints_ok_def stored_def)
  then show ?thesis using Some by simp
qed

lemma hset_record:
  "foldl (\<lambda>d (f, v). fmupd f v d) (record_hash r) (peer_fields p) = record_hash (Some p)"
proof (rule fmap_ext)
  fix k
  show "fmlookup (foldl (\<lambda>d (f, v). fmupd f v d) (record_hash r) (peer_fields p)) k = fmlookup (record_hash (Some p)) k"
    by (cases r) (auto simp: record_hash_def peer_fields_def fmlookup_of_list)
qed

text \<open>What the server holds after a history.\<close>

definition content_of :: "redis_content \<Rightarrow> store_op list \<Rightarrow> bool" where
  "content_of C ops \<longleftrightarrow>
     (\<forall>i. hash_at C (peerKey i) = record_hash (trace_peer ops i)) \<and>
     (\<forall>h i. i |\<in>| set_at C (torrentPeersKey h) \<longleftrightarrow> trace_member ops h i) \<and>
     (\<forall>h. hash_at C (torrentStatsKey h) = count_hash (trace_count ops h))"

lemma trace_count_range:
  "length ops < 2 ^ 62 \<Longrightarrow> 0 \<le> trace_count ops h \<and> trace_count ops h \<le> int (length ops)"
proof (induction ops)
  case (Cons op ops)
  then have "int64_ok (trace_count ops h + 1)" by (intro int64_ok_small) auto
  with Cons show ?case by auto
qed simp

lemma counter_count: "0 \<le> n \<Longrightarrow> n < 2 ^ 62 \<Longrightarrow> hash_at C k = count_hash n \<Longrightarrow> counter_at C k ''completed'' = n"
  by (auto simp: counter_at_def count_hash_def ParseInt_itoa int64_ok_def)

lemma content_add:
  assumes "content_of C ops"
  shows "content_of (foldl cmd_effect C
    [HSet (peerKey (ID p)) (peer_fields p), SAdd (torrentPeersKey h) (ID p),
     Expire (peerKey (ID p)) t, Expire (torrentPeersKey h) t']) (AddOp h p # ops)"
  using assms by (auto simp: content_of_def hset_record)

lemma content_remove:
  assumes "content_of C ops"
  shows "content_of (foldl cmd_effect C [Del (peerKey i), SRem (torrentPeersKey h) i]) (RemoveOp h i # ops)"
  using assms by (auto simp: content_of_def record_hash_def)

lemma content_increment:
  assumes "content_of C ops" and "length ops < 2 ^ 62"
  shows "cmds_typed C [HIncrBy (torrentStatsKey h) ''completed'' 1] \<and>
    content_of (foldl cmd_effect C [HIncrBy (torrentStatsKey h) ''completed'' 1]) (CompletedOp h # ops)"
proof -
  have n: "0 \<le> trace_count ops h" "trace_count ops h < 2 ^ 62"
    using trace_count_range [OF assms(2), of h] assms(2) by auto
  have hs: "hash_at C (torrentStatsKey h) = count_hash (trace_count ops h)" using assms(1) by (simp add: content_of_def)
  then have cnt: "counter_at C (torrentStatsKey h) ''completed'' = trace_count ops h"
    using n by (intro counter_count)
  have ok: "int64_ok (trace_count ops h + 1)" using n by (auto simp: int64_ok_def)
  have "fmupd ''completed'' (itoa (trace_count ops h + 1)) (count_hash (trace_count ops h)) = count_hash (trace_count ops h + 1)"
    using n(1) by (auto simp: count_hash_def)
  then show ?thesis using assms(1) cnt ok by (simp add: content_of_def)
qed

lemma redis_history:
  assumes "redis_ok R content" and "content s0 = \<lparr>hashes = fmempty, members = fmempty\<rparr>"
    and "\<forall>op \<in> set ops. op_ok op" and "length ops < 2 ^ 62"
  shows "content_of (content (run_ops (redis_store R) s0 (rev ops))) ops"
  using assms(3,4)
proof (induction ops)
  case Nil
  show ?case by (simp add: run_ops_def assms(2) content_of_def record_hash_def count_hash_def hash_at_def set_at_def)
next
  case (Cons op ops)
  let ?s = "run_ops (redis_store R) s0 (rev ops)"
  have IH: "content_of (content ?s) ops" using Cons by simp
  note exec = redis_okD(2) [OF assms(1), of ?s]
  show ?case
  proof (cases op)
    case (AddOp h p)
    then show ?thesis
      using content_add [OF IH, of p h] exec
      by (simp only: run_ops_rev) (simp add: apply_op_def redis_store_def red_AddPeer_def cmd_error_def)
  next
    case (RemoveOp h i)
    then show ?thesis
      using content_remove [OF IH, of i h] exec
      by (simp only: run_ops_rev) (simp add: apply_op_def redis_store_def red_RemovePeer_def cmd_error_def)
  next
    case (CompletedOp h)
    then show ?thesis
      using content_increment [OF IH, of h] Cons.prems(2) exec
      by (simp only: run_ops_rev) (simp add: apply_op_def redis_store_def red_IncrementCompleted_def cmd_error_def)
  qed
qed

lemma trace_peer_ok: "\<forall>op \<in> set ops. op_ok op \<Longrightarrow> trace_peer ops i = Some p \<Longrightarrow> ID p = i \<and> ints_ok p"
  by (induction ops) (auto split: store_op.splits if_splits)

lemma redis_trace:
  assumes "redis_ok R content" and "content s0 = \<lparr>hashes = fmempty, members = fmempty\<rparr>"
    and "\<forall>op \<in> set ops. op_ok op" and "length ops < 2 ^ 62"
  shows "redis_view R content (run_ops (redis_store R) s0 (rev ops)) h i = map_option stored (trace_view ops h i) \<and>
    redis_count R (run_ops (redis_store R) s0 (rev ops)) h = trace_count ops h"
proof -
  let ?s = "run_ops (redis_store R) s0 (rev ops)"
  have C: "content_of (content ?s) ops" using assms by (rule redis_history)
  have "read_peer R ?s i = map_option stored (trace_peer ops i)"
    using assms(1) C trace_peer_ok [OF assms(3)] by (intro read_peer_hash) (auto simp: content_of_def)
  then have "redis_view R content ?s h i = map_option stored (trace_view ops h i)"
    using C by (simp add: redis_view_def trace_view_def content_of_def)
  moreover have "redis_count R ?s h = trace_count ops h"
  proof -
    have "0 \<le> trace_count ops h" "trace_count ops h < 2 ^ 62"
      using trace_count_range [OF assms(4), of h] assms(4) by auto
    then have "int64_ok (trace_count ops h)" by (simp add: int64_ok_def)
    then show ?thesis
      using C redis_okD(4) [OF assms(1), of "torrentStatsKey h" ?s "''completed''"]
      by (simp add: redis_count_def content_of_def count_hash_def Atoi_def ParseInt_itoa)
  qed
  ultimately show ?thesis by blast
qed


text \<open>
  C19.  The Redis storage refines the same specification as the in-memory one: on a server that does
  what its commands are documented to do, after any history of announcements, stops and completions the
  storage reads back, for a torrent and a peer, the announcement of the history with its time cut to
  whole seconds, and the completion count of the history.
\<close>

theorem redis_refines_trace:
  assumes "redis_ok R content" and "content s0 = \<lparr>hashes = fmempty, members = fmempty\<rparr>"
    and "\<forall>op \<in> set ops. op_ok op" and "length ops < 2 ^ 62"
  shows "redis_view R content (run_ops (redis_store R) s0 (rev ops)) h i = map_option stored (trace_view ops h i) \<and>
    redis_count R (run_ops (redis_store R) s0 (rev ops)) h = trace_count ops h"
  using redis_trace [OF assms] .

text \<open>A server whose commands do what is documented, for the witnesses: its state is the content.\<close>

definition model_redis :: "(redis_content, map_order) redis" where
  "model_redis =
     \<lparr>Exec = \<lambda>C cmds. (False, foldl cmd_effect C cmds),
      HGetAll = \<lambda>C k. Some (hash_at C k),
      HGet = \<lambda>C k f. (case fmlookup (hash_at C k) f of None \<Rightarrow> HGetNil | Some v \<Rightarrow> HGetValue v),
      SRandMemberN = \<lambda>C c k n.
        Some (let ms = key_order (set_at C k) in
              if 0 \<le> n then take (nat n) ms else if ms = [] then [] else replicate (nat (- n)) (hd ms)),
      SMembers = \<lambda>C c k. Some (key_order (set_at C k)),
      Scan = \<lambda>C c cursor pattern.
        Some (filter (\<lambda>k. if pattern = ''peer:*'' then take 5 k = ''peer:'' else set_key k)
          (key_order (fmdom (hashes C) |\<union>| fmdom (members C))), 0),
      redis_Close = \<lambda>C. (False, C)\<rparr>"

lemma key_order_facts [simp]: "distinct (key_order S)" "set (key_order S) = fset S" "length (key_order S) = fcard S"
proof -
  show d: "distinct (key_order S)" and s: "set (key_order S) = fset S"
    using order_ok_key_order by (auto simp: order_ok_def)
  then show "length (key_order S) = fcard S" using distinct_card by (fastforce simp: fcard.rep_eq)
qed

lemma redis_ok_model [simp]: "redis_ok model_redis id"
  unfolding redis_ok_def model_redis_def
proof (intro conjI allI impI, goal_cases)
  case (6 s c k n)
  have "set (take m (key_order (set_at s k))) \<subseteq> fset (set_at s k)" for m
    using set_take_subset [of m "key_order (set_at s k)"] by simp
  moreover have "hd (key_order (set_at s k)) \<in> fset (set_at s k)" if "key_order (set_at s k) \<noteq> []"
    using hd_in_set [OF that] by simp
  moreover have "key_order (set_at s k) = [] \<longleftrightarrow> set_at s k = {||}"
    by (metis fset_of_list_simps(1) bot_fset.rep_eq key_order_facts(2) empty_set fset_inject set_empty)
  ultimately show ?case by (auto simp: Let_def)
qed simp_all

text \<open>The empty server.\<close>

definition empty_redis :: redis_content where
  "empty_redis = \<lparr>hashes = fmempty, members = fmempty\<rparr>"

theorem redis_refines_trace_witness:
  "redis_view model_redis id (run_ops (redis_store model_redis) empty_redis (rev
      [CompletedOp zero20, AddOp zero20 \<lparr>ID = ''a'', IP = ''10.0.0.1'', Port = 1, Uploaded = 0, Downloaded = 0, Left = 0, LastSeen = 1500000000\<rparr>]))
      zero20 ''a'' =
    Some \<lparr>ID = ''a'', IP = ''10.0.0.1'', Port = 1, Uploaded = 0, Downloaded = 0, Left = 0, LastSeen = 1000000000\<rparr>"
proof -
  let ?ops = "[CompletedOp zero20, AddOp zero20
      \<lparr>ID = ''a'', IP = ''10.0.0.1'', Port = 1, Uploaded = 0, Downloaded = 0, Left = 0, LastSeen = 1500000000\<rparr>]"
  have "\<forall>op \<in> set ?ops. op_ok op" by (simp add: ints_ok_def int64_ok_def)
  moreover have "length ?ops < 2 ^ 62" by simp
  ultimately have "redis_view model_redis id (run_ops (redis_store model_redis) empty_redis (rev ?ops)) zero20 ''a'' =
      map_option stored (trace_view ?ops zero20 ''a'')"
    using redis_refines_trace [OF redis_ok_model, of empty_redis ?ops zero20 "''a''"]
    by (simp only: empty_redis_def id_apply)
  then show ?thesis by (simp add: trace_view_def stored_def unix_secs_def from_unix_def)
qed

section \<open>Lists of peers\<close>

lemma read_peer_ID: "read_peer R s i = Some p \<Longrightarrow> ID p = i"
  by (auto simp: read_peer_def red_GetPeer_def split: option.splits if_splits)

lemma map_filter_all: "\<forall>x \<in> set xs. f x \<noteq> None \<Longrightarrow> length (List.map_filter f xs) = length xs"
  by (induction xs) (auto simp: List.map_filter_simps)

text \<open>
  C36.  How many peers the Redis storage returns: for a limit that is not negative, distinct peers on
  record for the torrent, at most the limit (the members are drawn before the ones without a record are
  skipped, so it can be fewer than there are); for a negative limit, which the query parameter can ask
  for, as many entries as its absolute value with repetitions, where the in-memory storage returns none.
\<close>

theorem redis_GetPeers_count:
  assumes "redis_ok R content"
  shows "\<exists>ps. red_GetPeers R s c h n = Inr ps \<and>
    (\<forall>p \<in> set ps. redis_view R content s h (ID p) = Some p) \<and>
    (0 \<le> n \<longrightarrow> distinct (map ID ps) \<and> int (length ps) \<le> n) \<and>
    (n < 0 \<and> set_at (content s) (torrentPeersKey h) \<noteq> {||} \<and>
       (\<forall>i. i |\<in>| set_at (content s) (torrentPeersKey h) \<longrightarrow> read_peer R s i \<noteq> None) \<longrightarrow> int (length ps) = - n) \<and>
    (n < 0 \<longrightarrow> mem_GetPeers m c' h n = [])"
proof -
  obtain xs where xs: "SRandMemberN R s c (torrentPeersKey h) n = Some xs"
      "set xs \<subseteq> fset (set_at (content s) (torrentPeersKey h))"
      "if 0 \<le> n then distinct xs \<and> int (length xs) = min n (int (fcard (set_at (content s) (torrentPeersKey h))))
       else set_at (content s) (torrentPeersKey h) \<noteq> {||} \<longrightarrow> int (length xs) = - n"
    using assms set_key_keys(2) [of h] unfolding redis_ok_def by metis
  let ?ps = "List.map_filter (read_peer R s) xs"
  have ids: "map ID ?ps = filter (\<lambda>i. read_peer R s i \<noteq> None) xs"
    by (rule map_filter_ids) (rule read_peer_ID)
  have len: "length ?ps \<le> length xs"
    using arg_cong [OF ids, of length] length_filter_le [of _ xs] by (metis length_map)
  have "redis_view R content s h (ID p) = Some p" if "p \<in> set ?ps" for p
  proof -
    from that obtain i where i: "i \<in> set xs" "read_peer R s i = Some p" by (auto simp: List.map_filter_def)
    then have "ID p = i" by (simp add: read_peer_ID)
    with i xs(2) show ?thesis by (auto simp: redis_view_def)
  qed
  moreover have "distinct (map ID ?ps) \<and> int (length ?ps) \<le> n" if "0 \<le> n"
    using xs(3) that len unfolding ids by auto
  moreover have "int (length ?ps) = - n" if "n < 0" "set_at (content s) (torrentPeersKey h) \<noteq> {||}"
    "\<forall>i. i |\<in>| set_at (content s) (torrentPeersKey h) \<longrightarrow> read_peer R s i \<noteq> None"
  proof -
    have "\<forall>i \<in> set xs. read_peer R s i \<noteq> None" using xs(2) that(3) by auto
    from map_filter_all [OF this] have "length ?ps = length xs" .
    moreover have "int (length xs) = - n" using xs(3) that(1,2) by simp
    ultimately show ?thesis by simp
  qed
  moreover have "mem_GetPeers m c' h n = []" if "n < 0"
    using that by (simp add: mem_GetPeers_def get_loop_take split: option.split)
  ultimately show ?thesis using xs(1) by (auto simp: red_GetPeers_def)
qed

theorem redis_GetPeers_count_witness:
  "\<exists>ps. red_GetPeers model_redis (\<lparr>hashes = fmupd (peerKey ''a'') (fmupd ''left'' ''0'' fmempty) fmempty,
      members = fmupd (torrentPeersKey zero20) {|''a''|} fmempty\<rparr>) key_order zero20 (- 1000) = Inr ps \<and> int (length ps) = 1000"
proof -
  let ?s = "\<lparr>hashes = fmupd (peerKey ''a'') (fmupd ''left'' ''0'' fmempty) fmempty,
      members = fmupd (torrentPeersKey zero20) {|''a''|} fmempty\<rparr>"
  have "set_at ?s (torrentPeersKey zero20) = {|''a''|}" by (simp add: set_at_def)
  moreover have "read_peer model_redis ?s ''a'' \<noteq> None"
    by (simp add: read_peer_def red_GetPeer_def model_redis_def hash_at_def)
  ultimately show ?thesis
    using redis_GetPeers_count [OF redis_ok_model, of ?s key_order zero20 "- 1000" NewMemoryStorage key_order] by auto
qed

text \<open>
  Refreshing a peer that is not on record creates one in Redis: the command sets the one field, and
  the new hash reads back as a peer without address and port that has nothing left to download, a seeder;
  the in-memory storage leaves an unknown peer unknown.
\<close>

theorem redis_refresh_creates_ghost:
  assumes "redis_ok R content" and "hash_at (content s) (peerKey i) = fmempty" and "int64_ok now"
    and "mem_GetPeer m i = Inl (PeerNotFound i)"
  shows "red_GetPeer R s i = Inl (PeerNotFound i) \<and>
    red_GetPeer R (snd (red_UpdatePeerLastSeen R s now i)) i =
      Inr \<lparr>ID = i, IP = [], Port = 0, Uploaded = 0, Downloaded = 0, Left = 0, LastSeen = from_unix (unix_secs now)\<rparr> \<and>
    mem_GetPeer (mem_UpdatePeerLastSeen m now i) i = Inl (PeerNotFound i)"
proof -
  have "content (snd (red_UpdatePeerLastSeen R s now i)) =
      cmd_effect (content s) (HSet (peerKey i) [(''last_seen'', itoa (unix_secs now))])"
    using redis_okD(2) [OF assms(1), of s "[HSet (peerKey i) [(''last_seen'', itoa (unix_secs now))]]"]
    by (simp add: red_UpdatePeerLastSeen_def cmd_error_def)
  then have "hash_at (content (snd (red_UpdatePeerLastSeen R s now i))) (peerKey i) =
      fmupd ''last_seen'' (itoa (unix_secs now)) fmempty"
    using assms(2) by simp
  then have "red_GetPeer R (snd (red_UpdatePeerLastSeen R s now i)) i =
      Inr \<lparr>ID = i, IP = [], Port = 0, Uploaded = 0, Downloaded = 0, Left = 0, LastSeen = from_unix (unix_secs now)\<rparr>"
    using redis_okD(3) [OF assms(1), of "peerKey i"] unix_secs_ok [OF assms(3)]
    by (simp add: red_GetPeer_def field_def Atoi_def ParseInt_itoa)
  moreover have "red_GetPeer R s i = Inl (PeerNotFound i)"
    using redis_okD(3) [OF assms(1), of "peerKey i" s] assms(2) by (simp add: red_GetPeer_def)
  moreover have "mem_GetPeer (mem_UpdatePeerLastSeen m now i) i = Inl (PeerNotFound i)"
    using assms(4) by (auto simp: mem_UpdatePeerLastSeen_def mem_GetPeer_def split: option.splits)
  ultimately show ?thesis by blast
qed

theorem redis_refresh_creates_ghost_witness:
  "red_GetPeer model_redis (snd (red_UpdatePeerLastSeen model_redis empty_redis 0 ''x'')) ''x'' =
     Inr \<lparr>ID = ''x'', IP = [], Port = 0, Uploaded = 0, Downloaded = 0, Left = 0, LastSeen = 0\<rparr>"
proof -
  have "hash_at (id empty_redis) (peerKey ''x'') = fmempty" "int64_ok 0"
      "mem_GetPeer NewMemoryStorage ''x'' = Inl (PeerNotFound ''x'')"
    by (simp_all add: hash_at_def empty_redis_def int64_ok_def mem_GetPeer_def NewMemoryStorage_def)
  from redis_refresh_creates_ghost [OF redis_ok_model this] show ?thesis
    by (simp add: from_unix_def unix_secs_def)
qed

section \<open>Scanning and cleaning up\<close>

text \<open>
  The documented behaviour of a full iteration with the server's cursor: it ends, it returns keys that
  match the pattern only, and while nothing changes it returns all of them.
\<close>

definition key_match :: "string \<Rightarrow> string \<Rightarrow> bool" where
  "key_match pattern k \<longleftrightarrow>
     (if pattern = ''peer:*'' then take 5 k = ''peer:'' else pattern = ''torrent:*:peers'' \<and> set_key k)"

inductive scanned :: "('r, 'o) redis \<Rightarrow> 'r \<Rightarrow> 'o \<Rightarrow> string \<Rightarrow> nat \<Rightarrow> string list \<Rightarrow> bool" for R s c pattern where
  last_page: "Scan R s c cur pattern = Some (ks, 0) \<Longrightarrow> scanned R s c pattern cur ks"
| more_pages: "Scan R s c cur pattern = Some (ks, nxt) \<Longrightarrow> nxt \<noteq> 0 \<Longrightarrow> scanned R s c pattern nxt ks' \<Longrightarrow>
    scanned R s c pattern cur (ks @ ks')"

definition scans_end :: "('r, 'o) redis \<Rightarrow> (nat \<Rightarrow> nat) \<Rightarrow> bool" where
  "scans_end R rank \<longleftrightarrow>
     (\<forall>s c cur pattern. \<exists>ks nxt. Scan R s c cur pattern = Some (ks, nxt) \<and> (nxt \<noteq> 0 \<longrightarrow> rank nxt < rank cur))"

definition scans_match :: "('r, 'o) redis \<Rightarrow> bool" where
  "scans_match R \<longleftrightarrow>
     (\<forall>s c cur pattern ks nxt. (pattern = ''peer:*'' \<or> pattern = ''torrent:*:peers'') \<and> Scan R s c cur pattern = Some (ks, nxt) \<longrightarrow>
        (\<forall>k \<in> set ks. key_match pattern k))"

definition matching_keys :: "redis_content \<Rightarrow> string \<Rightarrow> string set" where
  "matching_keys C pattern = {k. key_match pattern k \<and> (k |\<in>| fmdom (hashes C) \<or> k |\<in>| fmdom (members C))}"

definition scans_cover :: "('r, 'o) redis \<Rightarrow> ('r \<Rightarrow> redis_content) \<Rightarrow> bool" where
  "scans_cover R content \<longleftrightarrow>
     (\<forall>s c pattern ks. (pattern = ''peer:*'' \<or> pattern = ''torrent:*:peers'') \<and> scanned R s c pattern 0 ks \<longrightarrow>
        set ks = matching_keys (content s) pattern)"

definition scan_ok :: "('r, 'o) redis \<Rightarrow> ('r \<Rightarrow> redis_content) \<Rightarrow> bool" where
  "scan_ok R content \<longleftrightarrow> (\<exists>rank. scans_end R rank) \<and> scans_match R \<and> scans_cover R content"

text \<open>The loop ends, and has collected the pages of the iteration.\<close>

lemma scan_loop_ends:
  assumes "scan_ok R content"
  shows "\<exists>ks'. scan_loop R s c pattern cur ks = Some (ks @ ks') \<and> scanned R s c pattern cur ks'"
proof -
  obtain rank where rank: "scans_end R rank" using assms by (auto simp: scan_ok_def)
  show ?thesis
  proof (induction cur arbitrary: ks rule: measure_induct_rule [of rank])
    case (less cur)
    obtain page nxt where page: "Scan R s c cur pattern = Some (page, nxt)" "nxt \<noteq> 0 \<longrightarrow> rank nxt < rank cur"
      using rank unfolding scans_end_def by meson
    show ?case
    proof (cases "nxt = 0")
      case True
      have "scan_loop R s c pattern cur ks = Some (ks @ page)"
        using True page(1) by (simp add: scan_loop.simps [of R s c pattern cur])
      moreover have "scanned R s c pattern cur page"
        by (rule scanned.last_page) (use page(1) True in simp)
      ultimately show ?thesis by blast
    next
      case False
      then have "rank nxt < rank cur" using page(2) by simp
      from less [OF this, of "ks @ page"] obtain ks' where
        ks': "scan_loop R s c pattern nxt (ks @ page) = Some (ks @ page @ ks')" "scanned R s c pattern nxt ks'" by auto
      have "scan_loop R s c pattern cur ks = Some (ks @ (page @ ks'))"
        using False page(1) ks'(1) by (simp add: scan_loop.simps [of R s c pattern cur])
      moreover have "scanned R s c pattern cur (page @ ks')"
        using page(1) False ks'(2) by (rule scanned.more_pages)
      ultimately show ?thesis by blast
    qed
  qed
qed

lemma scanKeys_all:
  assumes "scan_ok R content" and "pattern = ''peer:*'' \<or> pattern = ''torrent:*:peers''"
  shows "\<exists>ks. scanKeys R s c pattern = Some ks \<and> set ks = matching_keys (content s) pattern"
proof -
  obtain ks where ks: "scan_loop R s c pattern 0 [] = Some ks" "scanned R s c pattern 0 ks"
    using scan_loop_ends [OF assms(1), of s c pattern 0 "[]"] by auto
  have "scans_cover R content" using assms(1) by (simp add: scan_ok_def)
  then have "set ks = matching_keys (content s) pattern"
    using ks(2) assms(2) unfolding scans_cover_def by blast
  with ks(1) show ?thesis by (simp add: scanKeys_def)
qed

text \<open>What one clean-up step may change: the record and the memberships of an expired peer.\<close>

definition expired :: "redis_content \<Rightarrow> int \<Rightarrow> string \<Rightarrow> bool" where
  "expired C cutoff i \<longleftrightarrow>
     (\<exists>v n. fmlookup (hash_at C (peerKey i)) ''last_seen'' = Some v \<and> ParseInt v = (n, None) \<and> n < cutoff)"

definition keeps :: "int \<Rightarrow> redis_content \<Rightarrow> redis_content \<Rightarrow> bool" where
  "keeps cutoff C C' \<longleftrightarrow>
     (\<forall>i. \<not> expired C cutoff i \<longrightarrow> hash_at C' (peerKey i) = hash_at C (peerKey i) \<and>
        (\<forall>h. i |\<in>| set_at C' (torrentPeersKey h) \<longleftrightarrow> i |\<in>| set_at C (torrentPeersKey h))) \<and>
     (\<forall>h. hash_at C' (torrentStatsKey h) = hash_at C (torrentStatsKey h))"

lemma keeps_refl [simp]: "keeps cutoff C C"
  by (simp add: keeps_def)

lemma keeps_trans: "keeps cutoff C C' \<Longrightarrow> keeps cutoff C' C'' \<Longrightarrow> keeps cutoff C C''"
  unfolding keeps_def expired_def by metis

lemma srem_fold:
  assumes "redis_ok R content" and "\<forall>k \<in> set ks. set_key k"
  shows "hash_at (content (foldl (\<lambda>s k. snd (Exec R s [SRem k m])) s ks)) k' = hash_at (content s) k' \<and>
    set_at (content (foldl (\<lambda>s k. snd (Exec R s [SRem k m])) s ks)) k' =
      (if k' \<in> set ks then set_at (content s) k' |-| {|m|} else set_at (content s) k')"
  using assms(2)
proof (induction ks arbitrary: s)
  case Nil
  show ?case by simp
next
  case (Cons k ks)
  have c: "content (snd (Exec R s [SRem k m])) = cmd_effect (content s) (SRem k m)"
    using redis_okD(2) [OF assms(1), of s "[SRem k m]"] Cons.prems by simp
  show ?case
    using Cons by (auto simp: c)
qed

lemma clean_key_step:
  assumes "redis_ok R content" and "scan_ok R content" and "key_match ''peer:*'' key"
  shows "\<exists>s'. clean_key R c cutoff s key = Some s' \<and> keeps cutoff (content s) (content s')"
proof (cases "expired (content s) cutoff (drop 5 key)")
  case False
  have key: "key = peerKey (drop 5 key)"
    using assms(3) append_take_drop_id [of 5 key] by (simp add: key_match_def peerKey_def)
  then have "\<not> set_key key" by (metis set_key_keys(1))
  from redis_okD(4) [OF assms(1) this, of s "''last_seen''"] False key
  have "clean_key R c cutoff s key = Some s"
    by (auto simp: clean_key_def expired_def split: option.splits prod.splits)
  then show ?thesis by simp
next
  case True
  have key: "key = peerKey (drop 5 key)"
    using assms(3) append_take_drop_id [of 5 key] by (simp add: key_match_def peerKey_def)
  then have nk: "\<not> set_key key" by (metis set_key_keys(1))
  obtain ks where ks: "scanKeys R s c ''torrent:*:peers'' = Some ks" "\<forall>k \<in> set ks. set_key k"
    using scanKeys_all [OF assms(2), of "''torrent:*:peers''" s c] by (auto simp: key_match_def matching_keys_def)
  let ?s1 = "foldl (\<lambda>s k. snd (Exec R s [SRem k (drop 5 key)])) s ks"
  let ?s2 = "snd (Exec R ?s1 [Del key])"
  have "clean_key R c cutoff s key = Some ?s2"
    using True redis_okD(4) [OF assms(1) nk, of s "''last_seen''"] key ks(1)
    by (auto simp: clean_key_def expired_def Let_def)
  moreover have "keeps cutoff (content s) (content ?s2)"
  proof -
    note fold = srem_fold [OF assms(1) ks(2), of "drop 5 key" s]
    have del: "content ?s2 = cmd_effect (content ?s1) (Del key)"
      using redis_okD(2) [OF assms(1), of ?s1 "[Del key]"] by simp
    have "drop 5 key \<noteq> i" if "\<not> expired (content s) cutoff i" for i using True that by auto
    then show ?thesis unfolding keeps_def del
      by (subst (1 2 3) key) (auto simp: fold)
  qed
  ultimately show ?thesis by blast
qed

lemma clean_keys_step:
  assumes "redis_ok R content" and "scan_ok R content" and "\<forall>k \<in> set keys. key_match ''peer:*'' k"
  shows "\<exists>s'. clean_keys R c cutoff s keys = Some s' \<and> keeps cutoff (content s) (content s')"
  using assms(3)
proof (induction keys arbitrary: s)
  case Nil
  then show ?case by simp
next
  case (Cons k ks)
  obtain s1 where s1: "clean_key R c cutoff s k = Some s1" "keeps cutoff (content s) (content s1)"
    using clean_key_step [OF assms(1,2)] Cons.prems by (metis list.set_intros(1))
  moreover obtain s2 where "clean_keys R c cutoff s1 ks = Some s2" "keeps cutoff (content s1) (content s2)"
    using Cons by auto
  ultimately show ?case using keeps_trans by fastforce
qed

text \<open>
  C20.  The clean-up ends and spares the living: on a server whose cursor iterations end, the loop over
  the pages returns without an error, whatever the pages, and a peer whose last announcement is not older
  than thirty minutes still has its record and its place in every torrent, as have the completion counts.
\<close>

theorem redis_cleanup_ends:
  assumes "redis_ok R content" and "scan_ok R content"
  shows "\<exists>s'. red_CleanupExpiredPeers R s c now = Some (None, s') \<and>
    keeps (unix_secs (now - minutes 30)) (content s) (content s')"
proof -
  let ?cutoff = "unix_secs (now - minutes 30)"
  obtain rank where rank: "scans_end R rank" using assms(2) by (auto simp: scan_ok_def)
  have "\<exists>s'. cleanup_loop R c ?cutoff cur s = Some (None, s') \<and> keeps ?cutoff (content s) (content s')" for cur
  proof (induction cur arbitrary: s rule: measure_induct_rule [of rank])
    case (less cur)
    obtain page nxt where page: "Scan R s c cur ''peer:*'' = Some (page, nxt)" "nxt \<noteq> 0 \<longrightarrow> rank nxt < rank cur"
      using rank unfolding scans_end_def by meson
    have "\<forall>k \<in> set page. key_match ''peer:*'' k" 
      using assms(2) page(1) unfolding scan_ok_def scans_match_def by blast
    then obtain s1 where s1: "clean_keys R c ?cutoff s page = Some s1" "keeps ?cutoff (content s) (content s1)"
      using clean_keys_step [OF assms] by blast
    show ?case
    proof (cases "nxt = 0")
      case True
      have "cleanup_loop R c ?cutoff cur s = Some (None, s1)"
        using True page(1) s1(1) by (simp add: cleanup_loop.simps [of R c ?cutoff cur])
      then show ?thesis using s1(2) by blast
    next
      case False
      then have "rank nxt < rank cur" using page(2) by simp
      from less [OF this, of s1] obtain s2 where
        s2: "cleanup_loop R c ?cutoff nxt s1 = Some (None, s2)" "keeps ?cutoff (content s1) (content s2)" by auto
      have "cleanup_loop R c ?cutoff cur s = Some (None, s2)"
        using False page(1) s1(1) s2(1) by (simp add: cleanup_loop.simps [of R c ?cutoff cur])
      then show ?thesis using keeps_trans [OF s1(2) s2(2)] by blast
    qed
  qed
  then show ?thesis by (simp add: red_CleanupExpiredPeers_def)
qed


lemma scan_ok_model [simp]: "scan_ok model_redis id"
proof -
  have page: "Scan model_redis s c cur pattern =
      Some (filter (\<lambda>k. if pattern = ''peer:*'' then take 5 k = ''peer:'' else set_key k)
        (key_order (fmdom (hashes s) |\<union>| fmdom (members s))), 0)" for s c cur pattern
    by (simp add: model_redis_def)
  have "scans_end model_redis (\<lambda>_. 0)" by (simp add: scans_end_def page)
  moreover have "scans_match model_redis"
    unfolding scans_match_def by (auto simp: page key_match_def)
  moreover have "scans_cover model_redis id"
    unfolding scans_cover_def
  proof (intro allI impI)
    fix s c pattern ks
    assume a: "(pattern = ''peer:*'' \<or> pattern = ''torrent:*:peers'') \<and> scanned model_redis s c pattern 0 ks"
    from conjunct2 [OF a]
    have "ks = filter (\<lambda>k. if pattern = ''peer:*'' then take 5 k = ''peer:'' else set_key k)
        (key_order (fmdom (hashes s) |\<union>| fmdom (members s)))"
      by (cases rule: scanned.cases) (auto simp: page)
    then show "set ks = matching_keys (id s) pattern"
      using conjunct1 [OF a] by (auto simp: matching_keys_def key_match_def)
  qed
  ultimately show ?thesis unfolding scan_ok_def by blast
qed

theorem redis_cleanup_ends_witness:
  "\<exists>C. red_CleanupExpiredPeers model_redis
      \<lparr>hashes = fmupd (peerKey ''a'') (fmupd ''last_seen'' (itoa 10) fmempty) fmempty, members = fmempty\<rparr> key_order 0 = Some (None, C) \<and>
     hash_at C (peerKey ''a'') = fmupd ''last_seen'' (itoa 10) fmempty"
proof -
  let ?C = "\<lparr>hashes = fmupd (peerKey ''a'') (fmupd ''last_seen'' (itoa 10) fmempty) fmempty, members = fmempty\<rparr>"
  have ten: "int64_ok 10" by (simp add: int64_ok_def)
  have "\<not> expired ?C (unix_secs (0 - minutes 30)) ''a''"
    using ParseInt_itoa [OF ten] by (simp add: expired_def hash_at_def unix_secs_def minutes_def)
  moreover have "hash_at ?C (peerKey ''a'') = fmupd ''last_seen'' (itoa 10) fmempty" by (simp add: hash_at_def)
  ultimately show ?thesis
    using redis_cleanup_ends [OF redis_ok_model scan_ok_model, of ?C key_order 0] unfolding keeps_def by auto
qed

end
