(* ===== verification/Terminal.thy ===== *)
theory Terminal
  imports Go_Text Go_Float
begin

text \<open>
  What the commands print, \<open>src/cmd/ui.go\<close>.  A function that prints is the text it prints, in UTF-8 with
  the escape sequences of the colours; \<open>strings.Repeat\<close> panics for a negative count.
\<close>

section \<open>Colours and boxes\<close>

definition esc :: "string \<Rightarrow> string" where
  "esc s = CHR 0x1B # ''['' @ s @ ''m''"

definition Reset :: string where "Reset = esc ''0''"
definition Bold :: string where "Bold = esc ''1''"
definition Dim :: string where "Dim = esc ''2''"
definition Red :: string where "Red = esc ''31''"
definition Green :: string where "Green = esc ''32''"
definition Yellow :: string where "Yellow = esc ''33''"
definition Blue :: string where "Blue = esc ''34''"
definition Magenta :: string where "Magenta = esc ''35''"
definition Cyan :: string where "Cyan = esc ''36''"
definition White :: string where "White = esc ''37''"
definition BgBlue :: string where "BgBlue = esc ''44''"
definition BgMagenta :: string where "BgMagenta = esc ''45''"
definition BgCyan :: string where "BgCyan = esc ''46''"

lemmas colours = Reset_def Bold_def Dim_def Red_def Green_def Yellow_def Blue_def Magenta_def Cyan_def White_def

abbreviation newline :: string where
  "newline \<equiv> [CHR 0x0A]"

definition horizontal :: string where "horizontal = [CHR 0xE2, CHR 0x94, CHR 0x80]"
definition vertical :: string where "vertical = [CHR 0xE2, CHR 0x94, CHR 0x82]"
definition round_corners :: "string \<times> string \<times> string \<times> string" where
  "round_corners = ([CHR 0xE2, CHR 0x95, CHR 0xAD], [CHR 0xE2, CHR 0x95, CHR 0xAE],
     [CHR 0xE2, CHR 0x95, CHR 0xB0], [CHR 0xE2, CHR 0x95, CHR 0xAF])"
definition square_corners :: "string \<times> string \<times> string \<times> string" where
  "square_corners = ([CHR 0xE2, CHR 0x94, CHR 0x8C], [CHR 0xE2, CHR 0x94, CHR 0x90],
     [CHR 0xE2, CHR 0x94, CHR 0x94], [CHR 0xE2, CHR 0x94, CHR 0x98])"
definition triangle :: string where "triangle = [CHR 0xE2, CHR 0x96, CHR 0xB8]"
definition check_mark :: string where "check_mark = [CHR 0xE2, CHR 0x9C, CHR 0x93]"
definition cross_mark :: string where "cross_mark = [CHR 0xE2, CHR 0x9C, CHR 0x97]"
definition warning_sign :: string where "warning_sign = [CHR 0xE2, CHR 0x9A, CHR 0xA0]"
definition arrow :: string where "arrow = [CHR 0xE2, CHR 0x86, CHR 0x92]"

definition Repeat :: "string \<Rightarrow> int \<Rightarrow> go_panic + string" where
  "Repeat s n = (if n < 0 then Inl NegativeRepeat else Inr (concat (replicate (nat n) s)))"

text \<open>The verb \<open>%-12s\<close> counts runes; the labels of the program are ASCII.\<close>

definition is_continuation :: "char \<Rightarrow> bool" where
  "is_continuation c \<longleftrightarrow> 0x80 \<le> (of_char c :: nat) \<and> (of_char c :: nat) < 0xC0"

definition rune_count :: "string \<Rightarrow> nat" where
  "rune_count s = length (filter (\<lambda>c. \<not> is_continuation c) s)"

definition pad12 :: "string \<Rightarrow> string" where
  "pad12 s = s @ replicate (12 - rune_count s) CHR '' ''"

section \<open>Printing\<close>

text \<open>The logo, a raw string that starts and ends with a newline; both variables hold the same text.\<close>

abbreviation backslash :: string where
  "backslash \<equiv> [CHR 0x5C]"

abbreviation quote :: string where
  "quote \<equiv> [CHR 0x27]"

definition logo_lines :: "string list" where
  "logo_lines =
    [''        _      _                            _'',
     ''  _ __ (_)_  _| |_ ___  _ __ _ __ ___ _ __ | |_'',
     '' | '' @ quote @ ''_ '' @ backslash @ ''| '' @ backslash @ '' '' @ backslash @ ''/ / __/ _ '' @ backslash @ ''| '' @ quote @ ''__| '' @ quote @ ''__/ _ '' @ backslash @ '' '' @ quote @ ''_ '' @ backslash @ ''| __|'',
     '' | |_) | |>  <| || (_) | |  | | |  __/ | | | |_'',
     '' | .__/|_/_/'' @ backslash @ ''_'' @ backslash @ backslash @ ''__'' @ backslash @ ''___/|_|  |_|  '' @ backslash @ ''___|_| |_|'' @ backslash @ ''__|'',
     '' |_|'']"

definition logo :: string where
  "logo = newline @ concat (map (\<lambda>l. l @ newline) logo_lines)"

definition logoSmall :: string where
  "logoSmall = newline @ concat (map (\<lambda>l. l @ newline) logo_lines)"

definition PrintLogo :: string where
  "PrintLogo = Cyan @ Bold @ logo @ newline @ Reset"

definition PrintLogoSmall :: string where
  "PrintLogoSmall = Cyan @ Bold @ logoSmall @ newline @ Reset"

definition PrintHeader :: "string \<Rightarrow> go_panic + string" where
  "PrintHeader title =
     (let width = 50; padding = (width - int (length title) - 2) sdiv 2;
          (tl, tr, bl, br) = round_corners in
      bindE (Repeat horizontal width) (\<lambda>bar.
      bindE (Repeat '' '' padding) (\<lambda>left.
      bindE (Repeat '' '' (width - padding - int (length title) - 2)) (\<lambda>right.
        Inr (newline @ Cyan @ ''  '' @ tl @ bar @ tr @ newline @
          ''  '' @ vertical @ left @ '' '' @ (Bold @ White) @ title @ (Reset @ Cyan) @ '' '' @ right @ vertical @ newline @
          ''  '' @ bl @ bar @ br @ newline @ Reset)))))"

definition bar :: "nat \<Rightarrow> string" where
  "bar n = concat (replicate n horizontal)"

definition PrintSection :: "string \<Rightarrow> string" where
  "PrintSection title = newline @ ''  '' @ Bold @ Magenta @ triangle @ '' '' @ title @ Reset @ newline @
     ''  '' @ Dim @ bar 48 @ Reset @ newline"

definition PrintKeyValue :: "string \<Rightarrow> string \<Rightarrow> string" where
  "PrintKeyValue key v = ''  '' @ Dim @ pad12 key @ Reset @ '' '' @ White @ v @ Reset @ newline"

definition PrintKeyValueHighlight :: "string \<Rightarrow> string \<Rightarrow> string" where
  "PrintKeyValueHighlight key v = ''  '' @ Dim @ pad12 key @ Reset @ '' '' @ Bold @ Cyan @ v @ Reset @ newline"

definition PrintSuccess :: "string \<Rightarrow> string" where
  "PrintSuccess msg = newline @ ''  '' @ Bold @ Green @ check_mark @ '' '' @ msg @ Reset @ newline"

definition PrintError :: "string \<Rightarrow> string" where
  "PrintError msg = newline @ ''  '' @ Bold @ Red @ cross_mark @ '' '' @ msg @ Reset @ newline"

definition PrintWarning :: "string \<Rightarrow> string" where
  "PrintWarning msg = newline @ ''  '' @ Bold @ Yellow @ warning_sign @ '' '' @ msg @ Reset @ newline"

definition PrintInfo :: "string \<Rightarrow> string" where
  "PrintInfo msg = ''  '' @ Dim @ Cyan @ arrow @ '' '' @ msg @ Reset @ newline"

definition PrintCommand :: "string \<Rightarrow> string" where
  "PrintCommand c = newline @ ''  '' @ Bold @ Green @ ''$ '' @ c @ Reset @ newline"

definition PrintDivider :: string where
  "PrintDivider = newline @ ''  '' @ Dim @ bar 50 @ Reset @ newline"

definition PrintStatus :: "string \<Rightarrow> string \<Rightarrow> string \<Rightarrow> string" where
  "PrintStatus label status colour =
     ''  '' @ Dim @ pad12 label @ Reset @ '' ['' @ Bold @ colour @ status @ Reset @ '']'' @ newline"

text \<open>The rows of a box; the padding is never negative, because the widest line sets the width.\<close>

definition max_len :: "string list \<Rightarrow> nat" where
  "max_len ls = foldl (\<lambda>m l. if length l > m then length l else m) 0 ls"

definition box_row :: "nat \<Rightarrow> string \<Rightarrow> string" where
  "box_row width l = ''  '' @ vertical @ '' '' @ Reset @ l @ Dim @ replicate (width - length l - 2) CHR '' '' @ '' '' @ vertical"

definition box_rows :: "string list \<Rightarrow> string list" where
  "box_rows ls =
     (let width = max_len ls + 4; (tl, tr, bl, br) = square_corners in
      [''  '' @ tl @ bar width @ tr] @ map (box_row width) ls @ [''  '' @ bl @ bar width @ br])"

definition PrintBox :: "string list \<Rightarrow> string" where
  "PrintBox ls = newline @ Dim @ concat (map (\<lambda>r. r @ newline) (box_rows ls)) @ Reset"

section \<open>Sizes\<close>

text \<open>The verb \<open>%.1f\<close> for a value that is not negative: the nearest tenth, ties to even.\<close>

definition fmt_1f :: "rat \<Rightarrow> string" where
  "fmt_1f x = (let q = round_half_even (x * 10) in itoa (q div 10) @ ''.'' @ [digit_char (nat (q mod 10))])"

function size_loop :: "int \<Rightarrow> int \<Rightarrow> nat \<Rightarrow> int \<times> nat" where
  "size_loop n dv ex = (if n \<ge> 1024 then size_loop (n sdiv 1024) (wrap64 (dv * 1024)) (Suc ex) else (dv, ex))"
  by pat_completeness auto
termination size_loop
  by (relation "measure (\<lambda>(n, _, _). nat n)") (auto simp: signed_divide_int_def)

declare size_loop.simps [simp del]

definition FormatBytes :: "int \<Rightarrow> go_panic + string" where
  "FormatBytes b =
     (if b < 1024 then Inr (itoa b @ '' B'')
      else (case size_loop (b sdiv 1024) 1024 0 of
          (dv, ex) \<Rightarrow>
            if ex < length ''KMGTPE''
            then Inr (fmt_1f (fl (fl (of_int b) / fl (of_int dv))) @ '' '' @ [''KMGTPE'' ! ex] @ ''B'')
            else Inl IndexOutOfRange))"

section \<open>Boxes are aligned\<close>

text \<open>
  The columns a row takes on a terminal: an escape sequence takes none, nor does a continuation byte.
\<close>

function columns :: "string \<Rightarrow> nat" where
  "columns [] = 0"
| "columns (c # cs) =
     (if c = CHR 0x1B then columns (drop 1 (dropWhile (\<lambda>c. c \<noteq> CHR ''m'') cs))
      else if is_continuation c then columns cs else Suc (columns cs))"
  by pat_completeness auto
termination columns
proof (relation "measure length")
  fix c :: char and cs
  have "length (dropWhile (\<lambda>c. c \<noteq> CHR ''m'') cs) \<le> length cs" by (rule length_dropWhile_le)
  then have "length (drop 1 (dropWhile (\<lambda>c. c \<noteq> CHR ''m'') cs)) \<le> length cs" by simp
  then show "(drop 1 (dropWhile (\<lambda>c. c \<noteq> CHR ''m'') cs), c # cs) \<in> measure length" by simp
qed simp_all

definition printable :: "string \<Rightarrow> bool" where
  "printable s \<longleftrightarrow> (\<forall>c \<in> set s. 0x20 \<le> (of_char c :: nat) \<and> (of_char c :: nat) < 0x7F)"

lemma columns_printable: "printable s \<Longrightarrow> columns (s @ t) = length s + columns t"
  by (induction s) (auto simp: printable_def is_continuation_def)

lemma columns_esc: "CHR ''m'' \<notin> set s \<Longrightarrow> columns (esc s @ t) = columns t"
proof -
  assume "CHR ''m'' \<notin> set s"
  then have "dropWhile (\<lambda>c. c \<noteq> CHR ''m'') (''['' @ s @ ''m'' @ t) = ''m'' @ t"
    by (induction s) auto
  then show ?thesis by (simp add: esc_def)
qed

lemma columns_symbols [simp]:
  "columns (horizontal @ t) = Suc (columns t)" "columns (vertical @ t) = Suc (columns t)"
  "columns (Reset @ t) = columns t" "columns (Dim @ t) = columns t"
  by (simp_all add: horizontal_def vertical_def is_continuation_def Reset_def Dim_def columns_esc)

lemma columns_last [simp]: "columns vertical = 1"
  using columns_symbols(2) [of "[]"] by simp

lemma columns_bar [simp]: "columns (bar n @ t) = n + columns t"
  by (induction n) (simp_all add: bar_def)

lemma max_len_ge: "l \<in> set ls \<Longrightarrow> length l \<le> max_len ls"
proof -
  let ?F = "\<lambda>m ls. foldl (\<lambda>m l. if length l > m then length l else m) m ls"
  have "m \<le> ?F m ls \<and> (\<forall>l \<in> set ls. length l \<le> ?F m ls)" for m and ls :: "string list"
  proof (induction ls arbitrary: m)
    case Nil
    show ?case by simp
  next
    case (Cons l ls)
    from Cons.IH [of "if length l > m then length l else m"] show ?case by (auto split: if_splits)
  qed
  then show "l \<in> set ls \<Longrightarrow> length l \<le> max_len ls" by (simp add: max_len_def)
qed

lemma printable_blanks [simp]: "printable (replicate n CHR '' '')" "printable ''  ''" "printable '' ''"
  by (simp_all add: printable_def)

lemma Repeat_bar: "0 \<le> n \<Longrightarrow> Repeat horizontal n = Inr (bar (nat n))"
  by (simp add: Repeat_def bar_def)

lemma Repeat_blanks: "Repeat '' '' n = (if n < 0 then Inl NegativeRepeat else Inr (replicate (nat n) CHR '' ''))"
proof -
  have "concat (replicate k '' '') = replicate k CHR '' ''" for k by (induction k) simp_all
  then show ?thesis by (simp add: Repeat_def)
qed

lemma size_loop_spec:
  assumes "1024 ^ Suc ex \<le> b" and "b < 2 ^ 63"
  shows "\<exists>ex'. size_loop (b div 1024 ^ Suc ex) (1024 ^ Suc ex) ex = (1024 ^ Suc ex', ex') \<and>
    1024 ^ Suc ex' \<le> b \<and> b < 1024 ^ Suc (Suc ex')"
  using assms
proof (induction "nat (b div 1024 ^ Suc ex)" arbitrary: ex rule: less_induct)
  case less
  let ?d = "1024 ^ Suc ex :: int" and ?n = "b div 1024 ^ Suc ex"
  have d: "0 < ?d" by simp
  have pos: "1 \<le> ?n" using less.prems(1) d by (simp add: pos_imp_zdiv_pos_iff int_one_le_iff_zero_less del: power_Suc)
  show ?case
  proof (cases "?n \<ge> 1024")
    case True
    then have "1024 * ?d \<le> ?n * ?d" by (intro mult_right_mono) simp_all
    also have "\<dots> \<le> b" using d by (metis div_mod_decomp_int le_add_same_cancel1 pos_mod_sign)
    finally have big: "1024 ^ Suc (Suc ex) \<le> b" by simp
    have next_div: "b div 1024 ^ Suc (Suc ex) = ?n div 1024" by (metis power_Suc2 zdiv_zmult2_eq zero_le_numeral)
    have "?n sdiv 1024 = b div 1024 ^ Suc (Suc ex)"
      unfolding next_div using pos by (simp add: signed_divide_int_def sgn_if del: power_Suc)
    moreover have "wrap64 (?d * 1024) = 1024 ^ Suc (Suc ex)"
    proof -
      have "int64_ok (1024 ^ Suc (Suc ex))" using big less.prems(2) by (intro int64_ok_small) simp_all
      moreover have "?d * 1024 = 1024 ^ Suc (Suc ex)" by simp
      ultimately show ?thesis by (simp only: wrap64_id)
    qed
    moreover have "nat (b div 1024 ^ Suc (Suc ex)) < nat ?n"
      unfolding next_div using pos by (simp del: power_Suc)
    ultimately show ?thesis
      using less.hyps [of "Suc ex"] big less.prems(2) True by (subst size_loop.simps) (simp del: power_Suc)
  next
    case False
    then have "?n + 1 \<le> 1024" by simp
    then have "(?n + 1) * ?d \<le> 1024 * ?d" using d by (intro mult_right_mono) simp_all
    moreover have "b < (?n + 1) * ?d"
      unfolding distrib_right mult_1 using div_mult_mod_eq [of b ?d] pos_mod_bound [OF d, of b] by linarith
    ultimately have "b < 1024 * ?d" by linarith
    with False less.prems show ?thesis by (subst size_loop.simps) simp
  qed
qed

section \<open>Properties\<close>

text \<open>The text of a size.\<close>

lemma FormatBytes_spec:
  assumes "int64_ok b"
  shows "if b < 1024 then FormatBytes b = Inr (itoa b @ '' B'')
    else \<exists>ex q. ex < 6 \<and> 1024 ^ Suc ex \<le> b \<and> b < 1024 ^ Suc (Suc ex) \<and>
      FormatBytes b = Inr (fmt_1f q @ '' '' @ [''KMGTPE'' ! ex] @ ''B'') \<and>
      (b < 2 ^ 53 \<longrightarrow> q = of_int b / 1024 ^ Suc ex)"
proof (cases "b < 1024")
  case True
  then show ?thesis by (simp add: FormatBytes_def)
next
  case False
  then have "b sdiv 1024 = b div 1024 ^ Suc 0" by (simp add: signed_divide_int_def sgn_if)
  moreover have "b < 2 ^ 63" using assms by (simp add: int64_ok_def)
  ultimately obtain ex where loop: "size_loop (b sdiv 1024) 1024 0 = (1024 ^ Suc ex, ex)"
      "1024 ^ Suc ex \<le> b" "b < 1024 ^ Suc (Suc ex)"
    using size_loop_spec [of 0 b] False by auto
  have "ex < 6"
  proof (rule ccontr)
    assume "\<not> ex < 6"
    then have "(1024 :: int) ^ Suc 6 \<le> 1024 ^ Suc ex" by (intro power_increasing) simp_all
    with loop(2) \<open>b < 2 ^ 63\<close> show False by simp
  qed
  moreover define q where "q = fl (fl (of_int b) / fl (of_int (1024 ^ Suc ex)))"
  moreover have "FormatBytes b = Inr (fmt_1f q @ '' '' @ [''KMGTPE'' ! ex] @ ''B'')"
    using False \<open>ex < 6\<close> by (simp add: FormatBytes_def loop(1) q_def del: power_Suc)
  moreover have "q = of_int b / 1024 ^ Suc ex" if "b < 2 ^ 53"
  proof -
    have "fl (of_int b) = of_int b" "fl (of_int (1024 ^ Suc ex)) = of_int (1024 ^ Suc ex)"
      using that loop(2) False by (simp_all add: fl_int del: of_int_power power_Suc)
    moreover have "(1024 :: rat) ^ Suc ex = (2 ^ 10) ^ Suc ex" by simp
    then have "(1024 :: rat) ^ Suc ex = 2 ^ (10 * Suc ex)" by (simp only: power_mult)
    ultimately show ?thesis
      using fl_dyadic [of b "10 * Suc ex"] that False by (simp add: q_def del: power_Suc)
  qed
  ultimately show ?thesis using False loop(2,3) by auto
qed

text \<open>
  A size is printed with the unit that fits it: bytes below 1024, and above that the largest power of
  1024 that does not exceed it, for every 64-bit number; the table of units is never exceeded.
\<close>

theorem FormatBytes_unit:
  assumes "int64_ok b"
  shows "if b < 1024 then FormatBytes b = Inr (itoa b @ '' B'')
    else \<exists>ex q. ex < 6 \<and> 1024 ^ Suc ex \<le> b \<and> b < 1024 ^ Suc (Suc ex) \<and>
      FormatBytes b = Inr (fmt_1f q @ '' '' @ [''KMGTPE'' ! ex] @ ''B'') \<and>
      (b < 2 ^ 53 \<longrightarrow> q = of_int b / 1024 ^ Suc ex)"
  by (rule FormatBytes_spec [OF assms])

theorem FormatBytes_unit_witness: "FormatBytes 16384 = Inr ''16.0 KB''"
proof -
  obtain ex q where q: "ex < 6" "1024 ^ Suc ex \<le> (16384 :: int)"
      "FormatBytes 16384 = Inr (fmt_1f q @ '' '' @ [''KMGTPE'' ! ex] @ ''B'')" "q = 16384 / 1024 ^ Suc ex"
    using FormatBytes_unit [of 16384] by (auto simp: int64_ok_def simp del: power_Suc)
  have "ex = 0"
  proof (rule ccontr)
    assume "ex \<noteq> 0"
    then have "(1024 :: int) ^ 2 \<le> 1024 ^ Suc ex" by (intro power_increasing) simp_all
    with q(2) show False by simp
  qed
  with q(3,4) show ?thesis
    using round_half_even_int [of 160] by (simp add: fmt_1f_def Let_def itoa_def utoa.simps digit_char_def)
qed

lemma FormatBytes_total: "int64_ok b \<Longrightarrow> \<exists>s. FormatBytes b = Inr s"
  using FormatBytes_spec [of b] by (auto split: if_splits)

text \<open>The rounding comes after the choice of the unit: just below a mebibyte, 1024 kibibytes are printed.\<close>

lemma FormatBytes_rounds_up: "FormatBytes 1048575 = Inr ''1024.0 KB''"
proof -
  have "size_loop 1023 1024 0 = (1024, 0)" by (subst size_loop.simps) simp
  moreover have "fl (1048575 / 1024) = 1048575 / 1024" using fl_dyadic [of 1048575 10] by simp
  then have "fl (fl 1048575 / fl 1024) = 1048575 / 1024" using fl_int [of 1048575] fl_int [of 1024] by simp
  moreover have "floor (10485750 / 1024 :: rat) = 10239" by (simp add: floor_eq_iff)
  then have "round_half_even (1048575 / 1024 * 10) = 10240" by (simp add: round_half_even_def)
  then have "fmt_1f (1048575 / 1024) = ''1024.0''"
    by (simp add: fmt_1f_def Let_def itoa_def utoa.simps digit_char_def)
  ultimately have "fmt_1f (fl (fl 1048575 / fl 1024)) = ''1024.0''"
    using \<open>fl (fl 1048575 / fl 1024) = 1048575 / 1024\<close> by (simp only:)
  with \<open>size_loop 1023 1024 0 = (1024, 0)\<close> show ?thesis by (simp add: FormatBytes_def signed_divide_int_def)
qed

text \<open>
  Every row of a box takes the same number of columns, whatever printable lines it holds, and the
  padding of a row is never negative.
\<close>

theorem PrintBox_aligned:
  assumes "\<forall>l \<in> set ls. printable l" and "r \<in> set (box_rows ls)"
  shows "columns r = max_len ls + 8"
proof -
  have "columns (box_row (max_len ls + 4) l) = max_len ls + 8" if "l \<in> set ls" for l
  proof -
    have "printable l" and "length l \<le> max_len ls" using assms(1) that max_len_ge by blast+
    then show ?thesis
      by (simp add: box_row_def columns_printable del: append_Cons append_Nil)
  qed
  moreover have "columns (''  '' @ [CHR 0xE2, CHR 0x94, CHR 0x8C] @ bar (max_len ls + 4) @ [CHR 0xE2, CHR 0x94, CHR 0x90]) = max_len ls + 8"
    and "columns (''  '' @ [CHR 0xE2, CHR 0x94, CHR 0x94] @ bar (max_len ls + 4) @ [CHR 0xE2, CHR 0x94, CHR 0x98]) = max_len ls + 8"
    by (simp_all add: is_continuation_def)
  ultimately show ?thesis
    using assms(2) unfolding box_rows_def Let_def square_corners_def prod.case set_append set_map
    by (auto simp del: columns.simps append_Cons append_Nil)
qed

text \<open>A header has room for a title of 48 bytes; a longer one panics.\<close>

lemma PrintHeader_panic_iff: "(\<exists>p. PrintHeader title = Inl p) \<longleftrightarrow> 48 < length title"
proof -
  let ?n = "int (length title)"
  let ?p = "(50 - ?n - 2) sdiv 2"
  have "?p < 0 \<or> 50 - ?p - ?n - 2 < 0 \<longleftrightarrow> 48 < ?n"
  proof (cases "?n \<le> 48")
    case True
    then have "?p = (48 - ?n) div 2" by (simp add: signed_divide_int_def sgn_if)
    moreover have "0 \<le> (48 - ?n) div 2" "(48 - ?n) div 2 \<le> 48 - ?n" using True by simp_all
    ultimately show ?thesis using True by simp
  next
    case False
    then have "?p = - ((?n - 48) div 2)" by (simp add: signed_divide_int_def sgn_if)
    moreover have "?n - 48 = 1 \<or> 0 < (?n - 48) div 2" using False by linarith
    ultimately show ?thesis using False by auto
  qed
  then show ?thesis
    by (auto simp: PrintHeader_def Let_def round_corners_def Repeat_def bindE_def)
qed

end
