(* ===== verification/Sha1_Vector.thy ===== *)
theory Sha1_Vector
  imports Sha1
begin

text \<open>
  A known answer for the model of SHA-1: the digest of the one-byte message 7, evaluated in pieces that
  the kernel computes quickly.  It agrees with every other implementation, and the examples that run a
  whole download seed this file.
\<close>

lemma sha1_rounds_append:
  "sha1_rounds t (us @ vs) s = sha1_rounds (t + length us) vs (sha1_rounds t us s)"
  by (induction us arbitrary: t s) simp_all

lemma sha1_schedule_append:
  "16 \<le> length ws \<Longrightarrow> sha1_schedule n (ws @ old) = sha1_schedule n ws @ old"
proof (induction n arbitrary: ws)
  case 0
  show ?case by simp
next
  case (Suc n)
  from Suc.prems have "(ws @ old) ! i = ws ! i" if "i < 16" for i using that by (simp add: nth_append)
  with Suc.IH [of "rotl 1 (ws ! 2 XOR ws ! 7 XOR ws ! 13 XOR ws ! 15) # ws"] Suc.prems show ?case by simp
qed

lemma sha1_schedule_add: "sha1_schedule (m + n) ws = sha1_schedule n (sha1_schedule m ws)"
  by (induction m arbitrary: ws) simp_all

text \<open>The schedule of a block, from four steps of sixteen words.\<close>

lemma sha1_schedule_64:
  assumes "sha1_schedule 16 w0 = w1 @ w0" and "sha1_schedule 16 w1 = w2 @ w1"
    and "sha1_schedule 16 w2 = w3 @ w2" and "sha1_schedule 16 w3 = w4 @ w3"
    and "length w0 = 16" and "length w1 = 16" and "length w2 = 16" and "length w3 = 16"
  shows "sha1_schedule 64 w0 = w4 @ w3 @ w2 @ w1 @ w0"
proof -
  have "sha1_schedule 64 w0 = sha1_schedule 16 (sha1_schedule 16 (sha1_schedule 16 (sha1_schedule 16 w0)))"
    using sha1_schedule_add [of 16 48 w0] sha1_schedule_add [of 16 32 "sha1_schedule 16 w0"]
      sha1_schedule_add [of 16 16 "sha1_schedule 16 (sha1_schedule 16 w0)"] by simp
  then show ?thesis
    by (simp only: assms sha1_schedule_append order_refl append_assoc)
qed

abbreviation st :: "u32 \<Rightarrow> u32 \<Rightarrow> u32 \<Rightarrow> u32 \<Rightarrow> u32 \<Rightarrow> sha1_state" where
  "st a b c d e \<equiv> \<lparr>sha_a = a, sha_b = b, sha_c = c, sha_d = d, sha_e = e\<rparr>"

section \<open>The message schedule\<close>

text \<open>Sixteen words at a time, newest first.\<close>

definition words_0 :: "u32 list" where
  "words_0 =
     [0x8, 0x0, 0x0, 0x0, 0x0, 0x0, 0x0, 0x0, 0x0, 0x0, 0x0, 0x0, 0x0, 0x0, 0x0, 0x7800000]"

definition words_1 :: "u32 list" where
  "words_1 =
     [0xE0000031, 0x66000100, 0x50, 0xF0000000, 0x80, 0x0, 0x78000000, 0x1E000040, 0x10, 0x3C000000,
     0x20, 0x0, 0x1E000000, 0x10, 0x0, 0xF000000]"

definition words_2 :: "u32 list" where
  "words_2 =
     [0xF80014E7, 0x7800047C, 0x2040, 0x1C000002, 0x33E, 0x60001006, 0x500, 0x7800000F, 0x840,
     0x78000000, 0x80000047, 0x98000401, 0x78000140, 0xC0000043, 0x200, 0x22000000]"

definition words_3 :: "u32 list" where
  "words_3 =
     [0x80084747, 0x1800047E, 0x42C0, 0x3804019C, 0x8001463F, 0xF80047C7, 0x80020447, 0x58000420,
     0x32A0, 0xC0010065, 0x5200, 0xF80000F7, 0x98008441, 0x80000147, 0x478, 0x34004019]"

definition words_4 :: "u32 list" where
  "words_4 =
     [0x8032AF87, 0x410061C4, 0x520600, 0x4000F7FC, 0xE0844799, 0x80014687, 0x47C00, 0xF0401934,
     0x14E778, 0x47C78, 0x204000, 0x21C, 0x80033E07, 0x100260, 0x50000, 0xD8000F7D]"

lemma schedule_0: "sha1_schedule 16 words_0 = words_1 @ words_0"
  unfolding words_0_def words_1_def by code_simp

lemma schedule_1: "sha1_schedule 16 words_1 = words_2 @ words_1"
  unfolding words_1_def words_2_def by code_simp

lemma schedule_2: "sha1_schedule 16 words_2 = words_3 @ words_2"
  unfolding words_2_def words_3_def by code_simp

lemma schedule_3: "sha1_schedule 16 words_3 = words_4 @ words_3"
  unfolding words_3_def words_4_def by code_simp

lemmas words_defs = words_0_def words_1_def words_2_def words_3_def words_4_def

lemma words_length: "length words_0 = 16" "length words_1 = 16" "length words_2 = 16" "length words_3 = 16"
  by (simp_all add: words_defs)

lemma schedule_all: "sha1_schedule 64 words_0 = words_4 @ words_3 @ words_2 @ words_1 @ words_0"
  by (rule sha1_schedule_64) (rule schedule_0 schedule_1 schedule_2 schedule_3 words_length)+

section \<open>The rounds\<close>

lemma rounds_0: "sha1_rounds 0 [0x7800000, 0x0, 0x0, 0x0, 0x0]
     (st 0x67452301 0xEFCDAB89 0x98BADCFE 0x10325476 0xC3D2E1F0) =
     st 0x4B3BD441 0xE1ED3ED9 0x3D634C60 0x5350F8E0 0xE9CD262C"
  by code_simp

lemma rounds_1: "sha1_rounds 5 [0x0, 0x0, 0x0, 0x0, 0x0]
     (st 0x4B3BD441 0xE1ED3ED9 0x3D634C60 0x5350F8E0 0xE9CD262C) =
     st 0xA29260B6 0xA2074BC7 0xD0F6750A 0x473521D 0xB7CEFD13"
  by code_simp

lemma rounds_2: "sha1_rounds 10 [0x0, 0x0, 0x0, 0x0, 0x0]
     (st 0xA29260B6 0xA2074BC7 0xD0F6750A 0x473521D 0xB7CEFD13) =
     st 0x5DA717F6 0xD4ED5873 0x87AE081E 0xDC957D32 0xBA44F7A6"
  by code_simp

lemma rounds_3: "sha1_rounds 15 [0x8, 0xF000000, 0x0, 0x10, 0x1E000000]
     (st 0x5DA717F6 0xD4ED5873 0x87AE081E 0xDC957D32 0xBA44F7A6) =
     st 0x16595BAD 0xF5669BAD 0x37205DCC 0x7A85AE5C 0x1599A749"
  by code_simp

lemma rounds_4: "sha1_rounds 20 [0x0, 0x20, 0x3C000000, 0x10, 0x1E000040]
     (st 0x16595BAD 0xF5669BAD 0x37205DCC 0x7A85AE5C 0x1599A749) =
     st 0x41C0526 0xD0BC93B6 0x131C90D0 0x147394F2 0x42189C32"
  by code_simp

lemma rounds_5: "sha1_rounds 25 [0x78000000, 0x0, 0x80, 0xF0000000, 0x50]
     (st 0x41C0526 0xD0BC93B6 0x131C90D0 0x147394F2 0x42189C32) =
     st 0xFF05EE15 0xA5D2608F 0x47870C92 0xABD56DA7 0xE111B109"
  by code_simp

lemma rounds_6: "sha1_rounds 30 [0x66000100, 0xE0000031, 0x22000000, 0x200, 0xC0000043]
     (st 0xFF05EE15 0xA5D2608F 0x47870C92 0xABD56DA7 0xE111B109) =
     st 0xA3056EDF 0x56795DA9 0xA2502338 0x54748626 0xF80A5888"
  by code_simp

lemma rounds_7: "sha1_rounds 35 [0x78000140, 0x98000401, 0x80000047, 0x78000000, 0x840]
     (st 0xA3056EDF 0x56795DA9 0xA2502338 0x54748626 0xF80A5888) =
     st 0x83EE55D2 0x9C0A52A3 0xADDCE0FF 0x2B8734BC 0x37FC0685"
  by code_simp

lemma rounds_8: "sha1_rounds 40 [0x7800000F, 0x500, 0x60001006, 0x33E, 0x1C000002]
     (st 0x83EE55D2 0x9C0A52A3 0xADDCE0FF 0x2B8734BC 0x37FC0685) =
     st 0x76BD5B9B 0x52943AB3 0xE457AC94 0xEC23E6DF 0xDA9C3B9F"
  by code_simp

lemma rounds_9: "sha1_rounds 45 [0x2040, 0x7800047C, 0xF80014E7, 0x34004019, 0x478]
     (st 0x76BD5B9B 0x52943AB3 0xE457AC94 0xEC23E6DF 0xDA9C3B9F) =
     st 0xD06D6A88 0xC9AE603C 0x4B291E0B 0xE5D703B5 0x95ECEB0"
  by code_simp

lemma rounds_10: "sha1_rounds 50 [0x80000147, 0x98008441, 0xF80000F7, 0x5200, 0xC0010065]
     (st 0xD06D6A88 0xC9AE603C 0x4B291E0B 0xE5D703B5 0x95ECEB0) =
     st 0x4FF680CB 0xF168897E 0xD3EB4ED4 0x968E190E 0xBBF5B80A"
  by code_simp

lemma rounds_11: "sha1_rounds 55 [0x32A0, 0x58000420, 0x80020447, 0xF80047C7, 0x8001463F]
     (st 0x4FF680CB 0xF168897E 0xD3EB4ED4 0x968E190E 0xBBF5B80A) =
     st 0xAD66FAE5 0x2C2444A0 0x192260F6 0x5C749A3 0x4772F293"
  by code_simp

lemma rounds_12: "sha1_rounds 60 [0x3804019C, 0x42C0, 0x1800047E, 0x80084747, 0xD8000F7D]
     (st 0xAD66FAE5 0x2C2444A0 0x192260F6 0x5C749A3 0x4772F293) =
     st 0xC72688CA 0xA75D3EF2 0xC6EB5065 0x1FB1FBD6 0xC9DEA02B"
  by code_simp

lemma rounds_13: "sha1_rounds 65 [0x50000, 0x100260, 0x80033E07, 0x21C, 0x204000]
     (st 0xC72688CA 0xA75D3EF2 0xC6EB5065 0x1FB1FBD6 0xC9DEA02B) =
     st 0x70B3BDB4 0x7E7CC0AF 0x31202741 0x5D885A9F 0xBDC7C426"
  by code_simp

lemma rounds_14: "sha1_rounds 70 [0x47C78, 0x14E778, 0xF0401934, 0x47C00, 0x80014687]
     (st 0x70B3BDB4 0x7E7CC0AF 0x31202741 0x5D885A9F 0xBDC7C426) =
     st 0xD2D2F789 0x6E7A3572 0x837ED4EF 0x7D5EDF50 0xEC5EDD9C"
  by code_simp

lemma rounds_15: "sha1_rounds 75 [0xE0844799, 0x4000F7FC, 0x520600, 0x410061C4, 0x8032AF87]
     (st 0xD2D2F789 0x6E7A3572 0x837ED4EF 0x7D5EDF50 0xEC5EDD9C) =
     st 0xF5D6C4E8 0xEDD442FF 0xFE037E80 0x24760A6B 0xA07FC5C4"
  by code_simp

lemmas rounds = rounds_0 rounds_1 rounds_2 rounds_3 rounds_4 rounds_5 rounds_6 rounds_7 rounds_8 rounds_9 rounds_10 rounds_11 rounds_12 rounds_13 rounds_14 rounds_15

section \<open>The digest\<close>

lemma length_5: "length [a, b, c, d, e] = 5"
  by simp

lemma rounds_all: "sha1_rounds 0 (rev (words_4 @ words_3 @ words_2 @ words_1 @ words_0)) sha1_init =
     st 0xF5D6C4E8 0xEDD442FF 0xFE037E80 0x24760A6B 0xA07FC5C4"
proof -
  have rev: "rev (words_4 @ words_3 @ words_2 @ words_1 @ words_0) =
     [0x7800000, 0x0, 0x0, 0x0, 0x0] @
     [0x0, 0x0, 0x0, 0x0, 0x0] @
     [0x0, 0x0, 0x0, 0x0, 0x0] @
     [0x8, 0xF000000, 0x0, 0x10, 0x1E000000] @
     [0x0, 0x20, 0x3C000000, 0x10, 0x1E000040] @
     [0x78000000, 0x0, 0x80, 0xF0000000, 0x50] @
     [0x66000100, 0xE0000031, 0x22000000, 0x200, 0xC0000043] @
     [0x78000140, 0x98000401, 0x80000047, 0x78000000, 0x840] @
     [0x7800000F, 0x500, 0x60001006, 0x33E, 0x1C000002] @
     [0x2040, 0x7800047C, 0xF80014E7, 0x34004019, 0x478] @
     [0x80000147, 0x98008441, 0xF80000F7, 0x5200, 0xC0010065] @
     [0x32A0, 0x58000420, 0x80020447, 0xF80047C7, 0x8001463F] @
     [0x3804019C, 0x42C0, 0x1800047E, 0x80084747, 0xD8000F7D] @
     [0x50000, 0x100260, 0x80033E07, 0x21C, 0x204000] @
     [0x47C78, 0x14E778, 0xF0401934, 0x47C00, 0x80014687] @
     [0xE0844799, 0x4000F7FC, 0x520600, 0x410061C4, 0x8032AF87]"
    by (simp add: words_defs)
  have init: "sha1_init = st 0x67452301 0xEFCDAB89 0x98BADCFE 0x10325476 0xC3D2E1F0" by (simp add: sha1_init_def)
  show ?thesis unfolding rev init
    by (simp only: sha1_rounds_append length_5 arith_simps add_0 rounds)
qed

lemma sha1_Sum_7: "sha1_Sum [7] =
  [0x5D, 0x1B, 0xE7, 0xE9, 0xDD, 0xA1, 0xEE, 0x88, 0x96, 0xBE, 0x5B, 0x7E, 0x34, 0xA8, 0x5E, 0xE1, 0x64, 0x52, 0xA7, 0xB4]"
proof -
  have pad: "sha1_pad [7] = 7 # 0x80 # replicate 54 0 @ put_u64 8"
    by (simp add: sha1_pad_def)
  have len: "length (put_u64 8) = 8" by (simp add: put_u64_def)
  have words: "rev (sha1_words 16 (take 64 (sha1_pad [7]))) = words_0"
    unfolding words_0_def by code_simp
  have "sha1_blocks (length (sha1_pad [7]) div 64) (sha1_pad [7]) = [take 64 (sha1_pad [7])]"
    by (simp add: pad len)
  moreover have "sha1_block sha1_init (take 64 (sha1_pad [7])) =
      st 0x5D1BE7E9 0xDDA1EE88 0x96BE5B7E 0x34A85EE1 0x6452A7B4"
    unfolding sha1_block_def words schedule_all rounds_all Let_def by (simp add: sha1_init_def)
  ultimately show ?thesis by (simp add: sha1_Sum_def Let_def put_u32_def)
qed

end
