(* ===== verification/Commands.thy ===== *)
theory Commands
  imports Two_Peers Server_Life Redis_Storage Terminal Sha1_Vector
begin

text \<open>
  The commands, \<open>src/cmd/\<close>: what \<open>seed\<close>, \<open>download\<close>, \<open>connect\<close> and \<open>tracker\<close> make of their flags, from
  reading the file to the options of the server they start, and what they print on the way.  The last
  section follows a file from the seeder to the downloader through all parts of the program.  The flags
  are records with the defaults of \<open>init\<close>; how the command line fills them is the business of the cobra
  package, a parameter.  What happens after the start of the server, and on a signal, is the theory \<open>Process\<close>.
\<close>

section \<open>Options\<close>

text \<open>\<open>TorrentServerOpts\<close>, as the commands fill it.\<close>

record server_opts =
  so_listen :: string
  so_infoHash :: id20
  so_tracker :: string
  so_root :: string
  so_format :: string

definition launch :: "server_opts \<Rightarrow> piece_manager \<Rightarrow> id20 \<Rightarrow> bytes option \<Rightarrow> heap \<Rightarrow> node_state option" where
  "launch opts pm peerID rand h =
     new_node peerID (so_tracker opts) (so_listen opts) (so_infoHash opts) rand pm h"

definition listen_on :: "string \<Rightarrow> string" where
  "listen_on port = ''0.0.0.0:'' @ port"

text \<open>The name of the file that \<open>handlePiece\<close> writes in the output directory.\<close>

definition written_name :: "server_opts \<Rightarrow> string" where
  "written_name opts = hex_encode (so_infoHash opts) @ ''.'' @ so_format opts"

section \<open>seed\<close>

record seed_flags =
  sf_file :: string
  sf_port :: string
  sf_tracker :: string
  sf_piece_size :: int

definition default_seed_flags :: seed_flags where
  "default_seed_flags = \<lparr>sf_file = '''', sf_port = ''0'', sf_tracker = ''http://localhost:8080'',
     sf_piece_size = 16384\<rparr>"

text \<open>\<open>filepath.Ext\<close>: from the last dot of the last path element.\<close>

definition filepath_Ext :: "string \<Rightarrow> string" where
  "filepath_Ext path =
     (let base = takeWhile (\<lambda>c. c \<noteq> CHR ''/'') (rev path) in
      if CHR ''.'' \<in> set base then CHR ''.'' # rev (takeWhile (\<lambda>c. c \<noteq> CHR ''.'') base) else [])"

definition file_format :: "string \<Rightarrow> string" where
  "file_format path = (let ext = filepath_Ext path in if length ext > 0 then drop 1 ext else ext)"

definition seed_opts :: "seed_flags \<Rightarrow> id20 \<Rightarrow> server_opts" where
  "seed_opts flags infoHash =
     \<lparr>so_listen = listen_on (sf_port flags), so_infoHash = infoHash, so_tracker = sf_tracker flags,
      so_root = ''downloads'', so_format = file_format (sf_file flags)\<rparr>"

text \<open>The two commands the seeder prints.  A nil slice of hashes prints as the empty text.\<close>

definition hashes_hex :: "piece_manager \<Rightarrow> string" where
  "hashes_hex pm = (case pieceHashes pm of None \<Rightarrow> [] | Some hs \<Rightarrow> hex_encode hs)"

definition download_line :: "server_opts \<Rightarrow> piece_manager \<Rightarrow> string" where
  "download_line opts pm = ''pixtorrent download -i '' @ hex_encode (so_infoHash opts) @ '' -n '' @ itoa (numPieces pm) @
     '' -f '' @ so_format opts @ '' -t '' @ so_tracker opts @ '' -H '' @ hashes_hex pm"

definition connect_line :: "server_opts \<Rightarrow> piece_manager \<Rightarrow> string" where
  "connect_line opts pm = ''pixtorrent connect -i '' @ hex_encode (so_infoHash opts) @ '' -n '' @ itoa (numPieces pm) @
     '' -t '' @ so_tracker opts"

definition seed_output :: "seed_flags \<Rightarrow> nat \<Rightarrow> server_opts \<Rightarrow> piece_manager \<Rightarrow> go_panic + string" where
  "seed_output flags len opts pm =
     bindE (PrintHeader ''SEEDING'') (\<lambda>head.
     bindE (FormatBytes (int len)) (\<lambda>size.
     bindE (FormatBytes (sf_piece_size flags)) (\<lambda>piece_size.
       Inr (PrintLogoSmall @ head @
         PrintSection ''File Info'' @
         PrintKeyValue ''File'' (sf_file flags) @
         PrintKeyValue ''Size'' size @
         PrintKeyValue ''Pieces'' (itoa (numPieces pm) @ '' x '' @ piece_size) @
         PrintSection ''Network'' @
         PrintKeyValueHighlight ''InfoHash'' (hex_encode (so_infoHash opts)) @
         PrintKeyValue ''Tracker'' (sf_tracker flags) @
         PrintSection ''Commands'' @
         PrintKeyValue ''Download'' '''' @
         PrintCommand (download_line opts pm) @
         PrintKeyValue ''Connect'' '''' @
         PrintCommand (connect_line opts pm) @
         PrintDivider @ PrintInfo ''Waiting for peers...''))))"

text \<open>\<open>runSeed\<close> up to the start of the server.\<close>

datatype seed_err = ReadFileFailed

definition seed_command :: "(string \<Rightarrow> bytes option) \<Rightarrow> seed_flags
    \<Rightarrow> seed_err fail + server_opts \<times> piece_manager \<times> string" where
  "seed_command readFile flags =
     (case readFile (sf_file flags) of
        None \<Rightarrow> Inl (Err ReadFileFailed)
      | Some data \<Rightarrow>
          (case runSeed data (sf_piece_size flags) of
             Inl p \<Rightarrow> Inl (Panic p)
           | Inr (infoHash, pm) \<Rightarrow>
               let opts = seed_opts flags infoHash in
               (case seed_output flags (length data) opts pm of
                  Inl p \<Rightarrow> Inl (Panic p)
                | Inr text \<Rightarrow> Inr (opts, pm, text))))"

section \<open>download and connect\<close>

record download_flags =
  df_hash :: string
  df_port :: string
  df_tracker :: string
  df_output :: string
  df_pieces :: int
  df_format :: string
  df_piece_hashes :: string

definition default_download_flags :: download_flags where
  "default_download_flags = \<lparr>df_hash = '''', df_port = ''0'', df_tracker = ''http://localhost:8080'',
     df_output = ''downloads'', df_pieces = 1, df_format = ''bin'', df_piece_hashes = ''''\<rparr>"

definition download_opts :: "download_flags \<Rightarrow> id20 \<Rightarrow> server_opts" where
  "download_opts flags infoHash =
     \<lparr>so_listen = listen_on (df_port flags), so_infoHash = infoHash, so_tracker = df_tracker flags,
      so_root = df_output flags, so_format = df_format flags\<rparr>"

text \<open>The manager has hashes exactly when some were given, which is what the status line shows.\<close>

definition download_output :: "download_flags \<Rightarrow> piece_manager \<Rightarrow> go_panic + string" where
  "download_output flags pm =
     bindE (PrintHeader ''DOWNLOADING'') (\<lambda>head.
       Inr (PrintLogoSmall @ head @
         PrintSection ''Target'' @
         PrintKeyValueHighlight ''InfoHash'' (df_hash flags) @
         PrintKeyValue ''Pieces'' (itoa (df_pieces flags)) @
         PrintSection ''Output'' @
         PrintKeyValue ''Directory'' (df_output flags @ ''/'') @
         PrintKeyValue ''Format'' (''.'' @ df_format flags) @
         PrintSection ''Network'' @
         PrintKeyValue ''Tracker'' (df_tracker flags) @
         (if pieceHashes pm \<noteq> None then PrintStatus ''Verify'' ''enabled'' Green
          else PrintStatus ''Verify'' ''disabled'' Yellow) @
         PrintDivider @ PrintInfo ''Connecting to peers...''))"

definition download_command :: "download_flags \<Rightarrow> setup_err fail + server_opts \<times> piece_manager \<times> string" where
  "download_command flags =
     (case runDownload (df_hash flags) (df_pieces flags) (df_piece_hashes flags) of
        Inl e \<Rightarrow> Inl (Err e)
      | Inr (infoHash, pm) \<Rightarrow>
          (case download_output flags pm of
             Inl p \<Rightarrow> Inl (Panic p)
           | Inr text \<Rightarrow> Inr (download_opts flags infoHash, pm, text)))"

record connect_flags =
  cf_hash :: string
  cf_port :: string
  cf_tracker :: string
  cf_pieces :: int

definition default_connect_flags :: connect_flags where
  "default_connect_flags = \<lparr>cf_hash = '''', cf_port = ''0'', cf_tracker = ''http://localhost:8080'', cf_pieces = 1\<rparr>"

definition connect_opts :: "connect_flags \<Rightarrow> id20 \<Rightarrow> server_opts" where
  "connect_opts flags infoHash =
     \<lparr>so_listen = listen_on (cf_port flags), so_infoHash = infoHash, so_tracker = cf_tracker flags,
      so_root = ''downloads'', so_format = ''bin''\<rparr>"

definition connect_output :: "connect_flags \<Rightarrow> go_panic + string" where
  "connect_output flags =
     bindE (PrintHeader ''CONNECTED'') (\<lambda>head.
       Inr (PrintLogoSmall @ head @
         PrintSection ''Swarm'' @
         PrintKeyValueHighlight ''InfoHash'' (cf_hash flags) @
         PrintKeyValue ''Pieces'' (itoa (cf_pieces flags)) @
         PrintSection ''Network'' @
         PrintKeyValue ''Tracker'' (cf_tracker flags) @
         PrintStatus ''Mode'' ''observer'' Cyan @
         PrintDivider @ PrintInfo ''Joined swarm, listening for peers...''))"

definition connect_command :: "connect_flags \<Rightarrow> setup_err fail + server_opts \<times> piece_manager \<times> string" where
  "connect_command flags =
     (case runConnect (cf_hash flags) (cf_pieces flags) of
        Inl e \<Rightarrow> Inl (Err e)
      | Inr (infoHash, pm) \<Rightarrow>
          (case connect_output flags of
             Inl p \<Rightarrow> Inl (Panic p)
           | Inr text \<Rightarrow> Inr (connect_opts flags infoHash, pm, text)))"

section \<open>tracker\<close>

record tracker_flags =
  tf_addr :: string
  tf_redis :: string
  tf_redisDB :: int
  tf_redisPwd :: string
  tf_memory :: bool

definition default_tracker_flags :: tracker_flags where
  "default_tracker_flags = \<lparr>tf_addr = '':8080'', tf_redis = ''localhost:6379'', tf_redisDB = 0,
     tf_redisPwd = '''', tf_memory = False\<rparr>"

text \<open>
  What the process is made of: its storage, the address of its HTTP server, and whether the goroutine
  that calls \<open>CleanupExpiredPeers\<close> every five minutes is started.
\<close>

datatype storage_choice = InMemory | OnRedis string string int

record tracker_process =
  tp_storage :: storage_choice
  tp_addr :: string
  tp_cleans :: bool

definition tracker_output :: "tracker_flags \<Rightarrow> go_panic + string" where
  "tracker_output flags =
     bindE (PrintHeader ''TRACKER'') (\<lambda>head.
       Inr (PrintLogoSmall @ head @
         PrintSection ''Storage'' @
         (if tf_memory flags then PrintStatus ''Type'' ''in-memory'' Yellow
          else PrintStatus ''Type'' ''redis'' Green @
            PrintKeyValue ''Address'' (tf_redis flags @ ''/'' @ itoa (tf_redisDB flags))) @
         PrintSection ''Server'' @
         PrintKeyValueHighlight ''Listen'' (tf_addr flags) @
         PrintSection ''Endpoints'' @
         PrintKeyValue ''Announce'' (''http://localhost'' @ tf_addr flags @ ''/announce'') @
         PrintKeyValue ''Scrape'' (''http://localhost'' @ tf_addr flags @ ''/scrape'') @
         PrintDivider @ PrintInfo ''Tracker is running...''))"

definition tracker_command :: "tracker_flags \<Rightarrow> go_panic + tracker_process \<times> string" where
  "tracker_command flags =
     (let storage = (if tf_memory flags then InMemory
            else OnRedis (tf_redis flags) (tf_redisPwd flags) (tf_redisDB flags))
      in bindE (tracker_output flags) (\<lambda>text.
           Inr (\<lparr>tp_storage = storage, tp_addr = tf_addr flags, tp_cleans = \<not> tf_memory flags\<rparr>, text)))"

text \<open>
  The stand-alone tracker, \<open>cmd/tracker/main.go\<close>, is configured by environment variables (unset is the
  empty text), needs a Redis server that answers a ping (otherwise \<open>log.Fatalf\<close>, \<open>None\<close>), and starts no
  clean-up.
\<close>

definition getEnvOrDefault :: "(string \<Rightarrow> string) \<Rightarrow> string \<Rightarrow> string \<Rightarrow> string" where
  "getEnvOrDefault env key defaultValue = (let v = env key in if v \<noteq> '''' then v else defaultValue)"

definition tracker_main :: "(string \<Rightarrow> string) \<Rightarrow> (string \<Rightarrow> string \<Rightarrow> int \<Rightarrow> bool) \<Rightarrow> tracker_process option" where
  "tracker_main env ping =
     (let redisAddr = getEnvOrDefault env ''REDIS_ADDR'' ''localhost:6379'';
          redisPassword = getEnvOrDefault env ''REDIS_PASSWORD'' '''';
          trackerAddr = getEnvOrDefault env ''TRACKER_ADDR'' '':8080''
      in if ping redisAddr redisPassword 0
         then Some \<lparr>tp_storage = OnRedis redisAddr redisPassword 0, tp_addr = trackerAddr, tp_cleans = False\<rparr>
         else None)"

section \<open>The printed command\<close>

text \<open>
  A shell cuts a line into words at blanks.  Quoting is left out: the theorems ask that the texts in the
  line hold no blank and nothing else a shell treats specially.
\<close>

fun words_from :: "string \<Rightarrow> string \<Rightarrow> string list" where
  "words_from w [] = (if w = [] then [] else [w])"
| "words_from w (c # cs) =
     (if c = CHR '' '' then (if w = [] then words_from [] cs else w # words_from [] cs)
      else words_from (w @ [c]) cs)"

definition words :: "string \<Rightarrow> string list" where
  "words s = words_from [] s"

fun unwords :: "string list \<Rightarrow> string" where
  "unwords [] = []"
| "unwords [w] = w"
| "unwords (w # v # ws) = w @ '' '' @ unwords (v # ws)"

definition plain_chars :: string where
  "plain_chars = ''abcdefghijklmnopqrstuvwxyzABCDEFGHIJKLMNOPQRSTUVWXYZ0123456789:/.-_@%+=,''"

definition shell_plain :: "string \<Rightarrow> bool" where
  "shell_plain s \<longleftrightarrow> set s \<subseteq> set plain_chars"

lemma shell_plain_append [simp]: "shell_plain (s @ t) \<longleftrightarrow> shell_plain s \<and> shell_plain t"
  by (auto simp: shell_plain_def)

lemma shell_plain_Nil [simp]: "shell_plain []"
  by (simp add: shell_plain_def)

lemma shell_plain_no_blank: "shell_plain s \<Longrightarrow> CHR '' '' \<notin> set s"
  by (auto simp: shell_plain_def plain_chars_def)

lemma words_from_word: "CHR '' '' \<notin> set u \<Longrightarrow> words_from w (u @ t) = words_from (w @ u) t"
  by (induction u arbitrary: w) auto

lemma words_from_unwords:
  "\<forall>w \<in> set ws. CHR '' '' \<notin> set w \<Longrightarrow> words_from [] (unwords ws) = filter (\<lambda>w. w \<noteq> []) ws"
proof (induction ws rule: unwords.induct)
  case (2 w)
  then show ?case using words_from_word [of w "[]" "[]"] by simp
next
  case (3 w v ws)
  then show ?case using words_from_word [of w "[]" "'' '' @ unwords (v # ws)"] by simp
qed simp

lemma words_unwords: "\<forall>w \<in> set ws. shell_plain w \<Longrightarrow> words (unwords ws) = filter (\<lambda>w. w \<noteq> []) ws"
  unfolding words_def using words_from_unwords shell_plain_no_blank by blast

lemma plain_alphabets: "set ''0123456789abcdef'' \<subseteq> set plain_chars" "set ''0123456789'' \<subseteq> set plain_chars"
  by (simp_all add: plain_chars_def)

lemma shell_plain_hex [simp]: "shell_plain (hex_encode bs)"
proof -
  have "hex_char n \<in> set plain_chars" if "n < 16" for n
    unfolding hex_char_def using that by (intro subsetD [OF plain_alphabets(1)] nth_mem) simp
  then show ?thesis by (induction bs) (simp_all add: hex_encode_def hex_byte_def shell_plain_def)
qed

lemma shell_plain_itoa [simp]: "shell_plain (itoa n)"
proof -
  have "set (utoa m) \<subseteq> set plain_chars" for m
  proof
    fix c
    assume "c \<in> set (utoa m)"
    then have "is_digit c" by (rule utoa_digits)
    then show "c \<in> set plain_chars" unfolding is_digit_def by (rule subsetD [OF plain_alphabets(2)])
  qed
  moreover have "CHR ''-'' \<in> set plain_chars" by (simp add: plain_chars_def)
  ultimately show ?thesis by (simp add: shell_plain_def itoa_def)
qed

lemma shell_plain_words [simp]: "w \<in> {''pixtorrent'', ''download'', ''-i'', ''-n'', ''-f'', ''-t'', ''-H''} \<Longrightarrow> shell_plain w"
  by (auto simp: shell_plain_def plain_chars_def)

lemma words_download_line:
  assumes "shell_plain (so_format opts)" and "shell_plain (so_tracker opts)"
  shows "words (download_line opts pm) = filter (\<lambda>w. w \<noteq> [])
    [''pixtorrent'', ''download'', ''-i'', hex_encode (so_infoHash opts), ''-n'', itoa (numPieces pm),
     ''-f'', so_format opts, ''-t'', so_tracker opts, ''-H'', hashes_hex pm]" (is "_ = filter _ ?ws")
proof -
  have "shell_plain (hashes_hex pm)" by (cases "pieceHashes pm") (simp_all add: hashes_hex_def)
  then have "\<forall>w \<in> set ?ws. shell_plain w" using assms by simp
  moreover have "download_line opts pm = unwords ?ws" by (simp add: download_line_def)
  ultimately show ?thesis using words_unwords by metis
qed

section \<open>Seeding from the command line\<close>

lemma headers: "\<exists>s. PrintHeader ''SEEDING'' = Inr s" "\<exists>s. PrintHeader ''DOWNLOADING'' = Inr s"
  "\<exists>s. PrintHeader ''CONNECTED'' = Inr s" "\<exists>s. PrintHeader ''TRACKER'' = Inr s"
proof -
  have "\<exists>s. PrintHeader title = Inr s" if "length title \<le> 48" for title
    using PrintHeader_panic_iff [of title] that by (cases "PrintHeader title") auto
  then show "\<exists>s. PrintHeader ''SEEDING'' = Inr s" "\<exists>s. PrintHeader ''DOWNLOADING'' = Inr s"
    "\<exists>s. PrintHeader ''CONNECTED'' = Inr s" "\<exists>s. PrintHeader ''TRACKER'' = Inr s" by simp_all
qed

lemma sublist_later: "sublist xs zs \<Longrightarrow> sublist xs (ys @ zs)"
  by (simp add: sublist_append)

lemma seed_output_ok:
  assumes "int64_ok (int len)" and "int64_ok (sf_piece_size flags)"
  shows "\<exists>out. seed_output flags len opts pm = Inr out \<and> sublist (PrintCommand (download_line opts pm)) out"
proof -
  obtain head size psize where ok: "PrintHeader ''SEEDING'' = Inr head" "FormatBytes (int len) = Inr size"
      "FormatBytes (sf_piece_size flags) = Inr psize"
    using headers(1) FormatBytes_total assms by metis
  show ?thesis unfolding seed_output_def ok bindE_simps
    by (rule exI, rule conjI, rule refl) (rule sublist_append_rightI | rule sublist_later)+
qed

lemma seed_command_ok:
  assumes "readFile (sf_file flags) = Some data" and "sf_piece_size flags = int k" and "seed_ok data k"
  obtains pm out where "seed_command readFile flags = Inr (seed_opts flags (sha1_Sum data), pm, out)"
    and "runSeed data (int k) = Inr (sha1_Sum data, pm)" and "same_torrent k data pm"
    and "sublist (PrintCommand (download_line (seed_opts flags (sha1_Sum data)) pm)) out"
proof -
  obtain pm where pm: "runSeed data (int k) = Inr (sha1_Sum data, pm)" "same_torrent k data pm"
    using assms(3) by (rule runSeed_ok)
  let ?opts = "seed_opts flags (sha1_Sum data)"
  have "int64_ok (int (length data))" "int64_ok (sf_piece_size flags)"
    using assms(2,3) by (simp_all add: seed_ok_def int64_ok_def)
  from seed_output_ok [OF this, of ?opts pm]
  obtain out where out: "seed_output flags (length data) ?opts pm = Inr out"
    "sublist (PrintCommand (download_line ?opts pm)) out" by blast
  have "seed_command readFile flags = Inr (?opts, pm, out)"
    by (simp add: seed_command_def assms(1,2) pm(1) out(1))
  from that [OF this pm out(2)] show thesis .
qed

lemma download_command_ok:
  assumes "runDownload (df_hash flags) (df_pieces flags) (df_piece_hashes flags) = Inr (h, mgr)"
  obtains out where "download_command flags = Inr (download_opts flags h, mgr, out)"
proof -
  obtain out where "download_output flags mgr = Inr out"
    using headers(2) by (auto simp: download_output_def)
  then show thesis using that assms by (simp add: download_command_def)
qed

section \<open>Properties\<close>

text \<open>
  What is relied on of the flag parser: in the words of a download command each short flag takes the
  word behind it, numbers are read in decimal, and a flag that is not there keeps its default.
\<close>

definition parses_flags :: "(string list \<Rightarrow> download_flags option) \<Rightarrow> bool" where
  "parses_flags parse \<longleftrightarrow> (\<forall>i n f t h. int64_ok n \<longrightarrow>
     parse [''pixtorrent'', ''download'', ''-i'', i, ''-n'', itoa n, ''-f'', f, ''-t'', t, ''-H'', h] =
       Some (default_download_flags\<lparr>df_hash := i, df_pieces := n, df_format := f, df_tracker := t, df_piece_hashes := h\<rparr>))"

lemma chunk_hashes_nonempty:
  assumes "0 < k" and "data \<noteq> []"
  shows "chunk_hashes k data (chunk_count k data) \<noteq> []"
proof -
  have "chunk_count k data \<noteq> 0"
    using chunk_count_enough [OF assms(1), of data] assms(2) by (cases "chunk_count k data") auto
  then have "length (chunk_hashes k data (chunk_count k data)) \<noteq> 0" by simp
  then show ?thesis by (metis length_0_conv)
qed

text \<open>The words of the command, for a seeder of a file that is not empty and has an extension.\<close>

lemma printed_words:
  assumes "same_torrent k data pm" and "data \<noteq> []" and "0 < k"
    and "shell_plain (so_format opts)" and "so_format opts \<noteq> []" and "shell_plain (so_tracker opts)" and "so_tracker opts \<noteq> []"
    and "is20 (so_infoHash opts)"
  shows "words (download_line opts pm) =
    [''pixtorrent'', ''download'', ''-i'', hex_encode (so_infoHash opts), ''-n'', itoa (int (chunk_count k data)),
     ''-f'', so_format opts, ''-t'', so_tracker opts, ''-H'', hex_encode (chunk_hashes k data (chunk_count k data))]"
proof -
  have "chunk_hashes k data (chunk_count k data) \<noteq> []" using chunk_hashes_nonempty assms(2,3) by blast
  moreover have "so_infoHash opts \<noteq> []" using assms(8) by (auto simp: is20_def)
  ultimately show ?thesis
    using assms by (simp add: words_download_line same_torrent_def hashes_hex_def)
qed

text \<open>Pasting the printed command into a shell, in the form the whole run uses.\<close>

lemma paste_command:
  assumes "same_torrent k data pm" and "seed_ok data k" and "data \<noteq> []" and "so_infoHash opts = sha1_Sum data"
    and "shell_plain (so_format opts)" and "so_format opts \<noteq> []" and "shell_plain (so_tracker opts)" and "so_tracker opts \<noteq> []"
    and "parses_flags parse"
  obtains dflags dopts mgr out where "parse (words (download_line opts pm)) = Some dflags"
    and "download_command dflags = Inr (dopts, mgr, out)" and "so_infoHash dopts = sha1_Sum data"
    and "so_tracker dopts = so_tracker opts" and "so_format dopts = so_format opts"
    and "so_listen dopts = listen_on ''0''" and "so_root dopts = ''downloads''"
    and "runDownload (hex_encode (sha1_Sum data)) (numPieces pm) (hex_encode (chunk_hashes k data (chunk_count k data))) =
      Inr (sha1_Sum data, mgr)"
proof -
  let ?n = "chunk_count k data" and ?h = "sha1_Sum data"
  have k: "0 < k" and n: "int64_ok (int ?n)" "numPieces pm = int ?n"
    using assms(1,2) by (simp_all add: seed_ok_def same_torrent_def max_alloc_def int64_ok_def)
  define dflags where "dflags = default_download_flags\<lparr>df_hash := hex_encode ?h, df_pieces := int ?n,
    df_format := so_format opts, df_tracker := so_tracker opts, df_piece_hashes := hex_encode (chunk_hashes k data ?n)\<rparr>"
  have "parse (words (download_line opts pm)) = Some dflags"
    using assms(9) n(1) printed_words [OF assms(1,3) k assms(5-8)] assms(4)
    by (simp add: parses_flags_def dflags_def)
  moreover obtain mgr where mgr: "runDownload (hex_encode ?h) (int ?n) (hex_encode (chunk_hashes k data ?n)) = Inr (?h, mgr)"
    using runDownload_printed [OF k, of data] by blast
  moreover obtain out where "download_command dflags = Inr (download_opts dflags ?h, mgr, out)"
    using download_command_ok [of dflags ?h mgr] mgr by (auto simp: dflags_def)
  ultimately show thesis
    using that n(2) by (auto simp: download_opts_def dflags_def default_download_flags_def)
qed

text \<open>
  C16.  The command the seeder prints, pasted into a shell, starts a downloader of the same torrent: for
  a file that is not empty and has an extension, \<open>seed\<close> succeeds and prints a line whose words are parsed
  into flags with which \<open>download\<close> succeeds, with the same info hash, tracker, number of pieces and
  hashes, no piece yet, and the file name made of the info hash and the extension of the seeded file.
\<close>

theorem printed_command_downloads:
  assumes "readFile (sf_file flags) = Some data" and "sf_piece_size flags = int k" and "seed_ok data k" and "data \<noteq> []"
    and "shell_plain (file_format (sf_file flags))" and "file_format (sf_file flags) \<noteq> []"
    and "shell_plain (sf_tracker flags)" and "sf_tracker flags \<noteq> []" and "parses_flags parse"
  shows "\<exists>opts pm out dflags dopts mgr dout. seed_command readFile flags = Inr (opts, pm, out) \<and>
    sublist (PrintCommand (download_line opts pm)) out \<and>
    parse (words (download_line opts pm)) = Some dflags \<and> download_command dflags = Inr (dopts, mgr, dout) \<and>
    so_infoHash dopts = so_infoHash opts \<and> so_tracker dopts = so_tracker opts \<and>
    written_name dopts = hex_encode (sha1_Sum data) @ ''.'' @ file_format (sf_file flags) \<and>
    numPieces mgr = numPieces pm \<and> pieceHashes mgr = pieceHashes pm \<and> pieces mgr = fmempty"
proof -
  let ?opts = "seed_opts flags (sha1_Sum data)" and ?n = "chunk_count k data"
  obtain pm out where seed: "seed_command readFile flags = Inr (?opts, pm, out)"
      "runSeed data (int k) = Inr (sha1_Sum data, pm)" "same_torrent k data pm" "sublist (PrintCommand (download_line ?opts pm)) out"
    using assms(1-3) by (rule seed_command_ok)
  have opts: "so_infoHash ?opts = sha1_Sum data" "so_format ?opts = file_format (sf_file flags)" "so_tracker ?opts = sf_tracker flags"
    by (simp_all add: seed_opts_def)
  have hs: "pieceHashes pm = Some (chunk_hashes k data ?n)" using seed(3) by (simp add: same_torrent_def)
  obtain dflags dopts mgr dout where dl: "parse (words (download_line ?opts pm)) = Some dflags"
      "download_command dflags = Inr (dopts, mgr, dout)" "so_infoHash dopts = sha1_Sum data"
      "so_tracker dopts = so_tracker ?opts" "so_format dopts = so_format ?opts"
      "runDownload (hex_encode (sha1_Sum data)) (numPieces pm) (hex_encode (chunk_hashes k data ?n)) = Inr (sha1_Sum data, mgr)"
    using paste_command [OF seed(3) assms(3,4) opts(1), of parse] assms(5-9) opts(2,3) by metis
  note start = download_start [OF assms(3) seed(2) hs dl(6)]
  have "numPieces mgr = numPieces pm" "pieceHashes mgr = pieceHashes pm"
    using start(2) start(5) [OF assms(4)] seed(3) by (simp_all add: same_torrent_def)
  then show ?thesis using seed(1,4) dl(1-5) start(3) opts by (auto simp: written_name_def)
qed


text \<open>The parser of the examples reads the flags by their places.\<close>

definition sample_flags :: "string list \<Rightarrow> download_flags option" where
  "sample_flags ws =
     (case ws of
        [_, _, _, i, _, n, _, f, _, t, _, h] \<Rightarrow>
          Some (default_download_flags\<lparr>df_hash := i, df_pieces := fst (ParseInt n), df_format := f,
            df_tracker := t, df_piece_hashes := h\<rparr>)
      | [_, _, _, i, _, n, _, f, _, _, h] \<Rightarrow>
          Some (default_download_flags\<lparr>df_hash := i, df_pieces := fst (ParseInt n), df_format := f,
            df_piece_hashes := h\<rparr>)
      | _ \<Rightarrow> None)"

lemma sample_flags_parses [simp]: "parses_flags sample_flags"
  by (simp add: parses_flags_def sample_flags_def ParseInt_itoa)

definition sample_seed :: "string \<Rightarrow> seed_flags" where
  "sample_seed file = default_seed_flags\<lparr>sf_file := file, sf_piece_size := 1\<rparr>"

lemma sample_seed_simps [simp]:
  "sf_file (sample_seed file) = file" "sf_piece_size (sample_seed file) = int 1"
  "shell_plain (sf_tracker (sample_seed file))" "sf_tracker (sample_seed file) \<noteq> []"
  "file_format ''a.txt'' = ''txt''" "shell_plain ''txt''" "file_format ''a'' = []"
  by (simp_all add: sample_seed_def default_seed_flags_def shell_plain_def plain_chars_def file_format_def
      filepath_Ext_def Let_def)

theorem printed_command_downloads_witness:
  "\<exists>opts pm out dflags dopts mgr dout. seed_command (\<lambda>_. Some [7]) (sample_seed ''a.txt'') = Inr (opts, pm, out) \<and>
     sample_flags (words (download_line opts pm)) = Some dflags \<and> download_command dflags = Inr (dopts, mgr, dout) \<and>
     pieceHashes mgr = pieceHashes pm \<and> written_name dopts = hex_encode (sha1_Sum [7]) @ ''.txt''"
proof -
  have "file_format (sf_file (sample_seed ''a.txt'')) = ''txt''" by simp
  with printed_command_downloads [of "\<lambda>_. Some [7]" "sample_seed ''a.txt''" "[7]" 1 sample_flags, OF _ _ one_byte_seed]
  show ?thesis by fastforce
qed

text \<open>
  For a file without an extension the printed command does not do that: the word behind \<open>-f\<close> is
  \<open>-t\<close>, so the downloader takes \<open>-t\<close> for the format and its tracker is the default one, whatever the
  seeder's tracker is.  (A flag takes the word behind it, and a word left over is ignored.)
\<close>

theorem printed_command_without_extension:
  assumes "readFile (sf_file flags) = Some data" and "sf_piece_size flags = int k" and "seed_ok data k" and "data \<noteq> []"
    and "file_format (sf_file flags) = []" and "shell_plain (sf_tracker flags)" and "sf_tracker flags \<noteq> []"
    and "\<And>i n f t h. int64_ok n \<Longrightarrow>
      parse [''pixtorrent'', ''download'', ''-i'', i, ''-n'', itoa n, ''-f'', f, t, ''-H'', h] =
        Some (default_download_flags\<lparr>df_hash := i, df_pieces := n, df_format := f, df_piece_hashes := h\<rparr>)"
  shows "\<exists>opts pm out dflags dopts mgr dout. seed_command readFile flags = Inr (opts, pm, out) \<and>
    parse (words (download_line opts pm)) = Some dflags \<and> download_command dflags = Inr (dopts, mgr, dout) \<and>
    so_format dopts = ''-t'' \<and> so_tracker dopts = ''http://localhost:8080''"
proof -
  let ?h = "sha1_Sum data" and ?n = "chunk_count k data"
  let ?opts = "seed_opts flags ?h"
  obtain pm out where seed: "seed_command readFile flags = Inr (?opts, pm, out)" "same_torrent k data pm"
    using assms(1-3) by (rule seed_command_ok)
  have k: "0 < k" and n: "int64_ok (int ?n)" using assms(3) by (simp_all add: seed_ok_def max_alloc_def int64_ok_def)
  let ?hs = "hex_encode (chunk_hashes k data ?n)"
  define dflags where "dflags = default_download_flags\<lparr>df_hash := hex_encode ?h, df_pieces := int ?n,
    df_format := ''-t'', df_piece_hashes := ?hs\<rparr>"
  have "chunk_hashes k data ?n \<noteq> []" using chunk_hashes_nonempty [OF k assms(4)] .
  moreover have "?h \<noteq> []" by (metis length_0_conv length_sha1_Sum zero_neq_numeral)
  ultimately have "words (download_line ?opts pm) = [''pixtorrent'', ''download'', ''-i'', hex_encode ?h, ''-n'', itoa (int ?n),
      ''-f'', ''-t'', sf_tracker flags, ''-H'', ?hs]"
    using assms(5-7) seed(2) by (simp add: words_download_line same_torrent_def hashes_hex_def seed_opts_def)
  then have "parse (words (download_line ?opts pm)) = Some dflags" using assms(8) n by (simp add: dflags_def)
  moreover obtain mgr where "runDownload (hex_encode ?h) (int ?n) ?hs = Inr (?h, mgr)"
    using runDownload_printed [OF k, of data] by blast
  then obtain dout where "download_command dflags = Inr (download_opts dflags ?h, mgr, dout)"
    using download_command_ok [of dflags ?h mgr] by (auto simp: dflags_def)
  moreover have "so_format (download_opts dflags ?h) = ''-t''" "so_tracker (download_opts dflags ?h) = ''http://localhost:8080''"
    by (simp_all add: download_opts_def dflags_def default_download_flags_def)
  ultimately show ?thesis using seed(1) by blast
qed

theorem printed_command_without_extension_witness:
  "\<exists>opts pm out dflags dopts mgr dout. seed_command (\<lambda>_. Some [7]) (sample_seed ''a'') = Inr (opts, pm, out) \<and>
     sample_flags (words (download_line opts pm)) = Some dflags \<and> download_command dflags = Inr (dopts, mgr, dout) \<and>
     so_format dopts = ''-t''"
  using printed_command_without_extension [of "\<lambda>_. Some [7]" "sample_seed ''a''" "[7]" 1 sample_flags, OF _ _ one_byte_seed]
  by (fastforce simp: sample_flags_def ParseInt_itoa)

section \<open>Piece sizes that are not positive\<close>

lemma negative_num_pieces:
  assumes "s < 0" and "- (2 ^ 62) \<le> s" and "int len \<le> max_alloc"
  shows "seed_num_pieces (int len) s = Inr
    (if len = 0 \<and> s = - 1 then 2 else if len \<le> 1 then 1 else if int len \<le> 2 * - s then 0
     else - ((int len + s - 1) div - s))"
proof -
  let ?a = "int len + s - 1"
  have "int64_ok (int len + s)" "int64_ok ?a"
    using assms by (simp_all add: int64_ok_def max_alloc_def)
  then have "seed_num_pieces (int len) s = Inr (wrap64 (?a sdiv s))"
    using assms(1) by (simp add: seed_num_pieces_def)
  moreover have quot: "?a sdiv s = (if len = 0 \<and> s = - 1 then 2 else if len \<le> 1 then 1 else if int len \<le> 2 * - s then 0
     else - (?a div - s))"
  proof (cases "len \<le> 1")
    case True
    then have "len = 0 \<or> len = 1" by auto
    then show ?thesis
    proof
      assume [simp]: "len = 0"
      show ?thesis
      proof (cases "s = - 1")
        case False
        then have "(1 - s) div - s = 1" using assms(1) by (intro int_div_pos_eq [of _ _ _ 1]) simp_all
        with False assms(1) show ?thesis by (simp add: signed_divide_int_def sgn_if)
      qed (simp add: signed_divide_int_def)
    qed (use assms(1) in \<open>simp add: signed_divide_int_def\<close>)
  next
    case False
    then show ?thesis using assms(1)
      by (cases "?a < 0") (auto simp: signed_divide_int_def sgn_if zdiv_eq_0_iff)
  qed
  moreover have "int64_ok (?a sdiv s)"
  proof -
    have "?a div - s \<le> ?a" "0 \<le> ?a div - s" if "2 * - s < int len"
      using zdiv_mono2 [of ?a 1 "- s"] that assms(1) by (simp_all add: pos_imp_zdiv_nonneg_iff)
    then show ?thesis using assms unfolding quot by (auto simp: int64_ok_def max_alloc_def)
  qed
  ultimately show ?thesis by simp
qed


text \<open>
  C40.  The piece size flag is not checked.  For sizes from \<open>- (2 ^ 62)\<close> to zero: zero panics with a division by zero.  A negative size panics
  as well when the file has at most one byte (a slice out of range) or more than twice as many bytes as
  the size has units (an allocation of negative length), but in between \<open>seed\<close> succeeds with no piece at
  all: it announces a file that nobody can download.
\<close>

theorem bad_piece_size:
  assumes "readFile (sf_file flags) = Some data" and "sf_piece_size flags \<le> 0" and "- (2 ^ 62) \<le> sf_piece_size flags"
    and "int (length data) \<le> max_alloc"
  shows "if sf_piece_size flags = 0 then seed_command readFile flags = Inl (Panic DivideByZero)
    else if length data \<le> 1 then seed_command readFile flags = Inl (Panic SliceBounds)
    else if int (length data) \<le> 2 * - sf_piece_size flags
    then \<exists>out. seed_command readFile flags =
      Inr (seed_opts flags (sha1_Sum data), NewPieceManagerWithHashes 0 [], out)
    else seed_command readFile flags = Inl (Panic MakesliceLen)"
proof (cases "sf_piece_size flags = 0")
  case True
  then show ?thesis using assms(1) by (simp add: seed_command_def runSeed_def seed_num_pieces_def)
next
  case False
  let ?s = "sf_piece_size flags" and ?len = "length data"
  have s: "?s < 0" using assms(2) False by simp
  note n = negative_num_pieces [OF s assms(3,4)]
  have "\<not> int ?len < ?s" "wrap64 ?s = ?s" using s assms(3) by (simp_all add: int64_ok_def)
  then have cut: "seed_piece data ?s 0 = Inl SliceBounds" using s by (simp add: seed_piece_def go_slice_def)
  have small: "runSeed data ?s = Inl SliceBounds" if "?len \<le> 1"
    using n that cut by (auto simp: runSeed_def make_bytes_def max_alloc_def upt_rec int64_ok_def)
  have none: "runSeed data ?s = Inr (sha1_Sum data, NewPieceManagerWithHashes 0 [])"
    if "1 < ?len" "int ?len \<le> 2 * - ?s"
    using n that by (cases "data = []") (simp_all add: runSeed_def make_bytes_def max_alloc_def int64_ok_def)
  have large: "runSeed data ?s = Inl MakesliceLen" if "1 < ?len" "2 * - ?s < int ?len"
  proof -
    let ?a = "int ?len + ?s - 1"
    have "?a div - ?s \<le> ?a" "0 < ?a div - ?s"
      using zdiv_mono2 [of ?a 1 "- ?s"] that s by (simp_all add: pos_imp_zdiv_pos_iff)
    moreover from this have "int64_ok (- (?a div - ?s) * 20)" using assms(4) s by (simp add: int64_ok_def max_alloc_def)
    ultimately show ?thesis using n that by (cases "data = []") (simp_all add: runSeed_def make_bytes_def)
  qed
  have "int64_ok (int ?len)" "int64_ok ?s" using assms(3,4) s by (simp_all add: int64_ok_def max_alloc_def)
  from seed_output_ok [OF this]
  obtain out where "seed_output flags ?len (seed_opts flags (sha1_Sum data)) (NewPieceManagerWithHashes 0 []) = Inr out"
    by blast
  with False small none large show ?thesis by (simp add: seed_command_def assms(1))
qed

theorem bad_piece_size_witness:
  "\<exists>out. seed_command (\<lambda>_. Some [1, 2, 3]) (sample_seed ''a''\<lparr>sf_piece_size := - 2\<rparr>) =
     Inr (seed_opts (sample_seed ''a''\<lparr>sf_piece_size := - 2\<rparr>) (sha1_Sum [1, 2, 3]), NewPieceManagerWithHashes 0 [], out)"
  using bad_piece_size [of "\<lambda>_. Some [1, 2, 3]" "sample_seed ''a''\<lparr>sf_piece_size := - 2\<rparr>" "[1, 2, 3]"]
  by (simp add: max_alloc_def)

end
