(* ===== verification/Whole_Run.thy ===== *)
theory Whole_Run
  imports Commands
begin

text \<open>
  A file on its way through the whole program: \<open>seed\<close> reads it and starts a server, which announces itself
  to a tracker; the command it prints, pasted into another shell, starts a downloader, which announces
  itself to the same tracker, learns the address of the seeder, dials it, shakes hands, and within six
  turns writes the file.  The theorem composes the main lemmas of the theories below it.
\<close>

section \<open>What a launch fixes\<close>

lemma launch_new:
  "launch opts pm i rand heap = Some nd \<longleftrightarrow>
   new_node i (so_tracker opts) (so_listen opts) (so_infoHash opts) rand pm heap = Some nd"
  by (simp add: launch_def)

text \<open>What \<open>seed\<close> has prepared, when it has succeeded.\<close>

lemma seed_command_result:
  assumes "readFile (sf_file flags) = Some data" and "sf_piece_size flags = int k" and "seed_ok data k"
    and "seed_command readFile flags = Inr (opts, pm, out)"
  shows "opts = seed_opts flags (sha1_Sum data)" and "runSeed data (int k) = Inr (sha1_Sum data, pm)"
    and "same_torrent k data pm" and "pieceHashes pm = Some (chunk_hashes k data (chunk_count k data))"
proof -
  obtain pm' out' where ok: "seed_command readFile flags = Inr (seed_opts flags (sha1_Sum data), pm', out')"
      "runSeed data (int k) = Inr (sha1_Sum data, pm')" "same_torrent k data pm'"
    using assms(1-3) by (rule seed_command_ok)
  with assms(4) show "opts = seed_opts flags (sha1_Sum data)" "runSeed data (int k) = Inr (sha1_Sum data, pm)"
      "same_torrent k data pm"
    by simp_all
  then show "pieceHashes pm = Some (chunk_hashes k data (chunk_count k data))" by (simp add: same_torrent_def)
qed

section \<open>From the seeder to the downloader\<close>

text \<open>
  C2.  A file goes from one machine to another.  Seed a file that is not empty, whose name has an
  extension, whose pieces fit a message and their requests the outbox, and whose SHA-1, the info hash,
  has no percent and no plus byte: for a hash with such a byte, about one in seven, the theorem says
  nothing, because the tracker decodes the hash twice (\<open>announce_hash_corrupted\<close>).  Paste the printed
  command on a second machine, and let both start at one tracker, the seeder first, where their torrent
  then has at most fifty peers, the address of the seeder is not the downloader's own, and the second
  machine's dial of it succeeds.  Then both start, the downloader dials the seeder, the handshakes
  succeed, and when neither has another peer and the directory and the file can be written, the six turns
  of the protocol make the downloader write the seeder's file under the name of the info hash and the
  extension.
\<close>

theorem file_arrives:
  assumes "readFile (sf_file flags) = Some data" and "sf_piece_size flags = int k" and "seed_ok data k" and "data \<noteq> []"
    and "k + 5 \<le> MaxMessageLength" and "Suc (chunk_count k data) \<le> outbox_cap" and "plain_hash (sha1_Sum data)"
    and "shell_plain (file_format (sf_file flags))" and "file_format (sf_file flags) \<noteq> []"
    and "shell_plain (sf_tracker flags)" and "sf_tracker flags \<noteq> []" and "parses_flags parse"
    and "seed_command readFile flags = Inr (optsS, pmS, outS)"
    and "parse (words (download_line optsS pmS)) = Some dflags" and "download_command dflags = Inr (optsD, pmD, outD)"
    and "launch optsS pmS idS randS heapS = Some ndS" and "launch optsD pmD idD randD heapD = Some ndD"
    and "is20 idS" and "is20 idD" and "idS \<noteq> idD" and "int64_ok portS" and "int64_ok portD"
    and "marshals marshal" and "mem_inv m" and "view_ok mem_view m" and "order_ok c" and "order_ok c'"
    and "announce_url urlParse (sf_tracker flags)" and "str_ok remoteS" and "str_ok remoteD"
    and "listenS (so_listen optsS) = Some (ownS, portS)" and "listenD (so_listen optsD) = Some (ownD, portD)"
    and "Start listenS urlParse (tracker_get marshal c nowS remoteS) m ndS = (resS, ndS', mS)"
    and "Start listenD urlParse (tracker_get marshal c' nowD remoteD) mS ndD = (resD, ndD', mD)"
    and "card (dom (mem_view mD (sha1_Sum data))) \<le> 50" and "formatAddr (seen_ip remoteS) portS \<noteq> ownD"
    and "netDial (formatAddr (seen_ip remoteS) portS) = Some (side_conn x)"
    and "side_id x = tr_localID (nd_transport ndD)" and "side_id y = tr_localID (nd_transport ndS)"
    and "is20 (side_id x)" and "is20 (side_id y)" and "side_id x \<noteq> side_id y"
    and "open_conn now (so_infoHash optsD) (side_id x) (side_conn x) True (buildHandshake (so_infoHash optsS) (side_id y))
      (nd_server ndD') = (wa, ra, a)"
    and "open_conn now' (so_infoHash optsS) (side_id y) (side_conn y) False wa (nd_server ndS') = (wb, rb, b)"
    and "only_peer x (side_id y)" and "only_peer y (side_id x)" and "env_ok uenv (ts_swarm b)"
    and "mkdir_ok (side_env x)" and "write_file_ok (side_env x)"
  shows "(\<exists>dialsS. resS = Inr dialsS) \<and> (\<exists>dials. resD = Inr dials \<and> side_conn x \<in> set (dial_all netDial dials)) \<and>
    wb = buildHandshake (so_infoHash optsS) (side_id y) \<and>
    (\<exists>a' b' effs. play x y (download_turns uenv) (a, b) = Inr ((a', b'), effs) \<and> WriteFile data \<in> set effs) \<and>
    written_name optsD = hex_encode (sha1_Sum data) @ ''.'' @ file_format (sf_file flags)"
proof -
  let ?h = "sha1_Sum data"
  note seed = seed_command_result [OF assms(1-3,13)]
  have optsS: "so_infoHash optsS = ?h" "so_tracker optsS = sf_tracker flags" "so_format optsS = file_format (sf_file flags)"
    by (simp_all add: seed(1) seed_opts_def)
  have plain: "shell_plain (so_format optsS)" "so_format optsS \<noteq> []" "shell_plain (so_tracker optsS)" "so_tracker optsS \<noteq> []"
    using assms(8-11) by (simp_all add: optsS)
  have dl: "runDownload (hex_encode ?h) (numPieces pmS) (hex_encode (chunk_hashes k data (chunk_count k data))) = Inr (?h, pmD)"
    and optsD: "so_infoHash optsD = ?h" "so_tracker optsD = sf_tracker flags" "so_format optsD = file_format (sf_file flags)"
    using paste_command [OF seed(3) assms(3,4) optsS(1) plain assms(12)] assms(14,15) optsS(2,3) by force+
  note launchS = assms(16) [unfolded launch_new optsS] and launchD = assms(17) [unfolded launch_new optsD]
  have h: "is20 ?h" by simp
  obtain dialsS where S: "resS = Inr dialsS" "nd_server ndS' = NewTorrentServer idS ?h pmS heapS"
    and mS: "mem_inv mS" "view_ok mem_view mS"
    using start_announced [OF assms(23-26,28,18,21) h assms(7,29) launchS assms(31,33)] by blast
  obtain dialsD where D: "resD = Inr dialsD" "nd_server ndD' = NewTorrentServer idD ?h pmD heapD"
    using start_announced(1) [OF assms(23) mS assms(27,28,19,22) h assms(7,30) launchD assms(32,34)] by blast
  have "side_conn x \<in> set (dial_all netDial dialsD)"
    using start_finds [OF assms(23-28,18-22,29) h assms(7) launchS launchD assms(31-36)] assms(37) D(1) by blast
  moreover have "wb = buildHandshake ?h (side_id y) \<and>
    (\<exists>a' b' effs. play x y (download_turns uenv) (a, b) = Inr ((a', b'), effs) \<and> WriteFile data \<in> set effs)"
    using turns_download [OF assms(3) seed(2,4) dl assms(4-6,40-42) assms(43) [unfolded D(2) optsS optsD]
      assms(44) [unfolded S(2) optsS] assms(45-49)] by blast
  ultimately show ?thesis using S(1) D(1) optsD by (simp add: written_name_def optsS)
qed

section \<open>An example\<close>

text \<open>A file of one byte, whose hash has no byte that the tracker mistreats.\<close>

lemma plain_hash_7: "plain_hash (sha1_Sum [7])"
  by (simp add: sha1_Sum_7 plain_hash_def)

definition sample_listen :: "string \<Rightarrow> (string \<times> int) option" where
  "sample_listen addr = Some (''0.0.0.0:6881'', 6881)"

lemma sample_launch:
  obtains nd where "launch opts pm i (Some (replicate 20 v)) heap = Some nd" and "tr_localID (nd_transport nd) = replicate 20 v"
  by (auto simp: launch_def new_node_def NewTCPTransport_def generate20ByteID_def)

text \<open>Two starts at an empty tracker: what the theorem needs to know of them.\<close>

lemma sample_starts:
  assumes "launch optsS pmS i randS heapS = Some ndS" and "launch optsD pmD j randD heapD = Some ndD"
    and "so_infoHash optsS = h" and "so_infoHash optsD = h" and "is20 h" and "plain_hash h" and "is20 i" and "is20 j"
    and "Start sample_listen sample_parse (sample_get 5 ''10.0.0.1:4000'') NewMemoryStorage ndS = (resS, ndS', mS)"
    and "Start sample_listen sample_parse (sample_get 9 ''10.0.0.2:4000'') mS ndD = (resD, ndD', mD)"
  shows "nd_server ndS' = NewTorrentServer i h pmS heapS" and "nd_server ndD' = NewTorrentServer j h pmD heapD"
    and "card (dom (mem_view mD h)) \<le> 50"
proof -
  have remote: "str_ok ''10.0.0.1:4000''" "str_ok ''10.0.0.2:4000''" by simp_all
  note S = start_announced [OF marshals_benc mem_inv_New view_ok_New(1) order_ok_key_order sample_session(1) assms(7) sample_session(7)
      assms(5,6) remote(1) assms(1) [unfolded launch_new assms(3)] sample_listen_def assms(9) [unfolded sample_get_def]]
  note D = start_announced [OF marshals_benc S(2,3) order_ok_key_order sample_session(1) assms(8) sample_session(7)
      assms(5,6) remote(2) assms(2) [unfolded launch_new assms(4)] sample_listen_def assms(10) [unfolded sample_get_def]]
  from S(1) D(1) show "nd_server ndS' = NewTorrentServer i h pmS heapS" "nd_server ndD' = NewTorrentServer j h pmD heapD"
    by blast+
  have "dom (mem_view NewMemoryStorage h) = {}" using assms(5) by (auto simp: dom_def)
  then have "dom (mem_view mD h) \<subseteq> {hex_encode i, hex_encode j}" using S(4) D(4) by blast
  then have "card (dom (mem_view mD h)) \<le> card {hex_encode i, hex_encode j}" by (intro card_mono) auto
  also have "\<dots> \<le> 2" by (rule order_trans [OF card_insert_le_m1 [of 2]]) simp_all
  finally show "card (dom (mem_view mD h)) \<le> 50" by simp
qed

theorem file_arrives_witness:
  "\<exists>optsS pmS outS dflags optsD pmD outD ndS ndD. seed_command (\<lambda>_. Some [7]) (sample_seed ''a.txt'') = Inr (optsS, pmS, outS) \<and>
     sample_flags (words (download_line optsS pmS)) = Some dflags \<and> download_command dflags = Inr (optsD, pmD, outD) \<and>
     launch optsS pmS (replicate 20 3) (Some (replicate 20 2)) (\<lambda>_. NewTCPPeer True) = Some ndS \<and>
     launch optsD pmD (replicate 20 4) (Some (replicate 20 1)) (\<lambda>_. NewTCPPeer True) = Some ndD \<and>
     (\<exists>a b a' b' effs. play example_x example_y (download_turns example_round) (a, b) = Inr ((a', b'), effs) \<and>
        WriteFile [7] \<in> set effs) \<and>
     written_name optsD = hex_encode (sha1_Sum [7]) @ ''.txt''"
proof -
  let ?h = "sha1_Sum [7]" and ?fl = "sample_seed ''a.txt''" and ?heap = "\<lambda>_ :: nat. NewTCPPeer True"
  let ?S = "replicate 20 (3 :: byte)" and ?D = "replicate 20 (4 :: byte)"
  let ?getS = "sample_get 5 ''10.0.0.1:4000''" and ?getD = "sample_get 9 ''10.0.0.2:4000''"
  have fl: "(\<lambda>_. Some [7 :: byte]) (sf_file ?fl) = Some [7]" "sf_piece_size ?fl = int 1"
    "shell_plain (file_format (sf_file ?fl))" "file_format (sf_file ?fl) \<noteq> []" by simp_all
  obtain pmS outS where seed: "seed_command (\<lambda>_. Some [7]) ?fl = Inr (seed_opts ?fl ?h, pmS, outS)"
      "runSeed [7] (int 1) = Inr (?h, pmS)" "same_torrent 1 [7] pmS"
    by (rule seed_command_ok [of "\<lambda>_. Some [7]" ?fl, OF fl(1,2) one_byte_seed])
  let ?optsS = "seed_opts ?fl ?h"
  have optsS: "so_infoHash ?optsS = ?h" "shell_plain (so_format ?optsS)" "so_format ?optsS \<noteq> []"
    "shell_plain (so_tracker ?optsS)" "so_tracker ?optsS \<noteq> []" "so_tracker ?optsS = sf_tracker ?fl"
    by (simp_all add: seed_opts_def)
  obtain dflags optsD pmD outD where dl: "sample_flags (words (download_line ?optsS pmS)) = Some dflags"
      "download_command dflags = Inr (optsD, pmD, outD)" "so_infoHash optsD = ?h"
      "runDownload (hex_encode ?h) (numPieces pmS) (hex_encode (chunk_hashes 1 [7] (chunk_count 1 [7]))) = Inr (?h, pmD)"
    by (rule paste_command [OF seed(3) one_byte_seed one_byte_fits(1) optsS(1-5) sample_flags_parses]) blast
  obtain ndS where S: "launch ?optsS pmS ?S (Some (replicate 20 2)) ?heap = Some ndS" "tr_localID (nd_transport ndS) = replicate 20 2"
    by (rule sample_launch)
  obtain ndD where D: "launch optsD pmD ?D (Some (replicate 20 1)) ?heap = Some ndD" "tr_localID (nd_transport ndD) = replicate 20 1"
    by (rule sample_launch)
  obtain resS ndS' mS where startS: "Start sample_listen sample_parse ?getS NewMemoryStorage ndS = (resS, ndS', mS)"
    by (metis prod_cases3)
  obtain resD ndD' mD where startD: "Start sample_listen sample_parse ?getD mS ndD = (resD, ndD', mD)"
    by (metis prod_cases3)
  have ids: "is20 ?S" "is20 ?D" "?S \<noteq> ?D" and h: "is20 ?h" by (simp_all add: is20_def)
  note started = sample_starts [OF S(1) D(1) optsS(1) dl(3) h plain_hash_7 ids(1,2) startS startD]
  obtain wa ra a where a: "open_conn 0 (so_infoHash optsD) (side_id example_x) (side_conn example_x) True
      (buildHandshake (so_infoHash ?optsS) (side_id example_y)) (nd_server ndD') = (wa, ra, a)"
    by (metis prod_cases3)
  obtain wb rb b where b: "open_conn 0 (so_infoHash ?optsS) (side_id example_y) (side_conn example_y) False wa (nd_server ndS') = (wb, rb, b)"
    by (metis prod_cases3)
  have hs: "pieceHashes pmS = Some (chunk_hashes 1 [7] (chunk_count 1 [7]))" using seed(3) by (simp add: same_torrent_def)
  have env: "env_ok example_round (ts_swarm b)"
    by (rule example_opened [OF seed(2) hs dl(4) a [unfolded started dl(3) optsS(1)] b [unfolded started optsS(1)]])
  have ip: "seen_ip ''10.0.0.1:4000'' = ''10.0.0.1''" by (simp add: seen_ip_def split_host_def last_colon_def Let_def)
  have own: "formatAddr (seen_ip ''10.0.0.1:4000'') 6881 \<noteq> ''0.0.0.0:6881''" by (simp add: ip formatAddr_def)
  have sides: "side_id example_x = tr_localID (nd_transport ndD)" "side_id example_y = tr_localID (nd_transport ndS)"
    by (simp_all add: S(2) D(2) example_x_def example_y_def)
  have remote: "str_ok ''10.0.0.1:4000''" "str_ok ''10.0.0.2:4000''" by simp_all
  have tracker: "shell_plain (sf_tracker ?fl)" "sf_tracker ?fl \<noteq> []" by simp_all
  have "written_name optsD = hex_encode ?h @ ''.'' @ file_format (sf_file ?fl) \<and>
    (\<exists>a' b' effs. play example_x example_y (download_turns example_round) (a, b) = Inr ((a', b'), effs) \<and> WriteFile [7] \<in> set effs)"
    using file_arrives [OF fl(1,2) one_byte_seed one_byte_fits plain_hash_7 fl(3,4) tracker sample_flags_parses
      seed(1) dl(1,2) S(1) D(1) ids sample_session(7,7) marshals_benc mem_inv_New view_ok_New(1) order_ok_key_order
      order_ok_key_order sample_session(1) remote sample_listen_def sample_listen_def startS [unfolded sample_get_def]
      startD [unfolded sample_get_def] started(3) own refl sides example_sides(1-3) a b example_sides(4,5) env example_sides(6,7)]
    by blast
  moreover from this have "written_name optsD = hex_encode ?h @ ''.txt''" by simp
  ultimately show ?thesis using seed(1) dl(1,2) S(1) D(1) by blast
qed

end
