(* ===== verification/Process.thy ===== *)
theory Process
  imports Whole_Run
begin

text \<open>
  The process of \<open>seed\<close>, \<open>download\<close> and \<open>connect\<close>, from the start of the server to the exit code: the main
  goroutine in \<open>Start\<close> and the loop, the goroutine that waits for a signal, calls \<open>Stop\<close> and then
  \<open>os.Exit(0)\<close> (the end of \<open>runSeed\<close>, \<open>runDownload\<close> and \<open>runConnect\<close> in \<open>src/cmd/\<close>), those of the
  connections, and those that announce to the tracker in the background.  One step is a whole
  handler of the loop or one action of another goroutine; the steps interleave freely, a panic in any of
  them ends the process, and the end can come in the middle of a handler, also while it writes the file.
\<close>

section \<open>The state of a process\<close>

text \<open>
  Where the main goroutine is: about to listen, about to bootstrap, in the loop, waiting for the reply to
  the announce of its stop, in the deferred function of the loop, or back in \<open>Execute\<close> of \<open>cmd/root.go\<close>
  with the error of \<open>Start\<close>.
\<close>

datatype main_at = AtListen | AtBootstrap | AtLoop | AtStopping | AtDeferredStop | AtError start_err

text \<open>Where the signal's one is: waiting, or about to close the channel, to close the transport, to exit.\<close>

datatype signal_at = NoSignal | AtQuitClose | AtTransportClose | AtExit

datatype goroutine = MainGoroutine | SignalGoroutine | ConnGoroutine | TrackerGoroutine

datatype proc_end = ExitCode nat | Crash goroutine go_panic | NoRandomness

text \<open>The background goroutines are named by the effects that start them.\<close>

record proc =
  pr_node :: node_state
  pr_main :: main_at
  pr_sig :: signal_at
  pr_spawned :: "effect list"
  pr_end :: "proc_end option"

definition new_proc :: "node_state \<Rightarrow> proc" where
  "new_proc nd = \<lparr>pr_node = nd, pr_main = AtListen, pr_sig = NoSignal, pr_spawned = [], pr_end = None\<rparr>"

abbreviation pr_server :: "proc \<Rightarrow> server" where
  "pr_server p \<equiv> nd_server (pr_node p)"

abbreviation pr_listener :: "proc \<Rightarrow> (string \<times> int) option" where
  "pr_listener p \<equiv> listener (nd_transport (pr_node p))"

definition with_server :: "proc \<Rightarrow> server \<Rightarrow> proc" where
  "with_server p ts = p\<lparr>pr_node := (pr_node p)\<lparr>nd_server := ts\<rparr>\<rparr>"

text \<open>\<open>Execute\<close>: an error of the command is printed and the exit code is 1.\<close>

fun Execute :: "'e fail \<Rightarrow> proc_end" where
  "Execute (Err e) = ExitCode 1"
| "Execute (Panic q) = Crash MainGoroutine q"

text \<open>The commands up to the point where both goroutines run, with what was printed.\<close>

definition start_process :: "server_opts \<Rightarrow> piece_manager \<Rightarrow> id20 \<Rightarrow> bytes option \<Rightarrow> heap \<Rightarrow> string \<Rightarrow> proc_end + proc \<times> string" where
  "start_process opts pm peerID rand h out =
     (case launch opts pm peerID rand h of None \<Rightarrow> Inl NoRandomness | Some nd \<Rightarrow> Inr (new_proc nd, out))"

definition seed_process :: "(string \<Rightarrow> bytes option) \<Rightarrow> seed_flags \<Rightarrow> id20 \<Rightarrow> bytes option \<Rightarrow> heap \<Rightarrow> proc_end + proc \<times> string" where
  "seed_process readFile flags peerID rand h =
     (case seed_command readFile flags of
        Inl e \<Rightarrow> Inl (Execute e)
      | Inr (opts, pm, out) \<Rightarrow> start_process opts pm peerID rand h out)"

definition download_process :: "download_flags \<Rightarrow> id20 \<Rightarrow> bytes option \<Rightarrow> heap \<Rightarrow> proc_end + proc \<times> string" where
  "download_process flags peerID rand h =
     (case download_command flags of
        Inl e \<Rightarrow> Inl (Execute e)
      | Inr (opts, pm, out) \<Rightarrow> start_process opts pm peerID rand h out)"

definition connect_process :: "connect_flags \<Rightarrow> id20 \<Rightarrow> bytes option \<Rightarrow> heap \<Rightarrow> proc_end + proc \<times> string" where
  "connect_process flags peerID rand h =
     (case connect_command flags of
        Inl e \<Rightarrow> Inl (Execute e)
      | Inr (opts, pm, out) \<Rightarrow> start_process opts pm peerID rand h out)"

section \<open>Its steps\<close>

text \<open>A connection is opened, lost, or writes a message of its outbox.\<close>

inductive conn_step :: "transport \<Rightarrow> server \<Rightarrow> server \<Rightarrow> bool" for t where
  opened: "\<forall>i. fmlookup (peers (ts_swarm ts)) i \<noteq> Some c \<Longrightarrow>
    handleConn_open (OnPeer now) (tr_infoHash t) (tr_localID t) c outb write_ok e input
      (ts_heap ts) (ts_swarm ts) = (w, r, h, s) \<Longrightarrow>
    (\<forall>q. r \<noteq> Inl (Panic q)) \<Longrightarrow>
    conn_step t ts (ts\<lparr>ts_heap := h, ts_swarm := s\<rparr>)"
| closed: "conn_step t ts (ts\<lparr>ts_heap := (ts_heap ts)(c := Close (ts_heap ts c))\<rparr>)"
| written: "outbox (ts_heap ts c) = buf # bufs \<Longrightarrow>
    conn_step t ts (ts\<lparr>ts_heap := (ts_heap ts)(c := (ts_heap ts c)\<lparr>outbox := bufs\<rparr>)\<rparr>)"

text \<open>
  The goroutines beside the main one: the connections, as soon as there is a listener; the announces in the
  background, against a tracker in any state, whose reply can make the decoder panic; and the signal.
\<close>

inductive other_step ::
  "(string \<Rightarrow> url option) \<Rightarrow> ('w \<Rightarrow> url \<Rightarrow> http_result \<times> 'w) \<Rightarrow> proc \<Rightarrow> proc \<Rightarrow> bool" for urlParse get where
  conn: "pr_listener p \<noteq> None \<Longrightarrow> conn_step (nd_transport (pr_node p)) (pr_server p) ts' \<Longrightarrow>
    other_step urlParse get p (with_server p ts')"
| conn_panic: "pr_listener p \<noteq> None \<Longrightarrow>
    \<forall>i. fmlookup (peers (ts_swarm (pr_server p))) i \<noteq> Some c \<Longrightarrow>
    t = nd_transport (pr_node p) \<Longrightarrow>
    handleConn_open (OnPeer now) (tr_infoHash t) (tr_localID t) c outb write_ok e input
      (ts_heap (pr_server p)) (ts_swarm (pr_server p)) = (w, Inl (Panic q), h, s) \<Longrightarrow>
    other_step urlParse get p (p\<lparr>pr_end := Some (Crash ConnGoroutine q)\<rparr>)"
| announce: "pr_spawned p = xs @ SpawnAnnounce event # ys \<Longrightarrow> nd = pr_node p \<Longrightarrow>
    AnnounceToTracker urlParse get w (Some (nd_client nd)) (nd_trackerUrl nd) (tr_infoHash (nd_transport nd))
      (nd_server nd) event = (res, w') \<Longrightarrow>
    p' = (case res of
        Inl (Panic q) \<Rightarrow> p\<lparr>pr_end := Some (Crash TrackerGoroutine q)\<rparr>
      | _ \<Rightarrow> p\<lparr>pr_spawned := xs @ ys\<rparr>) \<Longrightarrow>
    other_step urlParse get p p'"
| stats: "pr_spawned p = xs @ SpawnUpdateStats # ys \<Longrightarrow> nd = pr_node p \<Longrightarrow>
    UpdateTrackerStats urlParse get w (Some (nd_client nd)) (nd_trackerUrl nd) (tr_infoHash (nd_transport nd))
      env (nd_server nd) = (res, w', Some tc) \<Longrightarrow>
    p' = (case res of
        Inl (Panic q) \<Rightarrow> p\<lparr>pr_node := nd\<lparr>nd_client := tc\<rparr>, pr_end := Some (Crash TrackerGoroutine q)\<rparr>
      | _ \<Rightarrow> p\<lparr>pr_node := nd\<lparr>nd_client := tc\<rparr>, pr_spawned := xs @ ys\<rparr>) \<Longrightarrow>
    other_step urlParse get p p'"
| signal: "pr_sig p = NoSignal \<Longrightarrow> other_step urlParse get p (p\<lparr>pr_sig := AtQuitClose\<rparr>)"
| quit_close: "pr_sig p = AtQuitClose \<Longrightarrow>
    p' = (case Stop (pr_server p) of
        Inl q \<Rightarrow> p\<lparr>pr_end := Some (Crash SignalGoroutine q)\<rparr>
      | Inr ts \<Rightarrow> (with_server p ts)\<lparr>pr_sig := AtTransportClose\<rparr>) \<Longrightarrow>
    other_step urlParse get p p'"
| transport_close: "pr_sig p = AtTransportClose \<Longrightarrow>
    p' = (case transport_Close (nd_transport (pr_node p)) of
        Inl q \<Rightarrow> p\<lparr>pr_end := Some (Crash SignalGoroutine q)\<rparr>
      | Inr _ \<Rightarrow> p\<lparr>pr_sig := AtExit\<rparr>) \<Longrightarrow>
    other_step urlParse get p p'"
| exit: "pr_sig p = AtExit \<Longrightarrow> other_step urlParse get p (p\<lparr>pr_end := Some (ExitCode 0)\<rparr>)"

text \<open>
  A handler of the loop has run: the new state of the server, and the goroutines it has started.
\<close>

fun spawns :: "effect \<Rightarrow> bool" where
  "spawns SpawnUpdateStats \<longleftrightarrow> True"
| "spawns (SpawnAnnounce event) \<longleftrightarrow> True"
| "spawns _ \<longleftrightarrow> False"

definition served :: "proc \<Rightarrow> effect list \<Rightarrow> server \<Rightarrow> proc" where
  "served p effs ts = (with_server p ts)\<lparr>pr_spawned := pr_spawned p @ filter spawns effs\<rparr>"

text \<open>
  The main goroutine: \<open>ListenAndAccept\<close>, the rest of \<open>Start\<close> against a tracker in any state, one round of
  the loop, the branch of \<open>quitch\<close> with its announce and the reply to it, the deferred \<open>Stop\<close> (after which
  \<open>Start\<close> would return nil and the process end with 0), and the error reaching \<open>Execute\<close>.
\<close>

inductive main_step ::
  "(string \<Rightarrow> (string \<times> int) option) \<Rightarrow> (string \<Rightarrow> url option) \<Rightarrow> ('w \<Rightarrow> url \<Rightarrow> http_result \<times> 'w)
    \<Rightarrow> proc \<Rightarrow> effect list \<Rightarrow> proc \<Rightarrow> bool"
  for netListen urlParse get where
  listen: "pr_main p = AtListen \<Longrightarrow>
    ListenAndAccept netListen (nd_transport (pr_node p)) = Inr t \<Longrightarrow>
    main_step netListen urlParse get p [] (p\<lparr>pr_node := (pr_node p)\<lparr>nd_transport := t\<rparr>, pr_main := AtBootstrap\<rparr>)"
| listen_failed: "pr_main p = AtListen \<Longrightarrow>
    ListenAndAccept netListen (nd_transport (pr_node p)) = Inl e \<Longrightarrow>
    main_step netListen urlParse get p [] (p\<lparr>pr_main := AtError (StartListen e)\<rparr>)"
| bootstrap: "pr_main p = AtBootstrap \<Longrightarrow> nd = pr_node p \<Longrightarrow>
    listener (nd_transport nd) = Some (own, port) \<Longrightarrow> tc = server_client (nd_peerID nd) port \<Longrightarrow>
    bootstrapNetwork urlParse get w tc (nd_trackerUrl nd) (tr_infoHash (nd_transport nd)) own (nd_bootstrap nd) = (res, w') \<Longrightarrow>
    p' = (case res of
        Inr (nodes, dials) \<Rightarrow> p\<lparr>pr_node := nd\<lparr>nd_client := tc, nd_bootstrap := nodes\<rparr>, pr_main := AtLoop\<rparr>
      | Inl (Err e) \<Rightarrow> p\<lparr>pr_node := nd\<lparr>nd_client := tc\<rparr>, pr_main := AtError (StartBootstrap e)\<rparr>
      | Inl (Panic q) \<Rightarrow> p\<lparr>pr_end := Some (Crash MainGoroutine q)\<rparr>) \<Longrightarrow>
    main_step netListen urlParse get p [] p'"
| serve: "pr_main p = AtLoop \<Longrightarrow> loop_step env ev (pr_server p) = Inr (ts', effs) \<Longrightarrow>
    (\<And>uenv. ev = UnchokeTick uenv \<Longrightarrow> env_ok uenv (ts_swarm (pr_server p))) \<Longrightarrow>
    main_step netListen urlParse get p effs (served p effs ts')"
| serve_panic: "pr_main p = AtLoop \<Longrightarrow> loop_step env ev (pr_server p) = Inl q \<Longrightarrow>
    main_step netListen urlParse get p [] (p\<lparr>pr_end := Some (Crash MainGoroutine q)\<rparr>)"
| quit: "pr_main p = AtLoop \<Longrightarrow> quit_closed (pr_server p) \<Longrightarrow>
    main_step netListen urlParse get p [AnnounceNow ''stopped''] (p\<lparr>pr_main := AtStopping\<rparr>)"
| stopped: "pr_main p = AtStopping \<Longrightarrow> nd = pr_node p \<Longrightarrow>
    AnnounceToTracker urlParse get w (Some (nd_client nd)) (nd_trackerUrl nd) (tr_infoHash (nd_transport nd))
      (nd_server nd) ''stopped'' = (res, w') \<Longrightarrow>
    p' = (case res of
        Inl (Panic q) \<Rightarrow> p\<lparr>pr_end := Some (Crash MainGoroutine q)\<rparr>
      | _ \<Rightarrow> p\<lparr>pr_main := AtDeferredStop\<rparr>) \<Longrightarrow>
    main_step netListen urlParse get p [] p'"
| deferred: "pr_main p = AtDeferredStop \<Longrightarrow>
    p' = (case node_Stop (pr_node p) of
        Inl q \<Rightarrow> p\<lparr>pr_end := Some (Crash MainGoroutine q)\<rparr>
      | Inr nd \<Rightarrow> p\<lparr>pr_node := nd, pr_end := Some (ExitCode 0)\<rparr>) \<Longrightarrow>
    main_step netListen urlParse get p [] p'"
| failed: "pr_main p = AtError e \<Longrightarrow>
    main_step netListen urlParse get p [] (p\<lparr>pr_end := Some (Execute (Err e))\<rparr>)"

text \<open>
  What a handler has done of its effects when the process ends in the middle of it: the first of them, and
  perhaps the first bytes of the file.
\<close>

fun file_content :: "effect \<Rightarrow> bytes" where
  "file_content (WriteFile x) = x"
| "file_content (PartialFile x) = x"
| "file_content _ = []"

definition cut_off :: "effect list \<Rightarrow> effect list \<Rightarrow> bool" where
  "cut_off effs effs' \<longleftrightarrow> prefix effs' effs \<or>
     (\<exists>pre e rest n. effs = pre @ e # rest \<and> file_effect e \<and> effs' = pre @ [PartialFile (take n (file_content e))])"

text \<open>
  The process: a step of the main goroutine, a step of another one, or a step of another one that ends the
  process while the loop is in a handler (whose state of the server no longer matters then).
\<close>

inductive proc_step ::
  "(string \<Rightarrow> (string \<times> int) option) \<Rightarrow> (string \<Rightarrow> url option) \<Rightarrow> ('w \<Rightarrow> url \<Rightarrow> http_result \<times> 'w)
    \<Rightarrow> proc \<Rightarrow> effect list \<Rightarrow> proc \<Rightarrow> bool"
  for netListen urlParse get where
  main: "pr_end p = None \<Longrightarrow> main_step netListen urlParse get p effs p' \<Longrightarrow> proc_step netListen urlParse get p effs p'"
| other: "pr_end p = None \<Longrightarrow> other_step urlParse get p p' \<Longrightarrow> proc_step netListen urlParse get p [] p'"
| cut: "pr_end p = None \<Longrightarrow> pr_main p = AtLoop \<Longrightarrow> loop_step env ev (pr_server p) = Inr (ts', effs) \<Longrightarrow>
    (\<And>uenv. ev = UnchokeTick uenv \<Longrightarrow> env_ok uenv (ts_swarm (pr_server p))) \<Longrightarrow> cut_off effs effs' \<Longrightarrow>
    other_step urlParse get (served p effs' ts') p' \<Longrightarrow> pr_end p' \<noteq> None \<Longrightarrow>
    proc_step netListen urlParse get p effs' p'"

inductive proc_run ::
  "(string \<Rightarrow> (string \<times> int) option) \<Rightarrow> (string \<Rightarrow> url option) \<Rightarrow> ('w \<Rightarrow> url \<Rightarrow> http_result \<times> 'w)
    \<Rightarrow> proc \<Rightarrow> effect list \<Rightarrow> proc \<Rightarrow> bool"
  for netListen urlParse get where
  here: "proc_run netListen urlParse get p [] p"
| more: "proc_run netListen urlParse get p effs p' \<Longrightarrow> proc_step netListen urlParse get p' effs' p'' \<Longrightarrow>
    proc_run netListen urlParse get p (effs @ effs') p''"

section \<open>What the steps keep\<close>

lemma with_server_simps [simp]:
  "pr_server (with_server p ts) = ts" "pr_listener (with_server p ts) = pr_listener p"
  "nd_transport (pr_node (with_server p ts)) = nd_transport (pr_node p)"
  "nd_bootstrap (pr_node (with_server p ts)) = nd_bootstrap (pr_node p)"
  "pr_main (with_server p ts) = pr_main p" "pr_sig (with_server p ts) = pr_sig p" "pr_end (with_server p ts) = pr_end p"
  by (simp_all add: with_server_def)

lemma new_proc_simps [simp]:
  "pr_node (new_proc nd) = nd" "pr_main (new_proc nd) = AtListen" "pr_sig (new_proc nd) = NoSignal" "pr_spawned (new_proc nd) = []" "pr_end (new_proc nd) = None"
  by (simp_all add: new_proc_def)

lemma ListenAndAccept_listener: "ListenAndAccept netListen t = Inr t' \<Longrightarrow> \<exists>b. t' = t\<lparr>listener := Some b\<rparr>"
  by (auto simp: ListenAndAccept_def split: option.splits)

lemma handler_quit [simp]:
  "quit_closed (handlePieceRequest i idx ts) = quit_closed ts"
  "quit_closed (sendPendingRequests i ts) = quit_closed ts"
  by (simp_all add: handlePieceRequest_def sendPendingRequests_def Let_def split: option.split sum.split)

lemma dispatch_quit:
  assumes "dispatch env rpc ts = Inr (ts', effs)"
  shows "quit_closed ts' = quit_closed ts"
  using assms
proof (cases rule: dispatch_cases)
  case (piece data)
  then show ?thesis by (cases rule: handlePiece_Inr) simp_all
next
  case (bitfield bf)
  then show ?thesis
    by (auto simp: handleBitfieldAnnouncement_def storePendingRequests_def Let_def bindE_Inr_iff
        split: if_splits option.splits sum.splits)
qed (simp_all add: on_swarm_def)

lemma loop_step_quit:
  assumes "loop_step env ev ts = Inr (ts', effs)"
  shows "quit_closed ts' = quit_closed ts"
  using assms dispatch_quit
  by (auto simp: loop_step_def runUnchokeRound_def split: loop_event.splits prod.splits)

lemma conn_step_frame:
  assumes "conn_step t ts ts'"
  shows "quit_closed ts' = quit_closed ts" and "ts_pieces ts' = ts_pieces ts" and "server_step ts [] ts'"
  using assms by (cases; auto dest: handleConn_open_pieces intro: server_step.intros)+

lemma Stop_Inr: "Stop ts = Inr ts' \<longleftrightarrow> \<not> quit_closed ts \<and> ts' = ts\<lparr>quit_closed := True\<rparr>"
  by (auto simp: Stop_def)

lemma transport_Close_sum: "transport_Close t = (if listener t = None then Inl NilDereference else Inr ())"
  by (simp add: transport_Close_def split: option.split)

lemma node_Stop_closed: "quit_closed (nd_server nd) \<Longrightarrow> node_Stop nd = Inl CloseClosedChannel"
  by (simp add: node_Stop_def Stop_def)

lemma served_simps [simp]:
  "pr_server (served p effs ts) = ts" "pr_listener (served p effs ts) = pr_listener p"
  "nd_transport (pr_node (served p effs ts)) = nd_transport (pr_node p)"
  "nd_trackerUrl (pr_node (served p effs ts)) = nd_trackerUrl (pr_node p)"
  "pr_main (served p effs ts) = pr_main p" "pr_sig (served p effs ts) = pr_sig p" "pr_end (served p effs ts) = pr_end p"
  by (simp_all add: served_def with_server_def)

lemma AnnounceToTracker_panic:
  assumes "AnnounceToTracker urlParse get w (Some tc) url h ts event = (Inl (Panic q), w')"
  shows "\<exists>left. Announce urlParse get w tc url h left event = (Inl (Panic q), w')"
  using assms
  by (auto simp: AnnounceToTracker_def lift_session_def Let_def split: prod.splits sum.splits fail.splits)

lemma UpdateTrackerStats_panic:
  assumes "UpdateTrackerStats urlParse get w (Some tc) url h env ts = (Inl (Panic q), w', client)"
  shows "\<exists>tc' left. Announce urlParse get w tc' url h left [] = (Inl (Panic q), w')"
  using assms AnnounceToTracker_panic
  by (fastforce simp: UpdateTrackerStats_def Let_def split: prod.splits)

lemma AnnounceToTracker_quit [simp]:
  "AnnounceToTracker urlParse get w client url h (ts\<lparr>quit_closed := b\<rparr>) event = AnnounceToTracker urlParse get w client url h ts event"
  by (simp add: AnnounceToTracker_def announce_left_def split: option.split)

lemma bootstrap_panic:
  assumes "bootstrapNetwork urlParse get w tc url h own nodes = (Inl (Panic q), w')"
  shows "\<exists>left event. Announce urlParse get w tc url h left event = (Inl (Panic q), w')"
  using assms
  by (auto simp: bootstrapNetwork_def populateBootstrapNodes_def Let_def bindE_Inl_iff split: prod.splits sum.splits)

section \<open>The invariant of a process\<close>

text \<open>
  The quit channel is closed exactly from the second step of the signal goroutine on; the listener is
  there exactly after \<open>ListenAndAccept\<close>; the loop is left only through the closed channel.
\<close>

definition proc_inv :: "proc \<Rightarrow> bool" where
  "proc_inv p \<longleftrightarrow>
     (quit_closed (pr_server p) \<longleftrightarrow> pr_sig p = AtTransportClose \<or> pr_sig p = AtExit) \<and>
     (pr_listener p = None \<longleftrightarrow> pr_main p = AtListen \<or> (\<exists>e. pr_main p = AtError (StartListen e))) \<and>
     (pr_main p = AtStopping \<or> pr_main p = AtDeferredStop \<longrightarrow> quit_closed (pr_server p)) \<and>
     (pr_sig p = AtExit \<longrightarrow> pr_listener p \<noteq> None) \<and>
     pieces_ok (numPieces (ts_pieces (pr_server p)))"

text \<open>A reply of the tracker, in some state of it, at which the reading panics.\<close>

definition reply_panics ::
  "(string \<Rightarrow> url option) \<Rightarrow> ('w \<Rightarrow> url \<Rightarrow> http_result \<times> 'w) \<Rightarrow> proc \<Rightarrow> go_panic \<Rightarrow> bool" where
  "reply_panics urlParse get p q \<longleftrightarrow>
     (\<exists>w tc left event w'. Announce urlParse get w tc (nd_trackerUrl (pr_node p)) (tr_infoHash (nd_transport (pr_node p)))
        left event = (Inl (Panic q), w'))"

text \<open>Why a process has ended.\<close>

definition end_ok :: "(string \<Rightarrow> url option) \<Rightarrow> ('w \<Rightarrow> url \<Rightarrow> http_result \<times> 'w) \<Rightarrow> proc \<Rightarrow> proc_end \<Rightarrow> bool" where
  "end_ok urlParse get p x \<longleftrightarrow>
     x = ExitCode 1 \<and> (\<exists>e. pr_main p = AtError e) \<or>
     x = ExitCode 0 \<and> pr_sig p = AtExit \<or>
     x = Crash SignalGoroutine NilDereference \<and> pr_sig p = AtTransportClose \<and> pr_listener p = None \<or>
     x = Crash MainGoroutine CloseClosedChannel \<and> pr_main p = AtDeferredStop \<or>
     (\<exists>q. x = Crash MainGoroutine q \<and> (pr_main p = AtBootstrap \<or> pr_main p = AtStopping) \<and> reply_panics urlParse get p q) \<or>
     (\<exists>q. x = Crash TrackerGoroutine q \<and> reply_panics urlParse get p q) \<or>
     (\<exists>q. x = Crash ConnGoroutine q \<and> pr_listener p \<noteq> None)"

lemma new_proc_inv:
  assumes "listener (nd_transport nd) = None" and "\<not> quit_closed (nd_server nd)"
    and "pieces_ok (numPieces (ts_pieces (nd_server nd)))"
  shows "proc_inv (new_proc nd)"
  using assms by (simp add: proc_inv_def)

lemma proc_inv_deferred: "proc_inv p \<Longrightarrow> pr_main p = AtDeferredStop \<Longrightarrow> node_Stop (pr_node p) = Inl CloseClosedChannel"
  unfolding proc_inv_def using node_Stop_closed by blast

lemma proc_inv_stop: "proc_inv p \<Longrightarrow> pr_sig p = AtQuitClose \<Longrightarrow> Stop (pr_server p) = Inr ((pr_server p)\<lparr>quit_closed := True\<rparr>)"
  by (simp add: Stop_Inr proc_inv_def)

lemma served_inv:
  assumes "proc_inv p" and "loop_step env ev (pr_server p) = Inr (ts', effs)"
  shows "proc_inv (served p effs' ts')"
  using assms(1) loop_step_quit [OF assms(2)] loop_step_numPieces [OF assms(2)] by (auto simp: proc_inv_def)

lemma other_step_inv:
  assumes "other_step urlParse get p p'" and "proc_inv p"
  shows "proc_inv p'"
  using assms
proof (induction rule: other_step.induct)
  case (conn p ts')
  from conn_step_frame(1,2) [OF conn(2)] conn(3) show ?case by (auto simp: proc_inv_def)
next
  case (announce p xs event ys nd w res w' p')
  then show ?case by (auto simp: proc_inv_def split: sum.split fail.split)
next
  case (stats p xs ys nd w env res w' tc p')
  then show ?case by (auto simp: proc_inv_def split: sum.split fail.split)
next
  case (quit_close p p')
  then have "Stop (pr_server p) = Inr ((pr_server p)\<lparr>quit_closed := True\<rparr>)" using proc_inv_stop by simp
  with quit_close show ?case by (simp add: proc_inv_def)
qed (auto simp: proc_inv_def transport_Close_sum split: if_splits)

lemma main_step_inv:
  assumes "main_step netListen urlParse get p effs p'" and "proc_inv p"
  shows "proc_inv p'"
  using assms
proof (induction rule: main_step.induct)
  case (listen p t)
  then show ?case using ListenAndAccept_listener by (fastforce simp: proc_inv_def)
next
  case (bootstrap p nd own port tc w res w' p')
  then show ?case by (auto simp: proc_inv_def split: sum.split fail.split prod.split)
next
  case (serve p env ev ts' effs)
  then show ?case by (intro served_inv)
next
  case (stopped p nd w res w' p')
  then show ?case by (auto simp: proc_inv_def split: sum.split fail.split)
next
  case (deferred p p')
  then have "node_Stop (pr_node p) = Inl CloseClosedChannel" using proc_inv_deferred by simp
  with deferred show ?case by (auto simp: proc_inv_def)
qed (auto simp: proc_inv_def)

lemma proc_step_inv:
  assumes "proc_step netListen urlParse get p effs p'" and "proc_inv p"
  shows "proc_inv p'"
  using assms by (cases rule: proc_step.cases) (blast intro: main_step_inv other_step_inv served_inv)+

lemma other_step_end:
  assumes "other_step urlParse get p p'" and "proc_inv p" and "pr_end p = None" and "pr_end p' = Some x"
  shows "end_ok urlParse get p' x"
  using assms
proof (induction rule: other_step.induct)
  case (announce p xs event ys nd w res w' p')
  then obtain q where res: "res = Inl (Panic q)" by (auto split: sum.splits fail.splits)
  with announce have "reply_panics urlParse get p' q"
    using AnnounceToTracker_panic unfolding reply_panics_def by fastforce
  with announce res show ?case by (auto simp: end_ok_def)
next
  case (stats p xs ys nd w env res w' tc p')
  then obtain q where res: "res = Inl (Panic q)" by (auto split: sum.splits fail.splits)
  with stats have "reply_panics urlParse get p' q"
    using UpdateTrackerStats_panic unfolding reply_panics_def by fastforce
  with stats res show ?case by (auto simp: end_ok_def)
next
  case (quit_close p p')
  then have "Stop (pr_server p) = Inr ((pr_server p)\<lparr>quit_closed := True\<rparr>)" using proc_inv_stop by simp
  with quit_close show ?case by simp
qed (auto simp: end_ok_def transport_Close_sum split: if_splits)

lemma main_step_end:
  assumes "main_step netListen urlParse get p effs p'" and "proc_inv p" and "pr_end p = None" and "pr_end p' = Some x"
  shows "end_ok urlParse get p' x"
  using assms
proof (induction rule: main_step.induct)
  case (bootstrap p nd own port tc w res w' p')
  then obtain q where res: "res = Inl (Panic q)" by (auto split: sum.splits fail.splits prod.splits)
  with bootstrap have "reply_panics urlParse get p' q"
    using bootstrap_panic unfolding reply_panics_def by fastforce
  with bootstrap res show ?case by (auto simp: end_ok_def)
next
  case (serve_panic p env ev q)
  then have "\<exists>ts' effs. loop_step env ev (pr_server p) = Inr (ts', effs)"
    by (intro loop_step_total) (simp add: proc_inv_def)
  with serve_panic show ?case by simp
next
  case (stopped p nd w res w' p')
  then obtain q where res: "res = Inl (Panic q)" by (auto split: sum.splits fail.splits)
  with stopped have "reply_panics urlParse get p' q"
    using AnnounceToTracker_panic unfolding reply_panics_def by fastforce
  with stopped res show ?case by (auto simp: end_ok_def)
next
  case (deferred p p')
  then have "node_Stop (pr_node p) = Inl CloseClosedChannel" using proc_inv_deferred by simp
  with deferred show ?case by (simp add: end_ok_def)
qed (auto simp: end_ok_def)

lemma proc_step_end:
  assumes "proc_step netListen urlParse get p effs p'" and "proc_inv p" and "pr_end p' = Some x"
  shows "end_ok urlParse get p' x"
  using assms(1)
proof cases
  case main
  then show ?thesis using main_step_end assms(2,3) by blast
next
  case other
  then show ?thesis using other_step_end assms(2,3) by blast
next
  case (cut env ev ts' effs0)
  from other_step_end [OF cut(6) served_inv [OF assms(2) cut(3)] _ assms(3)] cut(1) show ?thesis by simp
qed

lemma proc_run_inv:
  assumes "proc_run netListen urlParse get p effs p'" and "proc_inv p" and "pr_end p = None"
  shows "proc_inv p' \<and> (\<forall>x. pr_end p' = Some x \<longrightarrow> end_ok urlParse get p' x)"
  using assms
proof (induction rule: proc_run.induct)
  case (more p effs p' effs' p'')
  then have "proc_inv p'" by blast
  with more(2) proc_step_inv proc_step_end show ?case by blast
qed simp

section \<open>A process and its server\<close>

text \<open>
  A run of the process is a run of its server, and what it does to the file is what that run does, or
  less when it ended in between.
\<close>

definition all_leave :: "effect list \<Rightarrow> bytes \<Rightarrow> bool" where
  "all_leave effs data \<longleftrightarrow> (\<forall>e \<in> set effs. file_effect e \<longrightarrow> leaves e data)"

definition covered :: "effect list \<Rightarrow> effect list \<Rightarrow> bool" where
  "covered effs effs0 \<longleftrightarrow> (\<forall>data. all_leave effs0 data \<longrightarrow> all_leave effs data)"

lemma all_leave_simps [simp]:
  "all_leave [] data" "all_leave (effs @ effs') data \<longleftrightarrow> all_leave effs data \<and> all_leave effs' data"
  "all_leave (e # effs) data \<longleftrightarrow> (file_effect e \<longrightarrow> leaves e data) \<and> all_leave effs data"
  by (auto simp: all_leave_def)

lemma file_content_leaves: "file_effect e \<Longrightarrow> leaves e data \<Longrightarrow> prefix (take n (file_content e)) data"
  by (cases e) (auto intro: prefix_order.trans take_is_prefix)

lemma cut_off_covered: "cut_off effs effs' \<Longrightarrow> covered effs' effs"
  unfolding cut_off_def covered_def by (auto simp: file_content_leaves elim!: prefixE)

lemma stop_run: "Stop ts = Inr ts' \<Longrightarrow> server_run ts [] ts'"
  by (rule server_run_step [OF server_step.stop])

lemma other_step_server:
  assumes "other_step urlParse get p p'"
  shows "server_run (pr_server p) [] (pr_server p')"
  using assms
proof (induction rule: other_step.induct)
  case (conn p ts')
  from conn_step_frame(3) [OF conn(2)] show ?case by (simp add: server_run_step)
next
  case (announce p xs event ys nd w res w' p')
  then show ?case by (auto intro: server_run.start split: sum.split fail.split)
next
  case (stats p xs ys nd w env res w' tc p')
  then show ?case by (auto intro: server_run.start split: sum.split fail.split)
next
  case (quit_close p p')
  then show ?case by (auto intro: server_run.start stop_run split: sum.split)
next
  case (transport_close p p')
  then show ?case by (auto intro: server_run.start split: sum.split)
qed (simp_all add: server_run.start)

lemma loop_step_run:
  assumes "loop_step env ev ts = Inr (ts', effs)" and "\<And>uenv. ev = UnchokeTick uenv \<Longrightarrow> env_ok uenv (ts_swarm ts)"
  shows "server_run ts effs ts'"
  using loop_step_server_step [OF assms] by (rule server_run_step)

lemma main_step_server:
  assumes "main_step netListen urlParse get p effs p'"
  shows "\<exists>effs0. server_run (pr_server p) effs0 (pr_server p') \<and> covered effs effs0"
  using assms
proof (induction rule: main_step.induct)
  case (serve p env ev ts' effs)
  from loop_step_run [OF serve(2,3)] show ?case by (intro exI [of _ effs]) (simp add: covered_def)
next
  case (bootstrap p nd own port tc w res w' p')
  then show ?case
    by (intro exI [of _ "[]"]) (auto simp: covered_def intro: server_run.start split: sum.split fail.split prod.split)
next
  case (stopped p nd w res w' p')
  then show ?case
    by (intro exI [of _ "[]"]) (auto simp: covered_def intro: server_run.start split: sum.split fail.split)
next
  case (deferred p p')
  then show ?case
    by (intro exI [of _ "[]"])
      (auto simp: covered_def node_Stop_def bindE_Inr_iff split: sum.split intro: server_run.start stop_run)
qed (intro exI [of _ "[]"], simp add: covered_def server_run.start)+

lemma proc_step_server:
  assumes "proc_step netListen urlParse get p effs p'"
  shows "\<exists>effs0. server_run (pr_server p) effs0 (pr_server p') \<and> covered effs effs0"
  using assms
proof cases
  case main
  then show ?thesis using main_step_server by blast
next
  case other
  from other_step_server [OF other(3)] other(1) show ?thesis by (auto simp: covered_def)
next
  case (cut env ev ts' effs0)
  have "server_run (pr_server p) effs0 ts'" using cut(3,4) by (rule loop_step_run)
  moreover have "server_run ts' [] (pr_server p')" using other_step_server [OF cut(6)] by simp
  ultimately have "server_run (pr_server p) effs0 (pr_server p')" using server_run_trans by fastforce
  with cut_off_covered [OF cut(5)] show ?thesis by blast
qed

lemma proc_run_server:
  assumes "proc_run netListen urlParse get p effs p'"
  shows "\<exists>effs0. server_run (pr_server p) effs0 (pr_server p') \<and> covered effs effs0"
  using assms
proof (induction rule: proc_run.induct)
  case (here p)
  then show ?case by (auto simp: covered_def intro: server_run.start)
next
  case (more p effs p' effs' p'')
  then obtain effs0 effs1 where "server_run (pr_server p) effs0 (pr_server p')" "covered effs effs0"
      "server_run (pr_server p') effs1 (pr_server p'')" "covered effs' effs1"
    using proc_step_server by blast
  then have "server_run (pr_server p) (effs0 @ effs1) (pr_server p'') \<and> covered (effs @ effs') (effs0 @ effs1)"
    using server_run_trans by (auto simp: covered_def)
  then show ?case by blast
qed

text \<open>The loop is left only through the announce of the stop.\<close>

lemma other_step_main: "other_step urlParse get p p' \<Longrightarrow> pr_main p' = pr_main p"
  by (induction rule: other_step.induct) (auto split: sum.split fail.split)

lemma proc_step_said:
  assumes "proc_step netListen urlParse get p effs p'" and "pr_main p' = AtStopping \<or> pr_main p' = AtDeferredStop"
  shows "pr_main p = AtStopping \<or> pr_main p = AtDeferredStop \<or> AnnounceNow ''stopped'' \<in> set effs"
  using assms(1)
proof cases
  case main
  from main(2) assms(2) show ?thesis
    by (cases rule: main_step.cases) (auto split: sum.splits fail.splits prod.splits)
next
  case other
  then show ?thesis using other_step_main assms(2) by metis
next
  case cut
  then show ?thesis using other_step_main [OF cut(6)] assms(2) by simp
qed

lemma proc_run_said:
  assumes "proc_run netListen urlParse get p effs p'" and "pr_main p = AtListen"
    and "pr_main p' = AtStopping \<or> pr_main p' = AtDeferredStop"
  shows "AnnounceNow ''stopped'' \<in> set effs"
  using assms
proof (induction rule: proc_run.induct)
  case (more p effs p' effs' p'')
  then show ?case using proc_step_said by fastforce
qed simp

section \<open>Runs\<close>

lemma proc_run_step: "proc_step netListen urlParse get p effs p' \<Longrightarrow> proc_run netListen urlParse get p effs p'"
  using proc_run.more [OF proc_run.here] by simp

lemma proc_run_trans:
  assumes "proc_run netListen urlParse get p' effs' p''" and "proc_run netListen urlParse get p effs p'"
  shows "proc_run netListen urlParse get p (effs @ effs') p''"
  using assms
proof (induction rule: proc_run.induct)
  case (here p')
  then show ?case by simp
next
  case (more p1 effs1 p2 effs2 p3)
  then have "proc_run netListen urlParse get p ((effs @ effs1) @ effs2) p3" using proc_run.more by blast
  then show ?case by simp
qed

lemma main_run: "pr_end p = None \<Longrightarrow> main_step netListen urlParse get p effs p' \<Longrightarrow> proc_run netListen urlParse get p effs p'"
  by (rule proc_run_step [OF proc_step.main])

lemma other_run: "pr_end p = None \<Longrightarrow> other_step urlParse get p p' \<Longrightarrow> proc_run netListen urlParse get p [] p'"
  by (rule proc_run_step [OF proc_step.other])

lemma quiet_run:
  assumes "proc_run netListen urlParse get p [] p'" and "proc_run netListen urlParse get p' effs p''"
  shows "proc_run netListen urlParse get p effs p''"
  using proc_run_trans [OF assms(2,1)] by simp

text \<open>A successful \<open>Start\<close> is a run of the process.\<close>

lemma Start_run:
  assumes "Start netListen urlParse get w nd = (Inr dials, nd', w')" and "listener (nd_transport nd) = None"
  shows "proc_run netListen urlParse get (new_proc nd) [] ((new_proc nd)\<lparr>pr_node := nd', pr_main := AtLoop\<rparr>)"
proof (cases "netListen (listen_addr (nd_transport nd))")
  case None
  with assms(1) show ?thesis by (simp add: Start_def ListenAndAccept_def)
next
  case (Some b)
  obtain own port where b: "b = (own, port)" by fastforce
  let ?t = "(nd_transport nd)\<lparr>listener := Some (own, port)\<rparr>" and ?tc = "server_client (nd_peerID nd) port"
  let ?nd1 = "nd\<lparr>nd_transport := ?t\<rparr>"
  let ?p1 = "(new_proc nd)\<lparr>pr_node := ?nd1, pr_main := AtBootstrap\<rparr>"
  have "ListenAndAccept netListen (nd_transport (pr_node (new_proc nd))) = Inr ?t"
    by (simp add: ListenAndAccept_def Some b)
  from main_run [OF _ main_step.listen [OF _ this, of urlParse get]]
  have p1: "proc_run netListen urlParse get (new_proc nd) [] ?p1" by (simp add: new_proc_def)
  obtain bres w1 where boot: "bootstrapNetwork urlParse get w ?tc (nd_trackerUrl nd) (tr_infoHash (nd_transport nd)) own (nd_bootstrap nd) = (bres, w1)"
    by fastforce
  from Start_bootstraps [where netListen = netListen and nd = nd and own = own and port = port, OF Some [unfolded b] boot] assms(1)
  obtain nodes where nodes: "bres = Inr (nodes, dials)" "nd' = ?nd1\<lparr>nd_client := ?tc, nd_bootstrap := nodes\<rparr>"
    by (auto simp: Let_def split: sum.splits fail.splits)
  have "proc_run netListen urlParse get ?p1 [] (?p1\<lparr>pr_node := ?nd1\<lparr>nd_client := ?tc, nd_bootstrap := nodes\<rparr>, pr_main := AtLoop\<rparr>)"
    by (rule main_run, simp, rule main_step.bootstrap [where nd = ?nd1 and own = own and port = port and tc = ?tc
        and w = w and res = bres and w' = w1]) (simp_all add: boot nodes(1))
  from quiet_run [OF p1 this] show ?thesis by (simp add: nodes(2))
qed

section \<open>After a signal\<close>

text \<open>The goroutine of the signal is never blocked: on its own it ends the process.\<close>

lemma exit_now:
  assumes "pr_end p = None" and "pr_sig p = AtExit"
  shows "proc_run netListen urlParse get p [] (p\<lparr>pr_end := Some (ExitCode 0)\<rparr>)"
  using other_run [OF assms(1) other_step.exit [OF assms(2)]] .

lemma close_and_exit:
  assumes "pr_end p = None" and "pr_sig p = AtTransportClose"
  shows "\<exists>p'. proc_run netListen urlParse get p [] p' \<and>
    pr_end p' = Some (if pr_listener p = None then Crash SignalGoroutine NilDereference else ExitCode 0)"
proof (cases "pr_listener p")
  case None
  from other_run [OF assms(1) other_step.transport_close [OF assms(2) refl]] None
  show ?thesis by (intro exI) (auto simp: transport_Close_sum)
next
  case (Some b)
  have "other_step urlParse get p (p\<lparr>pr_sig := AtExit\<rparr>)"
    by (rule other_step.transport_close [OF assms(2)]) (simp add: transport_Close_sum Some)
  from quiet_run [OF other_run [OF assms(1) this] exit_now] assms(1) Some
  show ?thesis by (intro exI conjI) (assumption | simp)+
qed

lemma stop_and_exit:
  assumes "pr_end p = None" and "pr_sig p = AtQuitClose" and "\<not> quit_closed (pr_server p)"
  shows "\<exists>p'. proc_run netListen urlParse get p [] p' \<and>
    pr_end p' = Some (if pr_listener p = None then Crash SignalGoroutine NilDereference else ExitCode 0)"
proof -
  let ?p1 = "(with_server p ((pr_server p)\<lparr>quit_closed := True\<rparr>))\<lparr>pr_sig := AtTransportClose\<rparr>"
  have "other_step urlParse get p ?p1"
    using assms(3) by (intro other_step.quit_close [OF assms(2)]) (simp add: Stop_def)
  then have "proc_run netListen urlParse get p [] ?p1" by (rule other_run [OF assms(1)])
  moreover obtain p' where "proc_run netListen urlParse get ?p1 [] p'"
      "pr_end p' = Some (if pr_listener p = None then Crash SignalGoroutine NilDereference else ExitCode 0)"
    using close_and_exit [where p = ?p1 and netListen = netListen and urlParse = urlParse and get = get] assms(1) by auto
  ultimately show ?thesis using quiet_run by blast
qed

lemma signal_ends:
  assumes "pr_end p = None" and "proc_inv p"
  shows "\<exists>p'. proc_run netListen urlParse get p [] p' \<and>
    pr_end p' = Some (if pr_listener p = None then Crash SignalGoroutine NilDereference else ExitCode 0)"
proof (cases "pr_sig p")
  case NoSignal
  let ?p1 = "p\<lparr>pr_sig := AtQuitClose\<rparr>"
  have "\<not> quit_closed (pr_server ?p1)" using assms(2) NoSignal by (simp add: proc_inv_def)
  then obtain p' where "proc_run netListen urlParse get ?p1 [] p'"
      "pr_end p' = Some (if pr_listener p = None then Crash SignalGoroutine NilDereference else ExitCode 0)"
    using stop_and_exit [where p = ?p1 and netListen = netListen and urlParse = urlParse and get = get] assms(1) by auto
  then show ?thesis using quiet_run [OF other_run [OF assms(1) other_step.signal [OF NoSignal]]] by blast
next
  case AtQuitClose
  moreover from this have "\<not> quit_closed (pr_server p)" using assms(2) by (simp add: proc_inv_def)
  ultimately show ?thesis by (rule stop_and_exit [OF assms(1)])
next
  case AtTransportClose
  then show ?thesis using close_and_exit assms(1) by blast
next
  case AtExit
  then have "pr_listener p \<noteq> None" using assms(2) unfolding proc_inv_def by blast
  then show ?thesis using exit_now [OF assms(1) AtExit] by (intro exI conjI) (assumption | simp)+
qed

text \<open>The race: what the loop gets to do before \<open>os.Exit\<close>, and how it ends when it gets to its own end.\<close>

definition stop_crash :: "(session_err fail + unit) \<Rightarrow> go_panic" where
  "stop_crash res = (case res of Inl (Panic q) \<Rightarrow> q | _ \<Rightarrow> CloseClosedChannel)"

lemma race:
  assumes "pr_end p = None" and "proc_inv p" and "pr_main p = AtLoop" and "pr_sig p = NoSignal"
  shows "\<exists>p'. proc_run netListen urlParse get p [AnnounceNow ''stopped''] p' \<and> pr_end p' = Some (ExitCode 0)"
    and "\<exists>p'. proc_run netListen urlParse get p [AnnounceNow ''stopped''] p' \<and>
      pr_end p' = Some (Crash MainGoroutine (stop_crash (fst (AnnounceToTracker urlParse get w (Some (nd_client (pr_node p)))
        (nd_trackerUrl (pr_node p)) (tr_infoHash (nd_transport (pr_node p))) (pr_server p) ''stopped''))))"
proof -
  have quit: "\<not> quit_closed (pr_server p)" and lis: "pr_listener p \<noteq> None" using assms by (auto simp: proc_inv_def)
  let ?p1 = "p\<lparr>pr_sig := AtQuitClose\<rparr>"
  let ?p2 = "(with_server ?p1 ((pr_server p)\<lparr>quit_closed := True\<rparr>))\<lparr>pr_sig := AtTransportClose\<rparr>"
  let ?p3 = "?p2\<lparr>pr_main := AtStopping\<rparr>"
  have alive: "pr_end ?p1 = None" "pr_end ?p2 = None" "pr_end ?p3 = None" using assms(1) by simp_all
  have p2: "other_step urlParse get ?p1 ?p2" using quit by (intro other_step.quit_close) (simp_all add: Stop_def)
  have p3: "main_step netListen urlParse get ?p2 [AnnounceNow ''stopped''] ?p3"
    using assms(3) by (intro main_step.quit) simp_all
  have to3: "proc_run netListen urlParse get p [AnnounceNow ''stopped''] ?p3"
    by (rule quiet_run [OF other_run [OF assms(1) other_step.signal [OF assms(4)]]
          quiet_run [OF other_run [OF alive(1) p2] main_run [OF alive(2) p3]]])
  obtain p' where "proc_run netListen urlParse get ?p3 [] p'" "pr_end p' = Some (ExitCode 0)"
    using close_and_exit [where p = ?p3 and netListen = netListen and urlParse = urlParse and get = get] assms(1) lis by auto
  from proc_run_trans [OF this(1) to3] this(2)
  show "\<exists>p'. proc_run netListen urlParse get p [AnnounceNow ''stopped''] p' \<and> pr_end p' = Some (ExitCode 0)" by auto
  obtain res w' where call: "AnnounceToTracker urlParse get w (Some (nd_client (pr_node p)))
      (nd_trackerUrl (pr_node p)) (tr_infoHash (nd_transport (pr_node p))) (pr_server p) ''stopped'' = (res, w')"
    by fastforce
  have "\<exists>p'. proc_run netListen urlParse get ?p3 [] p' \<and> pr_end p' = Some (Crash MainGoroutine (stop_crash res))"
  proof (cases "\<exists>q. res = Inl (Panic q)")
    case True
    then obtain q where q: "res = Inl (Panic q)" by blast
    have "main_step netListen urlParse get ?p3 [] (?p3\<lparr>pr_end := Some (Crash MainGoroutine q)\<rparr>)"
      by (rule main_step.stopped [where nd = "pr_node ?p3" and w = w and res = res and w' = w']) (simp_all add: call q with_server_def)
    from main_run [OF alive(3) this] show ?thesis
      by (intro exI [of _ "?p3\<lparr>pr_end := Some (Crash MainGoroutine q)\<rparr>"]) (simp add: q stop_crash_def)
  next
    case False
    let ?p4 = "?p3\<lparr>pr_main := AtDeferredStop\<rparr>"
    have crash: "stop_crash res = CloseClosedChannel" using False by (auto simp: stop_crash_def split: sum.split fail.split)
    have "main_step netListen urlParse get ?p3 [] ?p4"
      by (rule main_step.stopped [where nd = "pr_node ?p3" and w = w and res = res and w' = w'])
        (use False in \<open>auto simp: call with_server_def split: sum.split fail.split\<close>)
    moreover have "main_step netListen urlParse get ?p4 [] (?p4\<lparr>pr_end := Some (Crash MainGoroutine CloseClosedChannel)\<rparr>)"
      by (intro main_step.deferred) (simp_all add: node_Stop_closed)
    moreover have "pr_end ?p4 = None" using assms(1) by simp
    ultimately have "proc_run netListen urlParse get ?p3 [] (?p4\<lparr>pr_end := Some (Crash MainGoroutine CloseClosedChannel)\<rparr>)"
      using quiet_run [OF main_run [OF alive(3)] main_run] by blast
    then show ?thesis
      by (intro exI [of _ "?p4\<lparr>pr_end := Some (Crash MainGoroutine CloseClosedChannel)\<rparr>"]) (simp add: crash)
  qed
  then obtain p' where "proc_run netListen urlParse get ?p3 [] p'" "pr_end p' = Some (Crash MainGoroutine (stop_crash res))" by blast
  from proc_run_trans [OF this(1) to3] this(2)
  show "\<exists>p'. proc_run netListen urlParse get p [AnnounceNow ''stopped''] p' \<and>
      pr_end p' = Some (Crash MainGoroutine (stop_crash (fst (AnnounceToTracker urlParse get w (Some (nd_client (pr_node p)))
        (nd_trackerUrl (pr_node p)) (tr_infoHash (nd_transport (pr_node p))) (pr_server p) ''stopped''))))"
    by (auto simp: call)
qed

section \<open>A handshake that ends the process\<close>

lemma bad_handshake:
  assumes "is20 (tr_infoHash t)" and "is20 (tr_localID t)" and "length (resp :: bytes) = 68" and "67 < uint (resp ! 0)"
  obtains q h where "handleConn_open (OnPeer now) (tr_infoHash t) (tr_localID t) c outb True e (resp @ r) heap s =
    (buildHandshake (tr_infoHash t) (tr_localID t), Inl (Panic q), h, s)"
proof -
  obtain q where "check_response (tr_infoHash t) (tr_localID t) resp = Inl (Panic q)"
    using check_response_panic [OF assms(3)] assms(4) by blast
  then have "DefaultHandshakeFunc (tr_infoHash t) (tr_localID t) outb True e (resp @ r) =
      (buildHandshake (tr_infoHash t) (tr_localID t), Inl (Panic q))"
    using DefaultHandshakeFunc_response [OF assms(1-3)] by simp
  with that show thesis by (simp add: handleConn_open_def)
qed

text \<open>The transport keeps its ids.\<close>

lemma other_step_ids:
  assumes "other_step urlParse get p p'"
  shows "nd_transport (pr_node p') = nd_transport (pr_node p)"
  using assms by (induction rule: other_step.induct) (auto split: sum.split fail.split)

lemma main_step_ids:
  assumes "main_step netListen urlParse get p effs p'"
  shows "tr_infoHash (nd_transport (pr_node p')) = tr_infoHash (nd_transport (pr_node p)) \<and>
    tr_localID (nd_transport (pr_node p')) = tr_localID (nd_transport (pr_node p))"
  using assms
proof (induction rule: main_step.induct)
  case (listen p t)
  then show ?case using ListenAndAccept_listener by fastforce
next
  case (bootstrap p nd own port tc w res w' p')
  then show ?case by (auto split: sum.split fail.split prod.split)
next
  case (stopped p nd w res w' p')
  then show ?case by (auto split: sum.split fail.split)
next
  case (deferred p p')
  then show ?case by (auto simp: node_Stop_def bindE_Inr_iff split: sum.split)
qed simp_all

lemma proc_step_ids:
  assumes "proc_step netListen urlParse get p effs p'"
  shows "tr_infoHash (nd_transport (pr_node p')) = tr_infoHash (nd_transport (pr_node p)) \<and>
    tr_localID (nd_transport (pr_node p')) = tr_localID (nd_transport (pr_node p))"
  using assms by cases (use main_step_ids other_step_ids in \<open>fastforce+\<close>)

lemma proc_run_ids:
  assumes "proc_run netListen urlParse get p effs p'"
  shows "tr_infoHash (nd_transport (pr_node p')) = tr_infoHash (nd_transport (pr_node p)) \<and>
    tr_localID (nd_transport (pr_node p')) = tr_localID (nd_transport (pr_node p))"
  using assms
proof (induction rule: proc_run.induct)
  case (more p effs p' effs' p'')
  then show ?case using proc_step_ids by metis
qed simp

section \<open>Properties\<close>

lemma launch_fields:
  assumes "launch opts pm i rand heap = Some nd"
  shows "nd_server nd = NewTorrentServer i (so_infoHash opts) pm heap" and "listener (nd_transport nd) = None"
    and "tr_infoHash (nd_transport nd) = so_infoHash opts" and "nd_bootstrap nd = []"
  using new_node_fields [OF assms [unfolded launch_new]] by simp_all

lemma launch_inv:
  assumes "launch opts pm i rand heap = Some nd" and "pieces_ok (numPieces pm)"
  shows "proc_inv (new_proc nd)"
  using launch_fields [OF assms(1)] assms(2)
  by (intro new_proc_inv) (simp_all add: NewTorrentServer_def NewSwarm_def)

lemma launch_run_inv:
  assumes "launch opts pm i rand heap = Some nd" and "pieces_ok (numPieces pm)"
    and "proc_run netListen urlParse get (new_proc nd) effs p"
  shows "proc_inv p" and "\<And>x. pr_end p = Some x \<Longrightarrow> end_ok urlParse get p x"
  using proc_run_inv [OF assms(3) launch_inv [OF assms(1,2)]] by simp_all

text \<open>
  C7.  The ways a process ends, apart from what the Go runtime does on its own (memory or stack exhausted,
  a signal nobody handles).  For a piece count that fits the allocations: with code 1, after an error
  of \<open>Start\<close>; with code 0, after a signal that came with the listener up; with a nil dereference, after
  a signal without listener; with the second close of the quit channel, after a signal; signal or
  not, with the panic of reading a reply of the tracker, to any announce of the main goroutine or of one
  in the background; and, once it listens, with a panic of a connection.  No message of a peer
  and no tick ends it, and \<open>Start\<close> never returns nil.
\<close>

theorem process_ends:
  assumes "launch opts pm i rand heap = Some nd" and "pieces_ok (numPieces pm)"
    and "proc_run netListen urlParse get (new_proc nd) effs p" and "pr_end p = Some x"
  shows "x = ExitCode 1 \<and> (\<exists>e. pr_main p = AtError e) \<or>
    pr_sig p \<noteq> NoSignal \<and>
      (x = ExitCode 0 \<and> pr_listener p \<noteq> None \<or>
       x = Crash SignalGoroutine NilDereference \<and> pr_listener p = None \<or>
       x = Crash MainGoroutine CloseClosedChannel \<and> AnnounceNow ''stopped'' \<in> set effs) \<or>
    (\<exists>g q. x = Crash g q \<and> g \<in> {MainGoroutine, TrackerGoroutine} \<and> reply_panics urlParse get p q) \<or>
    (\<exists>q. x = Crash ConnGoroutine q \<and> pr_listener p \<noteq> None)"
proof -
  note inv = launch_run_inv [OF assms(1-3)]
  have "AnnounceNow ''stopped'' \<in> set effs" if "pr_main p = AtDeferredStop"
    using proc_run_said [OF assms(3)] that by simp
  moreover have "pr_sig p \<noteq> NoSignal" if "quit_closed (pr_server p)"
    using inv(1) that by (auto simp: proc_inv_def)
  moreover have "quit_closed (pr_server p)" if "pr_main p = AtDeferredStop" using inv(1) that unfolding proc_inv_def by blast
  moreover have "pr_listener p \<noteq> None" if "pr_main p = AtBootstrap \<or> pr_main p = AtStopping \<or> pr_sig p = AtExit"
    using inv(1) that unfolding proc_inv_def by fastforce
  ultimately show ?thesis using inv(2) [OF assms(4)] unfolding end_ok_def by (elim disjE) force+
qed

definition dead_listen :: "string \<Rightarrow> (string \<times> int) option" where
  "dead_listen addr = None"

definition sample_opts :: server_opts where
  "sample_opts = \<lparr>so_listen = listen_on ''0'', so_infoHash = sample_hash, so_tracker = ''tracker'', so_root = ''downloads'', so_format = ''bin''\<rparr>"

lemma pieces_ok_1: "pieces_ok (numPieces (NewPieceManager 1))"
  by (simp add: NewPieceManager_def pieces_ok_def max_alloc_def)

text \<open>A signal before the listener is there.\<close>

theorem process_ends_witness:
  "\<exists>nd p. launch sample_opts (NewPieceManager 1) zero20 (Some zero20) (\<lambda>_. NewTCPPeer True) = Some nd \<and>
     proc_run dead_listen sample_parse (sample_get 5 ''10.0.0.1:4000'') (new_proc nd) [] p \<and>
     pr_end p = Some (Crash SignalGoroutine NilDereference) \<and> pr_sig p \<noteq> NoSignal"
proof -
  let ?get = "sample_get 5 ''10.0.0.1:4000''"
  obtain nd where nd: "launch sample_opts (NewPieceManager 1) zero20 (Some zero20) (\<lambda>_. NewTCPPeer True) = Some nd"
    unfolding zero20_def using sample_launch by blast
  obtain p where p: "proc_run dead_listen sample_parse ?get (new_proc nd) [] p"
      "pr_end p = Some (Crash SignalGoroutine NilDereference)"
    using signal_ends [where p = "new_proc nd" and netListen = dead_listen and urlParse = sample_parse and get = ?get]
      launch_inv [OF nd pieces_ok_1] launch_fields(2) [OF nd] by auto
  from process_ends [OF nd pieces_ok_1 p] have "pr_sig p \<noteq> NoSignal" by auto
  with nd p show ?thesis by blast
qed

text \<open>
  C13.  The race of the shut-down.  From any moment at which a process without a signal is in its loop, one
  run ends it with code 0 before the loop has announced that it stops, so that the tracker keeps
  listing the peer; another one announces and then exits with code 0; and a third announces and then
  crashes, whatever state the tracker is in: with the panic of reading its reply if that panics, with
  the second close of the channel otherwise.
\<close>

theorem shutdown_race:
  assumes "launch opts pm i rand heap = Some nd" and "pieces_ok (numPieces pm)"
    and "proc_run netListen urlParse get (new_proc nd) effs p" and "pr_end p = None" and "pr_main p = AtLoop"
    and "pr_sig p = NoSignal"
  shows "(\<exists>p'. proc_run netListen urlParse get p [] p' \<and> pr_end p' = Some (ExitCode 0)) \<and>
    (\<exists>p'. proc_run netListen urlParse get p [AnnounceNow ''stopped''] p' \<and> pr_end p' = Some (ExitCode 0)) \<and>
    (\<forall>w. \<exists>p'. proc_run netListen urlParse get p [AnnounceNow ''stopped''] p' \<and>
      pr_end p' = Some (Crash MainGoroutine
        (case fst (AnnounceToTracker urlParse get w (Some (nd_client (pr_node p))) (nd_trackerUrl (pr_node p))
            (tr_infoHash (nd_transport (pr_node p))) (pr_server p) ''stopped'') of
           Inl (Panic q) \<Rightarrow> q
         | _ \<Rightarrow> CloseClosedChannel)))"
proof -
  note inv = launch_run_inv(1) [OF assms(1-3)]
  have "pr_listener p \<noteq> None" using inv assms(5) by (simp add: proc_inv_def)
  then have "\<exists>p'. proc_run netListen urlParse get p [] p' \<and> pr_end p' = Some (ExitCode 0)"
    using signal_ends [OF assms(4) inv, of netListen urlParse get] by (simp only: if_False)
  with race [OF assms(4) inv assms(5,6), of netListen urlParse get, unfolded stop_crash_def] show ?thesis
    by (intro conjI allI)
qed

text \<open>A process that has started at the tracker of the examples.\<close>

lemma sample_process:
  assumes "launch opts pm i rand heap = Some nd" and "so_tracker opts = t" and "announce_url sample_parse t"
    and "is20 i" and "is20 (so_infoHash opts)" and "plain_hash (so_infoHash opts)"
  obtains nd' where "proc_run sample_listen sample_parse (sample_get 5 ''10.0.0.1:4000'') (new_proc nd) []
      ((new_proc nd)\<lparr>pr_node := nd', pr_main := AtLoop\<rparr>)"
    and "nd_server nd' = NewTorrentServer i (so_infoHash opts) pm heap"
proof -
  let ?get = "sample_get 5 ''10.0.0.1:4000''"
  obtain res nd' m' where start: "Start sample_listen sample_parse ?get NewMemoryStorage nd = (res, nd', m')"
    by (metis prod_cases3)
  have remote: "str_ok ''10.0.0.1:4000''" by simp
  obtain dials where res: "res = Inr dials" "nd_server nd' = NewTorrentServer i (so_infoHash opts) pm heap"
    using start_announced(1) [OF marshals_benc mem_inv_New view_ok_New(1) order_ok_key_order assms(3,4) sample_session(7)
      assms(5,6) remote assms(1) [unfolded launch_new assms(2)] sample_listen_def start [unfolded sample_get_def]] by blast
  with that Start_run [OF start [unfolded res(1)] launch_fields(2) [OF assms(1)]] show thesis by auto
qed

lemma sample_opts_simps [simp]:
  "so_tracker sample_opts = ''tracker''" "so_infoHash sample_opts = sample_hash"
  by (simp_all add: sample_opts_def)

theorem shutdown_race_witness:
  "\<exists>nd p. launch sample_opts (NewPieceManager 1) zero20 (Some zero20) (\<lambda>_. NewTCPPeer True) = Some nd \<and>
     proc_run sample_listen sample_parse (sample_get 5 ''10.0.0.1:4000'') (new_proc nd) [] p \<and> pr_main p = AtLoop \<and>
     (\<exists>p'. proc_run sample_listen sample_parse (sample_get 5 ''10.0.0.1:4000'') p [] p' \<and> pr_end p' = Some (ExitCode 0))"
proof -
  obtain nd where nd: "launch sample_opts (NewPieceManager 1) zero20 (Some zero20) (\<lambda>_. NewTCPPeer True) = Some nd"
    unfolding zero20_def using sample_launch by blast
  obtain nd' where run: "proc_run sample_listen sample_parse (sample_get 5 ''10.0.0.1:4000'') (new_proc nd) []
      ((new_proc nd)\<lparr>pr_node := nd', pr_main := AtLoop\<rparr>)"
    by (rule sample_process [OF nd sample_opts_simps(1)])
      (use sample_session(1,4,5) is20_zero20 in \<open>simp_all\<close>)
  from shutdown_race [OF nd pieces_ok_1 run] nd run show ?thesis
    by (intro exI [of _ nd] exI [of _ "(new_proc nd)\<lparr>pr_node := nd', pr_main := AtLoop\<rparr>"]) simp
qed

text \<open>
  C31.  A connection whose first 68 bytes start with a length byte above 67 ends the whole process, at any
  time at which it listens, in whichever direction the connection was opened.
\<close>

theorem handshake_kills_process:
  assumes "launch opts pm i (Some rnd) heap = Some nd" and "is20 (so_infoHash opts)" and "20 \<le> length rnd"
    and "proc_run netListen urlParse get (new_proc nd) effs p" and "pr_end p = None" and "pr_listener p = Some b"
    and "\<forall>j. fmlookup (peers (ts_swarm (pr_server p))) j \<noteq> Some c"
    and "length (resp :: bytes) = 68" and "67 < uint (resp ! 0)" and "t = nd_transport (pr_node p)"
  shows "\<exists>q h. handleConn_open (OnPeer now) (tr_infoHash t) (tr_localID t) c outb True e (resp @ r)
      (ts_heap (pr_server p)) (ts_swarm (pr_server p)) =
        (buildHandshake (tr_infoHash t) (tr_localID t), Inl (Panic q), h, ts_swarm (pr_server p)) \<and>
    proc_run netListen urlParse get (new_proc nd) effs (p\<lparr>pr_end := Some (Crash ConnGoroutine q)\<rparr>)"
proof -
  have "is20 (tr_infoHash t)" "is20 (tr_localID t)"
    using proc_run_ids [OF assms(4)] assms(1-3,10)
    by (auto simp: launch_def new_node_def NewTCPTransport_def generate20ByteID_def is20_def)
  then obtain q h where conn: "handleConn_open (OnPeer now) (tr_infoHash t) (tr_localID t) c outb True e (resp @ r)
      (ts_heap (pr_server p)) (ts_swarm (pr_server p)) =
        (buildHandshake (tr_infoHash t) (tr_localID t), Inl (Panic q), h, ts_swarm (pr_server p))"
    using assms(8,9) by (rule bad_handshake)
  have "pr_listener p \<noteq> None" using assms(6) by simp
  from proc_run.more [OF assms(4) proc_step.other [OF assms(5) other_step.conn_panic [OF this assms(7,10) conn]]] conn
  show ?thesis by auto
qed

theorem handshake_kills_process_witness:
  "\<exists>nd p q. launch sample_opts (NewPieceManager 1) zero20 (Some zero20) (\<lambda>_. NewTCPPeer True) = Some nd \<and>
     proc_run sample_listen sample_parse (sample_get 5 ''10.0.0.1:4000'') (new_proc nd) [] p \<and>
     pr_end p = Some (Crash ConnGoroutine q)"
proof -
  obtain nd where nd: "launch sample_opts (NewPieceManager 1) zero20 (Some zero20) (\<lambda>_. NewTCPPeer True) = Some nd"
    unfolding zero20_def using sample_launch by blast
  obtain nd' where run: "proc_run sample_listen sample_parse (sample_get 5 ''10.0.0.1:4000'') (new_proc nd) []
      ((new_proc nd)\<lparr>pr_node := nd', pr_main := AtLoop\<rparr>)" (is "proc_run _ _ _ _ _ ?p")
    and nd': "nd_server nd' = NewTorrentServer zero20 sample_hash (NewPieceManager 1) (\<lambda>_. NewTCPPeer True)"
    by (rule sample_process [OF nd sample_opts_simps(1)])
      (use sample_session(1,4,5) is20_zero20 in \<open>simp_all\<close>)
  have "proc_inv ?p" using launch_run_inv(1) [OF nd pieces_ok_1 run] .
  then obtain b where b: "pr_listener ?p = Some b" by (auto simp: proc_inv_def)
  have "\<forall>j. fmlookup (peers (ts_swarm (pr_server ?p))) j \<noteq> Some 0"
    by (simp add: nd' NewTorrentServer_def NewSwarm_def)
  moreover have "is20 (so_infoHash sample_opts)" "20 \<le> length zero20" "pr_end ?p = None"
    using sample_session(4) by (simp_all add: zero20_def)
  ultimately obtain q where "proc_run sample_listen sample_parse (sample_get 5 ''10.0.0.1:4000'') (new_proc nd) []
      (?p\<lparr>pr_end := Some (Crash ConnGoroutine q)\<rparr>)"
    using handshake_kills_process [OF nd _ _ run _ b, of 0 "replicate 68 255"] by fastforce
  with nd show ?thesis by (intro exI [of _ nd] exI [of _ "?p\<lparr>pr_end := Some (Crash ConnGoroutine q)\<rparr>"] exI [of _ q]) simp
qed

text \<open>
  C4.  A whole process downloads right.  Paste the command that \<open>seed\<close> prints for a file that is not
  empty and has an extension, with a piece size within the seeder's bounds (\<open>seed_ok\<close>): whatever the trackers answer and the peers send, whenever connections come
  and go and a signal arrives, every file that the resulting process finishes writing is the
  seeder's, and one that a failed write or the end of the process leaves unfinished is the beginning of
  it, unless one of the pieces the process holds is an explicit SHA-1 collision with the seeder's.
\<close>

theorem process_writes_right:
  assumes "readFile (sf_file flags) = Some data" and "sf_piece_size flags = int k" and "seed_ok data k" and "data \<noteq> []"
    and "shell_plain (file_format (sf_file flags))" and "file_format (sf_file flags) \<noteq> []"
    and "shell_plain (sf_tracker flags)" and "sf_tracker flags \<noteq> []" and "parses_flags parse"
    and "seed_command readFile flags = Inr (optsS, pmS, outS)"
    and "parse (words (download_line optsS pmS)) = Some dflags" and "download_process dflags i rand heap = Inr (p0, outD)"
    and "proc_run netListen urlParse get p0 effs p"
  shows "(\<forall>x. WriteFile x \<in> set effs \<longrightarrow> x = data) \<and> (\<forall>x. PartialFile x \<in> set effs \<longrightarrow> prefix x data) \<or>
    (\<exists>j d. j < chunk_count k data \<and> GetPiece (ts_pieces (pr_server p)) (int j) = Some d \<and> d \<noteq> chunk k data j \<and>
       sha1_Sum d = sha1_Sum (chunk k data j))"
proof (cases "holds_collision (pr_server p) k data")
  case True
  then show ?thesis unfolding holds_collision_def by blast
next
  case False
  note seed = seed_command_result [OF assms(1-3,10)]
  have opts: "so_infoHash optsS = sha1_Sum data" "shell_plain (so_format optsS)" "so_format optsS \<noteq> []"
      "shell_plain (so_tracker optsS)" "so_tracker optsS \<noteq> []"
    using assms(5-8) by (simp_all add: seed(1) seed_opts_def)
  obtain optsD mgr out where dl: "download_command dflags = Inr (optsD, mgr, out)"
      "runDownload (hex_encode (sha1_Sum data)) (numPieces pmS) (hex_encode (chunk_hashes k data (chunk_count k data))) =
        Inr (sha1_Sum data, mgr)" "so_infoHash optsD = sha1_Sum data"
    using paste_command [OF seed(3) assms(3,4) opts assms(9)] assms(11) by (metis option.inject)
  then obtain nd where nd: "launch optsD mgr i rand heap = Some nd" "p0 = new_proc nd"
    using assms(12) by (auto simp: download_process_def start_process_def split: option.splits)
  obtain effs0 where effs0: "server_run (NewTorrentServer i (so_infoHash optsD) mgr heap) effs0 (pr_server p)" "covered effs effs0"
    using proc_run_server [OF assms(13)] nd(2) launch_fields(1) [OF nd(1)] by auto
  have "server_run (NewTorrentServer i (sha1_Sum data) mgr heap) effs0 (pr_server p)"
    using effs0(1) dl(3) by simp
  then have "all_leave effs0 data"
    unfolding all_leave_def using run_leaves [OF assms(3) seed(2,4) dl(2) _ False] by blast
  then have "all_leave effs data" using effs0(2) by (simp add: covered_def)
  then show ?thesis unfolding all_leave_def by fastforce
qed

theorem process_writes_right_witness:
  "\<exists>optsS pmS outS dflags p0 outD effs p x. seed_command (\<lambda>_. Some [7]) (sample_seed ''a.txt'') = Inr (optsS, pmS, outS) \<and>
     sample_flags (words (download_line optsS pmS)) = Some dflags \<and>
     download_process dflags (replicate 20 4) (Some (replicate 20 1)) (\<lambda>_. NewTCPPeer True) = Inr (p0, outD) \<and>
     proc_run sample_listen sample_parse (sample_get 5 ''10.0.0.1:4000'') p0 effs p \<and> WriteFile x \<in> set effs \<and>
     (x = [7] \<or> (\<exists>d. GetPiece (ts_pieces (pr_server p)) 0 = Some d \<and> d \<noteq> [7] \<and> sha1_Sum d = sha1_Sum [7]))"
proof -
  let ?h = "sha1_Sum [7]" and ?fl = "sample_seed ''a.txt''" and ?heap = "\<lambda>_ :: nat. NewTCPPeer True"
  let ?get = "sample_get 5 ''10.0.0.1:4000''" and ?i = "replicate 20 (4 :: byte)"
  have fl: "(\<lambda>_. Some [7 :: byte]) (sf_file ?fl) = Some [7]" "sf_piece_size ?fl = int 1"
    "shell_plain (file_format (sf_file ?fl))" "file_format (sf_file ?fl) \<noteq> []"
    "shell_plain (sf_tracker ?fl)" "sf_tracker ?fl \<noteq> []" by simp_all
  obtain pmS outS where seed: "seed_command (\<lambda>_. Some [7]) ?fl = Inr (seed_opts ?fl ?h, pmS, outS)"
      "runSeed [7] (int 1) = Inr (?h, pmS)" "same_torrent 1 [7] pmS"
    by (rule seed_command_ok [of "\<lambda>_. Some [7]" ?fl, OF fl(1,2) one_byte_seed])
  let ?optsS = "seed_opts ?fl ?h"
  have optsS: "so_infoHash ?optsS = ?h" "shell_plain (so_format ?optsS)" "so_format ?optsS \<noteq> []"
    "shell_plain (so_tracker ?optsS)" "so_tracker ?optsS \<noteq> []"
    by (simp_all add: seed_opts_def)
  obtain dflags optsD pmD outD where dl: "sample_flags (words (download_line ?optsS pmS)) = Some dflags"
      "download_command dflags = Inr (optsD, pmD, outD)" "so_infoHash optsD = ?h" "so_tracker optsD = so_tracker ?optsS"
      "runDownload (hex_encode ?h) (numPieces pmS) (hex_encode (chunk_hashes 1 [7] (chunk_count 1 [7]))) = Inr (?h, pmD)"
    by (rule paste_command [OF seed(3) one_byte_seed one_byte_fits(1) optsS sample_flags_parses]) blast
  have hs: "pieceHashes pmS = Some (chunk_hashes 1 [7] (chunk_count 1 [7]))" using seed(3) by (simp add: same_torrent_def)
  obtain nd where nd: "launch optsD pmD ?i (Some (replicate 20 1)) ?heap = Some nd" by (rule sample_launch)
  have p0: "download_process dflags ?i (Some (replicate 20 1)) ?heap = Inr (new_proc nd, outD)"
    by (simp add: download_process_def start_process_def dl(2) nd)
  have "is20 ?i" by (simp add: is20_def)
  then obtain nd' where run: "proc_run sample_listen sample_parse ?get (new_proc nd) []
      ((new_proc nd)\<lparr>pr_node := nd', pr_main := AtLoop\<rparr>)" (is "proc_run _ _ _ _ _ ?p")
    and nd': "nd_server nd' = NewTorrentServer ?i ?h pmD ?heap"
    using sample_process [OF nd dl(4) sample_session(1)] dl(3) plain_hash_7 by (metis is20_sha1_Sum)
  obtain ts x where "dispatch example_step one_byte_rpc (NewTorrentServer ?i ?h pmD ?heap) =
      Inr (ts, [SpawnUpdateStats, WriteFile x, SpawnAnnounce ''completed''])"
    using one_byte_message [OF seed(2) hs dl(5)] by blast
  then have "loop_step example_step (Received one_byte_rpc) (pr_server ?p) = Inr (ts, [SpawnUpdateStats, WriteFile x, SpawnAnnounce ''completed''])"
    by (simp add: loop_step_def nd')
  then have "main_step sample_listen sample_parse ?get ?p [SpawnUpdateStats, WriteFile x, SpawnAnnounce ''completed'']
      (served ?p [SpawnUpdateStats, WriteFile x, SpawnAnnounce ''completed''] ts)" (is "main_step _ _ _ _ ?effs ?p2")
    by (rule main_step.serve [rotated]) simp_all
  then have "proc_step sample_listen sample_parse ?get ?p ?effs ?p2" by (rule proc_step.main [rotated]) simp
  from proc_run.more [OF run this]
  have done1: "proc_run sample_listen sample_parse ?get (new_proc nd) ?effs ?p2" by simp
  from process_writes_right [OF fl(1,2) one_byte_seed one_byte_fits(1) fl(3-6) sample_flags_parses seed(1) dl(1) p0 done1]
  have "x = [7] \<or> (\<exists>d. GetPiece (ts_pieces (pr_server ?p2)) 0 = Some d \<and> d \<noteq> [7] \<and> sha1_Sum d = sha1_Sum [7])"
    unfolding one_byte_count by (auto simp: one_byte)
  moreover have "WriteFile x \<in> set ?effs" by simp
  ultimately show ?thesis using seed(1) dl(1) p0 done1
    by (intro exI [of _ "seed_opts ?fl ?h"] exI [of _ pmS] exI [of _ outS] exI [of _ dflags] exI [of _ "new_proc nd"]
        exI [of _ outD] exI [of _ ?effs] exI [of _ ?p2] exI [of _ x] conjI)
qed

end
