(* ===== verification/Tracker_Process.thy ===== *)
theory Tracker_Process
  imports Process
begin

text \<open>
  The two tracker processes from the start of their HTTP server to the exit code: the command \<open>tracker\<close>
  (the end of \<open>runTracker\<close> in \<open>src/cmd/tracker.go\<close>) and the stand-alone one (\<open>src/cmd/tracker/main.go\<close> from
  line 41).  What the requests do to the storage is the theory \<open>Tracker_Run\<close>; here they only count as
  running or not.  Of \<open>net/http\<close> the model has what its documentation says: \<open>ListenAndServe\<close> returns
  \<open>ErrServerClosed\<close> at once when the server is closed or shut down, \<open>Close\<close> does not wait for the handlers
  that run, \<open>Shutdown\<close> does, unless its context expires.
\<close>

section \<open>The state\<close>

datatype serve_err = ErrListen | ErrAccept | ErrServerClosed

text \<open>\<open>Tracker.Start\<close>, that is \<open>ListenAndServe\<close>.\<close>

datatype serve_at = ServeListen | Serving | ServeReturned serve_err

text \<open>
  The goroutine that waits for the signal: about to close or shut down the server, in \<open>Shutdown\<close>, about to
  close the storage, about to end the process.
\<close>

datatype stop_at = StopNone | StopServer | StopDrain | StopStore | StopExit

record tracker_state =
  tk_serve :: serve_at
  tk_stop :: stop_at
  tk_shutting :: bool
  tk_running :: nat        \<comment> \<open>the requests whose handlers run\<close>
  tk_expired :: bool       \<comment> \<open>the context of thirty seconds\<close>
  tk_store_closed :: bool
  tk_end :: "proc_end option"

definition tracker_start :: tracker_state where
  "tracker_start = \<lparr>tk_serve = ServeListen, tk_stop = StopNone, tk_shutting = False, tk_running = 0,
     tk_expired = False, tk_store_closed = False, tk_end = None\<rparr>"

section \<open>The steps\<close>

text \<open>
  \<open>ListenAndServe\<close> on the address \<open>addr\<close>: it listens or not, and returns when the server is closed, or with
  an error of \<open>Accept\<close> that is not temporary; and the requests.
\<close>

inductive serve_step :: "(string \<Rightarrow> bool) \<Rightarrow> string \<Rightarrow> tracker_state \<Rightarrow> tracker_state \<Rightarrow> bool" for netListen addr where
  listening: "tk_serve p = ServeListen \<Longrightarrow> \<not> tk_shutting p \<Longrightarrow> netListen addr \<Longrightarrow>
    serve_step netListen addr p (p\<lparr>tk_serve := Serving\<rparr>)"
| not_listening: "tk_serve p = ServeListen \<Longrightarrow> \<not> tk_shutting p \<Longrightarrow> \<not> netListen addr \<Longrightarrow>
    serve_step netListen addr p (p\<lparr>tk_serve := ServeReturned ErrListen\<rparr>)"
| server_closed: "tk_serve p = ServeListen \<or> tk_serve p = Serving \<Longrightarrow> tk_shutting p \<Longrightarrow>
    serve_step netListen addr p (p\<lparr>tk_serve := ServeReturned ErrServerClosed\<rparr>)"
| accept_error: "tk_serve p = Serving \<Longrightarrow> \<not> tk_shutting p \<Longrightarrow>
    serve_step netListen addr p (p\<lparr>tk_serve := ServeReturned ErrAccept\<rparr>)"
| request: "tk_serve p = Serving \<Longrightarrow> \<not> tk_shutting p \<Longrightarrow>
    serve_step netListen addr p (p\<lparr>tk_running := Suc (tk_running p)\<rparr>)"
| replied: "tk_running p = Suc n \<Longrightarrow> serve_step netListen addr p (p\<lparr>tk_running := n\<rparr>)"

text \<open>
  The command: its main goroutine returns the error of \<open>Start\<close> to \<open>Execute\<close>; the other one closes the
  server and the storage and exits.
\<close>

inductive command_step :: "(string \<Rightarrow> bool) \<Rightarrow> string \<Rightarrow> tracker_state \<Rightarrow> tracker_state \<Rightarrow> bool" for netListen addr where
  serve: "tk_end p = None \<Longrightarrow> serve_step netListen addr p p' \<Longrightarrow> command_step netListen addr p p'"
| returned: "tk_end p = None \<Longrightarrow> tk_serve p = ServeReturned e \<Longrightarrow>
    command_step netListen addr p (p\<lparr>tk_end := Some (Execute (Err e))\<rparr>)"
| signalled: "tk_end p = None \<Longrightarrow> tk_stop p = StopNone \<Longrightarrow> command_step netListen addr p (p\<lparr>tk_stop := StopServer\<rparr>)"
| server_close: "tk_end p = None \<Longrightarrow> tk_stop p = StopServer \<Longrightarrow>
    command_step netListen addr p (p\<lparr>tk_shutting := True, tk_stop := StopStore\<rparr>)"
| store_close: "tk_end p = None \<Longrightarrow> tk_stop p = StopStore \<Longrightarrow>
    command_step netListen addr p (p\<lparr>tk_store_closed := True, tk_stop := StopExit\<rparr>)"
| exit: "tk_end p = None \<Longrightarrow> tk_stop p = StopExit \<Longrightarrow> command_step netListen addr p (p\<lparr>tk_end := Some (ExitCode 0)\<rparr>)"

text \<open>
  The stand-alone tracker serves in a goroutine, which only logs an error, and its main goroutine is the one
  that waits for the signal: \<open>Shutdown\<close>, which returns when no handler runs or its context expires, then
  the storage, then the end of \<open>main\<close>.
\<close>

inductive standalone_step :: "(string \<Rightarrow> bool) \<Rightarrow> string \<Rightarrow> tracker_state \<Rightarrow> tracker_state \<Rightarrow> bool" for netListen addr where
  serve: "tk_end p = None \<Longrightarrow> serve_step netListen addr p p' \<Longrightarrow> standalone_step netListen addr p p'"
| signalled: "tk_end p = None \<Longrightarrow> tk_stop p = StopNone \<Longrightarrow> standalone_step netListen addr p (p\<lparr>tk_stop := StopServer\<rparr>)"
| shutdown: "tk_end p = None \<Longrightarrow> tk_stop p = StopServer \<Longrightarrow>
    standalone_step netListen addr p (p\<lparr>tk_shutting := True, tk_stop := StopDrain\<rparr>)"
| drained: "tk_end p = None \<Longrightarrow> tk_stop p = StopDrain \<Longrightarrow> tk_running p = 0 \<or> late \<Longrightarrow>
    standalone_step netListen addr p (p\<lparr>tk_expired := late, tk_stop := StopStore\<rparr>)"
| store_close: "tk_end p = None \<Longrightarrow> tk_stop p = StopStore \<Longrightarrow>
    standalone_step netListen addr p (p\<lparr>tk_store_closed := True, tk_stop := StopExit\<rparr>)"
| main_returns: "tk_end p = None \<Longrightarrow> tk_stop p = StopExit \<Longrightarrow> standalone_step netListen addr p (p\<lparr>tk_end := Some (ExitCode 0)\<rparr>)"

abbreviation command_reaches :: "(string \<Rightarrow> bool) \<Rightarrow> string \<Rightarrow> tracker_state \<Rightarrow> tracker_state \<Rightarrow> bool" where
  "command_reaches netListen addr \<equiv> (command_step netListen addr)\<^sup>*\<^sup>*"

abbreviation standalone_reaches :: "(string \<Rightarrow> bool) \<Rightarrow> string \<Rightarrow> tracker_state \<Rightarrow> tracker_state \<Rightarrow> bool" where
  "standalone_reaches netListen addr \<equiv> (standalone_step netListen addr)\<^sup>*\<^sup>*"

section \<open>Invariants\<close>

text \<open>
  The server is closed from the step of the signal goroutine on that closes it, the storage from the one
  that closes that, and the error of a closed server needs the former.
\<close>

definition tracker_inv :: "tracker_state \<Rightarrow> bool" where
  "tracker_inv p \<longleftrightarrow>
     (tk_shutting p \<longleftrightarrow> tk_stop p \<in> {StopDrain, StopStore, StopExit}) \<and>
     (tk_store_closed p \<longleftrightarrow> tk_stop p = StopExit) \<and>
     (tk_serve p = ServeReturned ErrServerClosed \<longrightarrow> tk_shutting p)"

text \<open>Then the ends; and after a \<open>Shutdown\<close> in time no handler runs.\<close>

definition command_inv :: "tracker_state \<Rightarrow> bool" where
  "command_inv p \<longleftrightarrow> tracker_inv p \<and>
     (\<forall>x. tk_end p = Some x \<longrightarrow> x = ExitCode 0 \<and> tk_stop p = StopExit \<or> x = ExitCode 1 \<and> (\<exists>e. tk_serve p = ServeReturned e))"

definition standalone_inv :: "(string \<Rightarrow> bool) \<Rightarrow> string \<Rightarrow> tracker_state \<Rightarrow> bool" where
  "standalone_inv netListen addr p \<longleftrightarrow> tracker_inv p \<and>
     (tk_stop p \<in> {StopStore, StopExit} \<longrightarrow> tk_expired p \<or> tk_running p = 0) \<and>
     (\<forall>x. tk_end p = Some x \<longrightarrow> x = ExitCode 0 \<and> tk_stop p = StopExit) \<and>
     (\<not> netListen addr \<longrightarrow> tk_serve p \<noteq> Serving \<and> tk_running p = 0)"

lemma serve_step_keeps:
  assumes "serve_step netListen addr p p'" and "tracker_inv p"
  shows "tracker_inv p'" and "tk_end p' = tk_end p" and "tk_stop p' = tk_stop p" and "tk_expired p' = tk_expired p"
    and "tk_shutting p \<Longrightarrow> tk_running p' \<le> tk_running p"
    and "\<not> netListen addr \<Longrightarrow> tk_serve p \<noteq> Serving \<Longrightarrow> tk_serve p' \<noteq> Serving \<and> tk_running p' \<le> tk_running p"
  using assms by (cases; auto simp: tracker_inv_def)+

lemma command_reachable:
  assumes "command_reaches netListen addr tracker_start p"
  shows "command_inv p"
  using assms
proof (induction rule: rtranclp_induct)
  case base
  then show ?case by (simp add: command_inv_def tracker_inv_def tracker_start_def)
next
  case (step p p')
  from step(2,3) show ?case
  proof (cases rule: command_step.cases)
    case serve
    with serve_step_keeps(1,2) [OF serve(2)] step(3) show ?thesis by (simp add: command_inv_def)
  qed (auto simp: command_inv_def tracker_inv_def)
qed

lemma standalone_reachable:
  assumes "standalone_reaches netListen addr tracker_start p"
  shows "standalone_inv netListen addr p"
  using assms
proof (induction rule: rtranclp_induct)
  case base
  then show ?case by (simp add: standalone_inv_def tracker_inv_def tracker_start_def)
next
  case (step p p')
  from step(2,3) show ?case
  proof (cases rule: standalone_step.cases)
    case serve
    have inv: "tracker_inv p" using step(3) by (simp add: standalone_inv_def)
    note keeps = serve_step_keeps [OF serve(2) inv]
    have "tk_stop p \<in> {StopStore, StopExit} \<Longrightarrow> tk_shutting p" using inv by (auto simp: tracker_inv_def)
    with keeps step(3) serve(1) show ?thesis by (fastforce simp: standalone_inv_def)
  qed (auto simp: standalone_inv_def tracker_inv_def)
qed

section \<open>Properties\<close>

text \<open>
  The command \<open>tracker\<close> ends with code 0 only after a signal, with the server and the storage closed,
  and with code 1 only when \<open>ListenAndServe\<close> has returned an error, which is that of a closed server
  only after a signal.
\<close>

theorem tracker_command_ends:
  assumes "command_reaches netListen addr tracker_start p" and "tk_end p = Some x"
  shows "x = ExitCode 0 \<and> tk_stop p \<noteq> StopNone \<and> tk_shutting p \<and> tk_store_closed p \<or>
    x = ExitCode 1 \<and> (\<exists>e. tk_serve p = ServeReturned e \<and> (e = ErrServerClosed \<longrightarrow> tk_stop p \<noteq> StopNone))"
  using command_reachable [OF assms(1)] assms(2) unfolding command_inv_def tracker_inv_def by auto

lemma tracker_two_steps:
  "command_step netListen addr p p' \<Longrightarrow> command_step netListen addr p' p'' \<Longrightarrow> command_reaches netListen addr p p''"
  by (meson converse_rtranclp_into_rtranclp r_into_rtranclp)

text \<open>An address in use.\<close>

theorem tracker_command_ends_witness:
  "\<exists>p. command_reaches (\<lambda>_. False) '':8080'' tracker_start p \<and> tk_end p = Some (ExitCode 1) \<and>
     tk_serve p \<noteq> ServeReturned ErrServerClosed"
proof -
  let ?p1 = "tracker_start\<lparr>tk_serve := ServeReturned ErrListen\<rparr>"
  let ?p = "?p1\<lparr>tk_end := Some (Execute (Err ErrListen))\<rparr>"
  have "command_step (\<lambda>_. False) '':8080'' tracker_start ?p1"
    by (intro command_step.serve serve_step.not_listening) (simp_all add: tracker_start_def)
  moreover have "command_step (\<lambda>_. False) '':8080'' ?p1 ?p"
    by (rule command_step.returned) (simp_all add: tracker_start_def)
  ultimately have run: "command_reaches (\<lambda>_. False) '':8080'' tracker_start ?p" by (rule tracker_two_steps)
  have "tk_end ?p = Some (ExitCode 1)" by simp
  from tracker_command_ends [OF run this] run show ?thesis by (intro exI [of _ ?p]) simp
qed

text \<open>
  C32.  The race of its shut-down.  From any moment at which it serves and no signal has come, a signal can
  end it with code 0 and everything closed, but also with code 1 and the storage still open: closing the
  server makes \<open>ListenAndServe\<close> return, and its error reaches \<open>Execute\<close> before the goroutine of the signal
  gets further.  And when a request runs at that moment, the storage can be closed under its handler.
\<close>

theorem tracker_shutdown_race:
  assumes "command_reaches netListen addr tracker_start p" and "tk_end p = None" and "tk_serve p = Serving"
    and "tk_stop p = StopNone"
  shows "(\<exists>p'. command_reaches netListen addr p p' \<and> tk_end p' = Some (ExitCode 0) \<and> tk_store_closed p') \<and>
    (\<exists>p'. command_reaches netListen addr p p' \<and> tk_end p' = Some (ExitCode 1) \<and> \<not> tk_store_closed p') \<and>
    (\<exists>p'. command_reaches netListen addr p p' \<and> tk_store_closed p' \<and> tk_running p' = tk_running p \<and> tk_end p' = None)"
proof -
  let ?p2 = "p\<lparr>tk_shutting := True, tk_stop := StopStore\<rparr>"
  let ?p3 = "?p2\<lparr>tk_store_closed := True, tk_stop := StopExit\<rparr>"
  let ?q1 = "?p2\<lparr>tk_serve := ServeReturned ErrServerClosed\<rparr>"
  let ?q2 = "?q1\<lparr>tk_end := Some (Execute (Err ErrServerClosed))\<rparr>"
  have step1: "command_step netListen addr p (p\<lparr>tk_stop := StopServer\<rparr>)"
    by (rule command_step.signalled [OF assms(2,4)])
  have "command_step netListen addr (p\<lparr>tk_stop := StopServer\<rparr>)
      ((p\<lparr>tk_stop := StopServer\<rparr>)\<lparr>tk_shutting := True, tk_stop := StopStore\<rparr>)"
    by (rule command_step.server_close) (simp_all add: assms(2))
  then have closed: "command_reaches netListen addr p ?p2" using tracker_two_steps [OF step1] by simp
  have p3: "command_step netListen addr ?p2 ?p3" by (rule command_step.store_close) (simp_all add: assms(2))
  have p4: "command_step netListen addr ?p3 (?p3\<lparr>tk_end := Some (ExitCode 0)\<rparr>)"
    by (rule command_step.exit) (simp_all add: assms(2))
  have q1: "command_step netListen addr ?p2 ?q1" by (intro command_step.serve serve_step.server_closed) (simp_all add: assms(2,3))
  have q2: "command_step netListen addr ?q1 ?q2" by (rule command_step.returned) (simp_all add: assms(2))
  have "\<not> tk_store_closed p" using command_reachable [OF assms(1)] assms(4) by (simp add: command_inv_def tracker_inv_def)
  then show ?thesis
    using rtranclp_trans [OF closed tracker_two_steps [OF p3 p4]] rtranclp_trans [OF closed tracker_two_steps [OF q1 q2]]
      rtranclp.rtrancl_into_rtrancl [OF closed p3] assms(2)
    by (intro conjI exI) (assumption | simp)+
qed

theorem tracker_shutdown_race_witness:
  "\<exists>p p'. command_reaches (\<lambda>_. True) '':8080'' tracker_start p \<and> tk_running p = 1 \<and>
     command_reaches (\<lambda>_. True) '':8080'' p p' \<and> tk_end p' = Some (ExitCode 1) \<and> \<not> tk_store_closed p'"
proof -
  let ?p1 = "tracker_start\<lparr>tk_serve := Serving\<rparr>"
  let ?p = "?p1\<lparr>tk_running := 1\<rparr>"
  have "command_step (\<lambda>_. True) '':8080'' tracker_start ?p1"
    by (intro command_step.serve serve_step.listening) (simp_all add: tracker_start_def)
  moreover have "command_step (\<lambda>_. True) '':8080'' ?p1 (?p1\<lparr>tk_running := Suc (tk_running ?p1)\<rparr>)"
    by (intro command_step.serve serve_step.request) (simp_all add: tracker_start_def)
  ultimately have "command_reaches (\<lambda>_. True) '':8080'' tracker_start ?p"
    using tracker_two_steps by (fastforce simp: tracker_start_def)
  from tracker_shutdown_race [OF this] this show ?thesis by (fastforce simp: tracker_start_def)
qed

text \<open>
  The stand-alone tracker ends only after a signal, always with code 0, with the storage closed, and
  with no handler running unless its thirty seconds have passed; so it does not end when its server
  cannot listen, and then it waits for a signal without serving anyone.
\<close>

theorem standalone_tracker_ends:
  assumes "standalone_reaches netListen addr tracker_start p"
  shows "(tk_end p = None \<or> tk_end p = Some (ExitCode 0) \<and> tk_stop p \<noteq> StopNone \<and> tk_store_closed p) \<and>
    (tk_store_closed p \<longrightarrow> tk_expired p \<or> tk_running p = 0) \<and>
    (\<not> netListen addr \<longrightarrow> tk_serve p \<noteq> Serving \<and> tk_running p = 0)"
  using standalone_reachable [OF assms] unfolding standalone_inv_def tracker_inv_def by (cases "tk_end p") auto

theorem standalone_tracker_ends_witness:
  "\<exists>p. standalone_reaches (\<lambda>_. False) '':8080'' tracker_start p \<and> tk_serve p = ServeReturned ErrListen \<and>
     tk_end p = None \<and> tk_running p = 0"
proof -
  let ?p = "tracker_start\<lparr>tk_serve := ServeReturned ErrListen\<rparr>"
  have "standalone_step (\<lambda>_. False) '':8080'' tracker_start ?p"
    by (intro standalone_step.serve serve_step.not_listening) (simp_all add: tracker_start_def)
  then have run: "standalone_reaches (\<lambda>_. False) '':8080'' tracker_start ?p" by (rule r_into_rtranclp)
  from standalone_tracker_ends [OF this] run show ?thesis by (intro exI [of _ ?p]) (simp add: tracker_start_def)
qed

end
