(* ===== verification/Torrent_File.thy ===== *)
theory Torrent_File
  imports Bencode Sha1
begin

text \<open>
  Torrent metadata, \<open>src/meta/torrent.go\<close>: \<open>ParseTorrent\<close> turns the bytes of a torrent file into a
  \<open>Torrent\<close> record, \<open>encodeBencodeInfoDict\<close> writes the info dictionary back, and \<open>InfoHash\<close> is the
  SHA-1 of that text.  Every early return of the parsers is a value of \<open>torrent_err\<close>; a panic of the
  decoder is passed on.
\<close>

section \<open>Data\<close>

record FileInfo =
  FileLength :: int
  FilePath :: "string list"

record InfoDict =
  Name :: string
  Length :: int
  Files :: "FileInfo list"
  PieceLength :: int
  Pieces :: bytes
  Private :: int

record Torrent =
  Announce :: string
  AnnounceList :: "string list list"
  Info :: InfoDict
  CreationDate :: int
  CreatedBy :: string
  Comment :: string
  Encoding :: string

definition empty_info :: InfoDict where
  "empty_info = \<lparr>Name = [], Length = 0, Files = [], PieceLength = 0, Pieces = [], Private = 0\<rparr>"

definition empty_torrent :: Torrent where
  "empty_torrent = \<lparr>Announce = [], AnnounceList = [], Info = empty_info, CreationDate = 0,
     CreatedBy = [], Comment = [], Encoding = []\<rparr>"

datatype torrent_err =
    DecodeFailed dec_err
  | NotADict
  | MustBeString string
  | MustBeInteger string
  | MustBeList string
  | MustBeDict string
  | Missing string
  | MissingLengthAndFiles
  | FileEntryNotDict nat
  | FileLengthNotInteger nat
  | FileMissing nat string
  | FilePathNotList nat
  | PathComponentNotString nat nat

type_synonym dict = "(string, node) fmap"

section \<open>Parsing\<close>

definition parseOptionalString :: "dict \<Rightarrow> string \<Rightarrow> string \<Rightarrow> string" where
  "parseOptionalString dict key target =
     (case fmlookup dict key of Some (BString s) \<Rightarrow> s | _ \<Rightarrow> target)"

definition parseOptionalInt :: "dict \<Rightarrow> string \<Rightarrow> int \<Rightarrow> int" where
  "parseOptionalInt dict key target =
     (case fmlookup dict key of Some (BInt i) \<Rightarrow> i | _ \<Rightarrow> target)"

definition path_component :: "nat \<Rightarrow> nat \<times> node \<Rightarrow> torrent_err + string" where
  "path_component i = (\<lambda>(j, n). case n of BString s \<Rightarrow> Inr s | _ \<Rightarrow> Inl (PathComponentNotString i j))"

definition file_entry :: "nat \<times> node \<Rightarrow> torrent_err + FileInfo" where
  "file_entry = (\<lambda>(i, fileNode).
     case fileNode of
       BDict fileDict \<Rightarrow>
         (case fmlookup fileDict ''length'' of
            None \<Rightarrow> Inl (FileMissing i ''length'')
          | Some (BInt len) \<Rightarrow>
              (case fmlookup fileDict ''path'' of
                 None \<Rightarrow> Inl (FileMissing i ''path'')
               | Some (BList pathList) \<Rightarrow>
                   bindE (mapE (path_component i) (enumerate 0 pathList))
                     (\<lambda>path. Inr \<lparr>FileLength = len, FilePath = path\<rparr>)
               | Some _ \<Rightarrow> Inl (FilePathNotList i))
          | Some _ \<Rightarrow> Inl (FileLengthNotInteger i))
     | _ \<Rightarrow> Inl (FileEntryNotDict i))"

definition parseFileList :: "node list \<Rightarrow> torrent_err + FileInfo list" where
  "parseFileList filesList = mapE file_entry (enumerate 0 filesList)"

definition get_string :: "dict \<Rightarrow> string \<Rightarrow> torrent_err + string" where
  "get_string dict key =
     (case fmlookup dict key of
        Some (BString s) \<Rightarrow> Inr s | Some _ \<Rightarrow> Inl (MustBeString key) | None \<Rightarrow> Inl (Missing key))"

definition get_int :: "dict \<Rightarrow> string \<Rightarrow> torrent_err + int" where
  "get_int dict key =
     (case fmlookup dict key of
        Some (BInt i) \<Rightarrow> Inr i | Some _ \<Rightarrow> Inl (MustBeInteger key) | None \<Rightarrow> Inl (Missing key))"

text \<open>Single-file mode when there is a length, multi-file mode otherwise.\<close>

definition parse_length_or_files :: "dict \<Rightarrow> torrent_err + int \<times> FileInfo list" where
  "parse_length_or_files dict =
     (case fmlookup dict ''length'' of
        Some (BInt len) \<Rightarrow> Inr (len, [])
      | Some _ \<Rightarrow> Inl (MustBeInteger ''length'')
      | None \<Rightarrow>
          (case fmlookup dict ''files'' of
             Some (BList filesList) \<Rightarrow> bindE (parseFileList filesList) (\<lambda>files. Inr (0, files))
           | Some _ \<Rightarrow> Inl (MustBeList ''files'')
           | None \<Rightarrow> Inl MissingLengthAndFiles))"

definition parseInfoDict :: "dict \<Rightarrow> torrent_err + InfoDict" where
  "parseInfoDict dict =
     bindE (get_string dict ''name'') (\<lambda>name.
     bindE (get_int dict ''piece length'') (\<lambda>pieceLength.
     bindE (get_string dict ''pieces'') (\<lambda>pieces.
     bindE (parse_length_or_files dict) (\<lambda>(len, files).
       Inr \<lparr>Name = name, Length = len, Files = files, PieceLength = pieceLength,
            Pieces = bytes_of_string pieces,
            Private = parseOptionalInt dict ''private'' 0\<rparr>))))"

fun tier_strings :: "node list \<Rightarrow> string list" where
  "tier_strings [] = []"
| "tier_strings (n # ns) = (case n of BString s \<Rightarrow> s # tier_strings ns | _ \<Rightarrow> tier_strings ns)"

fun parseAnnounceList :: "node list \<Rightarrow> string list list" where
  "parseAnnounceList [] = []"
| "parseAnnounceList (n # ns) =
     (case n of
        BList tierList \<Rightarrow>
          (let tier = tier_strings tierList in
           if tier \<noteq> [] then tier # parseAnnounceList ns else parseAnnounceList ns)
      | _ \<Rightarrow> parseAnnounceList ns)"

definition torrent_of_dict :: "dict \<Rightarrow> torrent_err + Torrent" where
  "torrent_of_dict dict =
     bindE (get_string dict ''announce'') (\<lambda>announce.
     bindE (case fmlookup dict ''info'' of
              Some (BDict infoDict) \<Rightarrow> parseInfoDict infoDict
            | Some _ \<Rightarrow> Inl (MustBeDict ''info'')
            | None \<Rightarrow> Inl (Missing ''info'')) (\<lambda>info.
       Inr \<lparr>Announce = announce,
            AnnounceList =
              (case fmlookup dict ''announce-list'' of
                 Some (BList announceList) \<Rightarrow> parseAnnounceList announceList | _ \<Rightarrow> []),
            Info = info,
            CreationDate = parseOptionalInt dict ''creation date'' 0,
            CreatedBy = parseOptionalString dict ''created by'' [],
            Comment = parseOptionalString dict ''comment'' [],
            Encoding = parseOptionalString dict ''encoding'' []\<rparr>))"

definition ParseTorrent :: "bytes \<Rightarrow> torrent_err fail + Torrent" where
  "ParseTorrent data =
     (case Decode (string_of_bytes data) of
        Inl (Err e) \<Rightarrow> Inl (Err (DecodeFailed e))
      | Inl (Panic p) \<Rightarrow> Inl (Panic p)
      | Inr (node, _) \<Rightarrow>
          (case node of
             BDict dict \<Rightarrow>
               (case torrent_of_dict dict of Inl e \<Rightarrow> Inl (Err e) | Inr t \<Rightarrow> Inr t)
           | _ \<Rightarrow> Inl (Err NotADict)))"

text \<open>\<open>ParseTorrentFile\<close> is \<open>ParseTorrent\<close> of the bytes \<open>os.ReadFile\<close> returns, if it returns any.\<close>

datatype file_err = ReadFileFailed | ParseFailed torrent_err

definition ParseTorrentFile :: "(string \<Rightarrow> bytes option) \<Rightarrow> string \<Rightarrow> file_err fail + Torrent" where
  "ParseTorrentFile readFile filename =
     (case readFile filename of
        None \<Rightarrow> Inl (Err ReadFileFailed)
      | Some data \<Rightarrow>
          (case ParseTorrent data of
             Inl (Err e) \<Rightarrow> Inl (Err (ParseFailed e)) | Inl (Panic p) \<Rightarrow> Inl (Panic p) | Inr t \<Rightarrow> Inr t))"

section \<open>Writing the info dictionary\<close>

text \<open>The buffer writes of \<open>encodeBencodeInfoDict\<close>, in order: a key, then its value.\<close>

definition write_path :: "string list \<Rightarrow> string" where
  "write_path path = ''l'' @ concat (map (\<lambda>c. itoa (int (length c)) @ '':'' @ c) path) @ ''e''"

definition write_file :: "FileInfo \<Rightarrow> string" where
  "write_file f =
     ''d'' @ ''6:length'' @ ''i'' @ itoa (FileLength f) @ ''e'' @
     ''4:path'' @ write_path (FilePath f) @ ''e''"

definition encodeBencodeInfoDict :: "InfoDict \<Rightarrow> string" where
  "encodeBencodeInfoDict info =
     ''d'' @
     (if Files info \<noteq> [] then ''5:files'' @ ''l'' @ concat (map write_file (Files info)) @ ''e'' else []) @
     (if Length info > 0 then ''6:length'' @ ''i'' @ itoa (Length info) @ ''e'' else []) @
     ''4:name'' @ itoa (int (length (Name info))) @ '':'' @ Name info @
     ''12:piece length'' @ ''i'' @ itoa (PieceLength info) @ ''e'' @
     ''6:pieces'' @ itoa (int (length (Pieces info))) @ '':'' @ string_of_bytes (Pieces info) @
     (if Private info > 0 then ''7:private'' @ ''i'' @ itoa (Private info) @ ''e'' else []) @
     ''e''"

definition calculateInfoHash :: "InfoDict \<Rightarrow> id20" where
  "calculateInfoHash info = sha1_Sum (bytes_of_string (encodeBencodeInfoDict info))"

definition InfoHash :: "Torrent \<Rightarrow> id20" where
  "InfoHash t = calculateInfoHash (Info t)"

section \<open>The text written is bencode\<close>

text \<open>
  What the record fields of a parsed torrent satisfy: Go's \<open>int64\<close> range and the bound on string
  lengths.  \<open>info_entries\<close> is the abstract content of the dictionary \<open>encodeBencodeInfoDict\<close> writes.
\<close>

definition file_ok :: "FileInfo \<Rightarrow> bool" where
  "file_ok f \<longleftrightarrow> int64_ok (FileLength f) \<and> list_all str_ok (FilePath f)"

definition info_ok :: "InfoDict \<Rightarrow> bool" where
  "info_ok info \<longleftrightarrow>
     str_ok (Name info) \<and> int64_ok (Length info) \<and> list_all file_ok (Files info) \<and>
     int64_ok (PieceLength info) \<and> int (length (Pieces info)) \<le> max_alloc \<and> int64_ok (Private info)"

definition file_node :: "FileInfo \<Rightarrow> node" where
  "file_node f = BDict (dict_of fmempty
     [(''length'', BInt (FileLength f)), (''path'', BList (map BString (FilePath f)))])"

definition info_entries :: "InfoDict \<Rightarrow> (string \<times> node) list" where
  "info_entries info =
     (if Files info \<noteq> [] then [(''files'', BList (map file_node (Files info)))] else []) @
     (if Length info > 0 then [(''length'', BInt (Length info))] else []) @
     [(''name'', BString (Name info)),
      (''piece length'', BInt (PieceLength info)),
      (''pieces'', BString (string_of_bytes (Pieces info)))] @
     (if Private info > 0 then [(''private'', BInt (Private info))] else [])"

definition info_dict :: "InfoDict \<Rightarrow> dict" where
  "info_dict info = dict_of fmempty (info_entries info)"

lemma dict_of_append [simp]: "dict_of d (xs @ ys) = dict_of (dict_of d xs) ys"
  by (simp add: dict_of_def)

lemma utoa_less_10: "n < 10 \<Longrightarrow> utoa n = [digit_char n]"
  by (simp add: utoa.simps)

lemma utoa_12: "utoa 12 = ''12''"
  by (simp add: utoa.simps [of 12] utoa_less_10 digit_char_def)

lemma key_text_short:
  "''5:files'' = bstr ''files''" "''6:length'' = bstr ''length''" "''4:path'' = bstr ''path''"
  "''4:name'' = bstr ''name''" "''6:pieces'' = bstr ''pieces''" "''7:private'' = bstr ''private''"
  by (simp_all add: bstr_def utoa_less_10 digit_char_def)

lemma key_text_long: "''12:piece length'' = bstr ''piece length''"
proof -
  have "length ''piece length'' = 12" by simp
  then show ?thesis unfolding bstr_def by (simp only: utoa_12) simp
qed

lemmas key_texts = key_text_short key_text_long

lemma str_text: "itoa (int (length s)) @ '':'' @ s = bstr s"
  by (simp add: bstr_def itoa_def)

lemma bencodes_dict_append:
  "bencodes_dict a xs \<Longrightarrow> bencodes_dict b ys \<Longrightarrow> bencodes_dict (a @ b) (xs @ ys)"
proof (induction xs arbitrary: a)
  case Nil
  then show ?case by (auto elim: bencodes_dict.cases)
next
  case (Cons kv xs)
  from Cons.prems(1) obtain k c v c' where a: "a = bstr k @ c @ c'" "kv = (k, v)" "str_ok k"
    "bencodes c v" "bencodes_dict c' xs" by (cases rule: bencodes_dict.cases) auto
  then have "bencodes_dict (bstr k @ c @ (c' @ b)) ((k, v) # xs @ ys)"
    using Cons.IH [of c'] Cons.prems(2) by (intro bencodes_intros) simp_all
  with a show ?case by simp
qed

lemma bencodes_entry: "str_ok k \<Longrightarrow> bencodes b v \<Longrightarrow> bencodes_dict (bstr k @ b) [(k, v)]"
  using benc_dcons [of k b v "[]" "[]"] by (simp add: benc_dnil)

lemma bencodes_list_map:
  "(\<And>x. x \<in> set xs \<Longrightarrow> bencodes (f x) (g x)) \<Longrightarrow> bencodes_list (concat (map f xs)) (map g xs)"
  by (induction xs) (simp_all add: benc_nil benc_cons)

lemma str_ok_keys [simp]:
  "str_ok ''files''" "str_ok ''length''" "str_ok ''path''" "str_ok ''name''" "str_ok ''piece length''"
  "str_ok ''pieces''" "str_ok ''private''"
  by (simp_all add: str_ok_def max_alloc_def)

lemma str_ok_bytes: "str_ok (string_of_bytes bs) \<longleftrightarrow> int (length bs) \<le> max_alloc"
  by (simp add: str_ok_def)

lemma write_path_bencodes: "list_all str_ok path \<Longrightarrow> bencodes (write_path path) (BList (map BString path))"
  unfolding write_path_def str_text
  by (intro benc_list bencodes_list_map benc_str) (simp add: list_all_iff)

lemma int_text: "''i'' @ itoa i @ ''e'' @ r = bint i @ r"
  by (simp add: bint_def)

lemma write_file_bencodes:
  assumes "file_ok f"
  shows "bencodes (write_file f) (file_node f)"
proof -
  have "write_file f = ''d'' @ (bstr ''length'' @ bint (FileLength f) @
      (bstr ''path'' @ write_path (FilePath f) @ [])) @ ''e''"
    unfolding write_file_def int_text key_texts by (simp add: bint_def)
  moreover have "bencodes \<dots> (file_node f)"
    unfolding file_node_def using assms
    by (intro bencodes_intros write_path_bencodes) (simp_all add: file_ok_def)
  ultimately show ?thesis by simp
qed

lemma encode_info_text:
  "encodeBencodeInfoDict info =
     ''d'' @
     ((if Files info \<noteq> [] then bstr ''files'' @ (''l'' @ concat (map write_file (Files info)) @ ''e'') else []) @
      (if Length info > 0 then bstr ''length'' @ bint (Length info) else []) @
      (bstr ''name'' @ bstr (Name info)) @
      (bstr ''piece length'' @ bint (PieceLength info)) @
      (bstr ''pieces'' @ bstr (string_of_bytes (Pieces info))) @
      (if Private info > 0 then bstr ''private'' @ bint (Private info) else [])) @ ''e''"
  unfolding encodeBencodeInfoDict_def key_texts str_text [symmetric]
  by (simp add: bint_def)

lemma encode_info_bencodes:
  assumes "info_ok info"
  shows "bencodes (encodeBencodeInfoDict info) (BDict (info_dict info))"
proof -
  note ok = assms [unfolded info_ok_def]
  have files: "bencodes_dict
      (if Files info \<noteq> [] then bstr ''files'' @ (''l'' @ concat (map write_file (Files info)) @ ''e'') else [])
      (if Files info \<noteq> [] then [(''files'', BList (map file_node (Files info)))] else [])"
    using ok by (auto simp: benc_dnil list_all_iff
        intro!: bencodes_entry benc_list [simplified] bencodes_list_map write_file_bencodes)
  have opt: "bencodes_dict (if i > 0 then bstr k @ bint i else []) (if i > 0 then [(k, BInt i)] else [])"
    if "str_ok k" "int64_ok i" for k i
    using that by (simp add: benc_dnil bencodes_entry benc_int)
  have str: "bencodes_dict (bstr k @ bstr s) [(k, BString s)]" if "str_ok k" "str_ok s" for k s
    using that by (intro bencodes_entry benc_str)
  have int: "bencodes_dict (bstr k @ bint i) [(k, BInt i)]" if "str_ok k" "int64_ok i" for k i
    using that by (intro bencodes_entry benc_int)
  have entries: "info_entries info =
      (if Files info \<noteq> [] then [(''files'', BList (map file_node (Files info)))] else []) @
      (if Length info > 0 then [(''length'', BInt (Length info))] else []) @
      [(''name'', BString (Name info))] @ [(''piece length'', BInt (PieceLength info))] @
      [(''pieces'', BString (string_of_bytes (Pieces info)))] @
      (if Private info > 0 then [(''private'', BInt (Private info))] else [])"
    by (simp add: info_entries_def)
  show ?thesis
    unfolding encode_info_text info_dict_def entries
    by (intro benc_dict bencodes_dict_append files opt str int)
      (use ok in \<open>simp_all add: str_ok_bytes\<close>)
qed

section \<open>Parsing the dictionary back\<close>

text \<open>The records the parser produces: one of the two modes, and no negative private flag.\<close>

definition info_shape :: "InfoDict \<Rightarrow> bool" where
  "info_shape info \<longleftrightarrow>
     (Length info > 0 \<and> Files info = [] \<or> Length info = 0 \<and> Files info \<noteq> []) \<and> Private info \<ge> 0"

lemma file_entry_node: "file_entry (i, file_node f) = Inr f"
proof -
  have "mapE (path_component i) (enumerate 0 (map BString (FilePath f))) = Inr (FilePath f)"
    by (rule mapE_enumerate) (simp add: path_component_def)
  then show ?thesis by (simp add: file_entry_def file_node_def)
qed

lemma parseFileList_nodes: "parseFileList (map file_node fs) = Inr fs"
  unfolding parseFileList_def by (rule mapE_enumerate) (rule file_entry_node)

lemma info_dict_lookup:
  "fmlookup (info_dict info) ''name'' = Some (BString (Name info))"
  "fmlookup (info_dict info) ''piece length'' = Some (BInt (PieceLength info))"
  "fmlookup (info_dict info) ''pieces'' = Some (BString (string_of_bytes (Pieces info)))"
  "fmlookup (info_dict info) ''length'' = (if Length info > 0 then Some (BInt (Length info)) else None)"
  "fmlookup (info_dict info) ''files'' =
     (if Files info \<noteq> [] then Some (BList (map file_node (Files info))) else None)"
  "fmlookup (info_dict info) ''private'' = (if Private info > 0 then Some (BInt (Private info)) else None)"
  by (simp_all add: info_dict_def info_entries_def)

lemma parseInfoDict_info_dict:
  assumes "info_shape info"
  shows "parseInfoDict (info_dict info) = Inr info"
  using assms
  by (cases info) (auto simp: parseInfoDict_def get_string_def get_int_def parse_length_or_files_def
      parseOptionalInt_def info_dict_lookup info_shape_def parseFileList_nodes)

lemma ParseTorrent_of_dict:
  assumes "bencodes text (BDict d)" and "torrent_of_dict d = Inr t"
  shows "ParseTorrent (bytes_of_string (text @ rest)) = Inr t"
  using bencode.dec_rep [OF assms(1), of rest] assms(2) by (simp add: ParseTorrent_def)

lemma torrent_of_dict_Inr:
  assumes "torrent_of_dict d = Inr t"
  obtains infoDict where "fmlookup d ''info'' = Some (BDict infoDict)"
    and "parseInfoDict infoDict = Inr (Info t)"
    and "fmlookup d ''announce'' = Some (BString (Announce t))"
  using assms by (auto simp: torrent_of_dict_def get_string_def bindE_Inr_iff
      split: option.splits node.splits)

section \<open>What a parsed torrent satisfies\<close>

lemma lookup_ok: "fmpred entry_ok d \<Longrightarrow> fmlookup d k = Some v \<Longrightarrow> node_ok v"
  by (simp add: fmpred_iff)

lemma get_string_ok: "fmpred entry_ok d \<Longrightarrow> get_string d k = Inr s \<Longrightarrow> str_ok s"
  using lookup_ok [of d k]
  by (auto simp: get_string_def node_ok_simps split: option.splits node.splits)

lemma get_int_ok: "fmpred entry_ok d \<Longrightarrow> get_int d k = Inr i \<Longrightarrow> int64_ok i"
  using lookup_ok [of d k]
  by (auto simp: get_int_def node_ok_simps split: option.splits node.splits)

lemma parseOptionalInt_ok: "fmpred entry_ok d \<Longrightarrow> int64_ok i \<Longrightarrow> int64_ok (parseOptionalInt d k i)"
  using lookup_ok [of d k]
  by (auto simp: parseOptionalInt_def node_ok_simps split: option.splits node.splits)

lemma file_entry_ok: "node_ok n \<Longrightarrow> file_entry (i, n) = Inr f \<Longrightarrow> file_ok f"
proof -
  assume n: "node_ok n" and f: "file_entry (i, n) = Inr f"
  from f obtain fd len ps path where fd: "n = BDict fd" "fmlookup fd ''length'' = Some (BInt len)"
    "fmlookup fd ''path'' = Some (BList ps)"
    "mapE (path_component i) (enumerate 0 ps) = Inr path" "f = \<lparr>FileLength = len, FilePath = path\<rparr>"
    by (auto simp: file_entry_def bindE_Inr_iff split: node.splits option.splits)
  from n fd(1) have ok: "fmpred entry_ok fd" by (simp add: node_ok_dict_iff)
  from lookup_ok [OF ok fd(2)] have len: "int64_ok len" by (simp add: node_ok_simps)
  from lookup_ok [OF ok fd(3)] have ps: "\<forall>x \<in> set ps. node_ok x" by (simp add: node_ok_simps)
  have "list_all str_ok path"
  proof (rule mapE_list_all [OF fd(4)])
    fix x y
    assume "x \<in> set (enumerate 0 ps)" and "path_component i x = Inr y"
    then show "str_ok y"
      using ps in_enumerate [of "fst x" "snd x" 0 ps]
      by (auto simp: path_component_def node_ok_simps split: prod.splits node.splits)
  qed
  with len fd(5) show "file_ok f" by (simp add: file_ok_def)
qed

lemma parse_length_or_files_ok:
  assumes "fmpred entry_ok d" and "parse_length_or_files d = Inr (len, files)"
  shows "int64_ok len \<and> list_all file_ok files"
proof (cases "fmlookup d ''length''")
  case (Some v)
  with assms show ?thesis
    using lookup_ok [OF assms(1) Some]
    by (auto simp: parse_length_or_files_def node_ok_simps split: node.splits)
next
  case None
  with assms(2) obtain fs where fs: "fmlookup d ''files'' = Some (BList fs)" "len = 0"
    and files: "mapE file_entry (enumerate 0 fs) = Inr files"
    by (auto simp: parse_length_or_files_def parseFileList_def bindE_Inr_iff
        split: option.splits node.splits)
  have ok: "\<forall>x \<in> set fs. node_ok x" using lookup_ok [OF assms(1) fs(1)] by (simp add: node_ok_simps)
  have "list_all file_ok files"
  proof (rule mapE_list_all [OF files])
    fix x y
    assume x: "x \<in> set (enumerate 0 fs)" and y: "file_entry x = Inr y"
    then show "file_ok y"
      using ok in_enumerate [of "fst x" "snd x" 0 fs] file_entry_ok [of "snd x" "fst x" y] by simp
  qed
  with fs show ?thesis by (simp add: int64_ok_def)
qed

lemma parseInfoDict_ok:
  assumes "fmpred entry_ok d" and "parseInfoDict d = Inr info"
  shows "info_ok info"
proof -
  from assms(2) obtain name pl ps len files where
    p: "get_string d ''name'' = Inr name" "get_int d ''piece length'' = Inr pl"
    "get_string d ''pieces'' = Inr ps" "parse_length_or_files d = Inr (len, files)"
    "info = \<lparr>Name = name, Length = len, Files = files, PieceLength = pl,
            Pieces = bytes_of_string ps, Private = parseOptionalInt d ''private'' 0\<rparr>"
    by (auto simp: parseInfoDict_def bindE_Inr_iff split: prod.splits)
  have "int64_ok (parseOptionalInt d ''private'' 0)"
    by (rule parseOptionalInt_ok [OF assms(1)]) (simp add: int64_ok_def)
  moreover have "int (length ps) \<le> max_alloc"
    using get_string_ok [OF assms(1) p(3)] by (simp add: str_ok_def)
  ultimately show ?thesis
    using get_string_ok [OF assms(1) p(1)] get_int_ok [OF assms(1) p(2)]
      parse_length_or_files_ok [OF assms(1) p(4)] p(5)
    by (simp add: info_ok_def)
qed

lemma ParseTorrent_Inr:
  assumes "ParseTorrent data = Inr t"
  obtains d infoDict where "fmpred entry_ok d" and "torrent_of_dict d = Inr t"
    and "fmpred entry_ok infoDict" and "parseInfoDict infoDict = Inr (Info t)"
proof -
  from assms obtain d r where d: "Decode (string_of_bytes data) = Inr (BDict d, r)"
    and t: "torrent_of_dict d = Inr t"
    by (auto simp: ParseTorrent_def split: sum.splits fail.splits node.splits)
  have ok: "fmpred entry_ok d"
    using reads_ok(1) [OF Decode_reads [OF d]] by (simp add: node_ok_dict_iff)
  from t obtain i where i: "fmlookup d ''info'' = Some (BDict i)" and p: "parseInfoDict i = Inr (Info t)"
    by (rule torrent_of_dict_Inr)
  have "fmpred entry_ok i" using lookup_ok [OF ok i] by (simp add: node_ok_dict_iff)
  from that [OF ok t this p] show thesis .
qed

section \<open>Properties\<close>

definition example_info :: InfoDict where
  "example_info = \<lparr>Name = ''test.txt'', Length = 1024, Files = [], PieceLength = 32768,
     Pieces = replicate 20 49, Private = 0\<rparr>"

lemma example_info_ok: "info_ok example_info" "info_shape example_info"
  by (simp_all add: example_info_def info_ok_def info_shape_def int64_ok_def str_ok_def max_alloc_def)



definition torrent_text :: "string \<Rightarrow> InfoDict \<Rightarrow> string" where
  "torrent_text announce info =
     ''d'' @ bstr ''announce'' @ bstr announce @ bstr ''info'' @ encodeBencodeInfoDict info @ ''e''"

lemma torrent_text_bencodes:
  assumes "str_ok announce" and "info_ok info"
  shows "bencodes (torrent_text announce info)
    (BDict (dict_of fmempty [(''announce'', BString announce), (''info'', BDict (info_dict info))]))"
proof -
  have "bencodes (''d'' @ (bstr ''announce'' @ bstr announce @
      (bstr ''info'' @ encodeBencodeInfoDict info @ [])) @ ''e'')
    (BDict (dict_of fmempty [(''announce'', BString announce), (''info'', BDict (info_dict info))]))"
    using assms by (intro bencodes_intros encode_info_bencodes) (simp_all add: str_ok_def max_alloc_def)
  then show ?thesis by (simp add: torrent_text_def)
qed

lemma parse_torrent_text:
  assumes "str_ok announce" and "info_ok info" and "info_shape info"
  shows "\<exists>t. ParseTorrent (bytes_of_string (torrent_text announce info)) = Inr t \<and>
    Announce t = announce \<and> Info t = info \<and>
    InfoHash t = sha1_Sum (bytes_of_string (encodeBencodeInfoDict info))"
proof -
  let ?d = "dict_of fmempty [(''announce'', BString announce), (''info'', BDict (info_dict info))]"
  obtain t where t: "torrent_of_dict ?d = Inr t" "Announce t = announce" "Info t = info"
    using parseInfoDict_info_dict [OF assms(3)] by (simp add: torrent_of_dict_def get_string_def)
  from ParseTorrent_of_dict [OF torrent_text_bencodes [OF assms(1,2)] t(1), of "[]"] t(2,3)
  show ?thesis by (simp add: InfoHash_def calculateInfoHash_def)
qed

text \<open>
  A torrent file made of an announce URL and an info dictionary is parsed to exactly these, and
  its info hash is the SHA-1 of the bytes of the info value in the file.
\<close>

theorem ParseTorrent_torrent_text:
  assumes "str_ok announce" and "info_ok info" and "info_shape info"
  shows "\<exists>t. ParseTorrent (bytes_of_string (torrent_text announce info)) = Inr t \<and>
    Announce t = announce \<and> Info t = info \<and>
    InfoHash t = sha1_Sum (bytes_of_string (encodeBencodeInfoDict info))"
  using assms by (rule parse_torrent_text)

theorem ParseTorrent_torrent_text_witness:
  "\<exists>t. ParseTorrent (bytes_of_string (torrent_text ''http://localhost:8080'' example_info)) = Inr t \<and>
     Announce t = ''http://localhost:8080'' \<and> Info t = example_info \<and>
     InfoHash t = sha1_Sum (bytes_of_string (encodeBencodeInfoDict example_info))"
  by (rule ParseTorrent_torrent_text) (simp_all add: example_info_ok str_ok_def max_alloc_def)

text \<open>
  Whatever bytes are parsed, the info dictionary of the result respects Go's integer and string
  bounds, and the text its info hash is computed from is well-formed bencode.
\<close>

theorem ParseTorrent_info_ok:
  assumes "ParseTorrent data = Inr t"
  shows "info_ok (Info t) \<and> bencodes (encodeBencodeInfoDict (Info t)) (BDict (info_dict (Info t)))"
proof -
  obtain i where "fmpred entry_ok i" and "parseInfoDict i = Inr (Info t)"
    using assms by (rule ParseTorrent_Inr) blast
  then have "info_ok (Info t)" by (rule parseInfoDict_ok)
  then show ?thesis by (simp add: encode_info_bencodes)
qed

theorem ParseTorrent_info_ok_witness: "\<exists>t :: Torrent. info_ok (Info t) \<and> Info t = example_info"
proof -
  let ?d = "dict_of fmempty [(''announce'', BString []), (''info'', BDict (info_dict example_info))]"
  obtain t where t: "torrent_of_dict ?d = Inr t" "Info t = example_info"
    using parseInfoDict_info_dict [OF example_info_ok(2)] by (simp add: torrent_of_dict_def get_string_def)
  have "str_ok []" by (simp add: str_ok_def max_alloc_def)
  from ParseTorrent_of_dict [OF torrent_text_bencodes [OF this example_info_ok(1)] t(1)]
  have "ParseTorrent (bytes_of_string (torrent_text [] example_info @ [])) = Inr t" .
  from ParseTorrent_info_ok [OF this] have "info_ok (Info t) \<and> Info t = example_info"
    using t(2) by simp
  then show ?thesis by (rule exI)
qed

text \<open>
  The info hash of an empty single-file torrent is not the hash of an info dictionary: the
  encoder writes the length only when it is positive, so the text it hashes has neither a length nor
  files, and \<open>parseInfoDict\<close> rejects it.
\<close>

theorem zero_length_info_hash:
  assumes "ParseTorrent data = Inr t" and "Length (Info t) = 0" and "Files (Info t) = []"
  shows "\<exists>d. Decode (encodeBencodeInfoDict (Info t)) = Inr (BDict d, []) \<and>
    parseInfoDict d = Inl MissingLengthAndFiles"
proof -
  obtain i where "fmpred entry_ok i" and "parseInfoDict i = Inr (Info t)"
    using assms(1) by (rule ParseTorrent_Inr) blast
  then have "info_ok (Info t)" by (rule parseInfoDict_ok)
  then have "Decode (encodeBencodeInfoDict (Info t)) = Inr (BDict (info_dict (Info t)), [])"
    by (intro bencode.dec_rep_Nil encode_info_bencodes)
  moreover have "parseInfoDict (info_dict (Info t)) = Inl MissingLengthAndFiles"
    using assms(2,3)
    by (simp add: parseInfoDict_def get_string_def get_int_def parse_length_or_files_def info_dict_lookup)
  ultimately show ?thesis by blast
qed

definition empty_file_text :: string where
  "empty_file_text = ''d'' @ (bstr ''announce'' @ bstr ''u'' @ (bstr ''info'' @
     (''d'' @ (bstr ''length'' @ bint 0 @ (bstr ''name'' @ bstr ''f'' @
       (bstr ''piece length'' @ bint 16384 @ (bstr ''pieces'' @ bstr [] @ [])))) @ ''e'') @ [])) @ ''e''"

theorem zero_length_info_hash_witness:
  "\<exists>t d. ParseTorrent (bytes_of_string empty_file_text) = Inr t \<and>
    Decode (encodeBencodeInfoDict (Info t)) = Inr (BDict d, []) \<and>
    parseInfoDict d = Inl MissingLengthAndFiles"
proof -
  let ?i = "dict_of fmempty [(''length'', BInt 0), (''name'', BString ''f''),
      (''piece length'', BInt 16384), (''pieces'', BString [])]"
  let ?d = "dict_of fmempty [(''announce'', BString ''u''), (''info'', BDict ?i)]"
  have enc: "bencodes empty_file_text (BDict ?d)"
    unfolding empty_file_text_def
    by (intro bencodes_intros) (simp_all add: str_ok_def max_alloc_def int64_ok_def)
  obtain t where t: "torrent_of_dict ?d = Inr t" and len: "Length (Info t) = 0" "Files (Info t) = []"
    by (simp add: torrent_of_dict_def get_string_def get_int_def parseInfoDict_def
        parse_length_or_files_def)
  have p: "ParseTorrent (bytes_of_string empty_file_text) = Inr t"
    using ParseTorrent_of_dict [OF enc t, of "[]"] by simp
  from zero_length_info_hash [OF this len] p show ?thesis by blast
qed

end
