(* ===== verification/Sha1_Demo.thy ===== *)
theory Sha1_Demo
  imports Sha1_Vector
begin

text \<open>
  A second known answer for the model of SHA-1, over two blocks: the info hash of the torrent in the
  demonstration program \<open>src/cmd/client_example/main.go\<close>, evaluated like the one in \<open>Sha1_Vector\<close>.
\<close>

definition demo_bytes :: bytes where
  "demo_bytes =
     [0x64, 0x36, 0x3A, 0x6C, 0x65, 0x6E, 0x67, 0x74, 0x68, 0x69, 0x31, 0x30, 0x32, 0x34, 0x65, 0x34,
     0x3A, 0x6E, 0x61, 0x6D, 0x65, 0x38, 0x3A, 0x74, 0x65, 0x73, 0x74, 0x2E, 0x74, 0x78, 0x74, 0x31,
     0x32, 0x3A, 0x70, 0x69, 0x65, 0x63, 0x65, 0x20, 0x6C, 0x65, 0x6E, 0x67, 0x74, 0x68, 0x69, 0x33,
     0x32, 0x37, 0x36, 0x38, 0x65, 0x36, 0x3A, 0x70, 0x69, 0x65, 0x63, 0x65, 0x73, 0x32, 0x30, 0x3A,
     0x31, 0x32, 0x33, 0x34, 0x35, 0x36, 0x37, 0x38, 0x39, 0x30, 0x31, 0x32, 0x33, 0x34, 0x35, 0x36,
     0x37, 0x38, 0x39, 0x30, 0x65]"

definition block_a :: bytes where
  "block_a =
     [0x64, 0x36, 0x3A, 0x6C, 0x65, 0x6E, 0x67, 0x74, 0x68, 0x69, 0x31, 0x30, 0x32, 0x34, 0x65, 0x34,
     0x3A, 0x6E, 0x61, 0x6D, 0x65, 0x38, 0x3A, 0x74, 0x65, 0x73, 0x74, 0x2E, 0x74, 0x78, 0x74, 0x31,
     0x32, 0x3A, 0x70, 0x69, 0x65, 0x63, 0x65, 0x20, 0x6C, 0x65, 0x6E, 0x67, 0x74, 0x68, 0x69, 0x33,
     0x32, 0x37, 0x36, 0x38, 0x65, 0x36, 0x3A, 0x70, 0x69, 0x65, 0x63, 0x65, 0x73, 0x32, 0x30, 0x3A]"

definition block_b :: bytes where
  "block_b =
     [0x31, 0x32, 0x33, 0x34, 0x35, 0x36, 0x37, 0x38, 0x39, 0x30, 0x31, 0x32, 0x33, 0x34, 0x35, 0x36,
     0x37, 0x38, 0x39, 0x30, 0x65, 0x80, 0x0, 0x0, 0x0, 0x0, 0x0, 0x0, 0x0, 0x0, 0x0, 0x0, 0x0, 0x0,
     0x0, 0x0, 0x0, 0x0, 0x0, 0x0, 0x0, 0x0, 0x0, 0x0, 0x0, 0x0, 0x0, 0x0, 0x0, 0x0, 0x0, 0x0, 0x0,
     0x0, 0x0, 0x0, 0x0, 0x0, 0x0, 0x0, 0x0, 0x0, 0x2, 0xA8]"

lemma demo_padded: "sha1_pad demo_bytes = block_a @ block_b"
  unfolding demo_bytes_def block_a_def block_b_def by code_simp

lemma blocks_length: "length block_a = 64" "length block_b = 64"
  by (simp_all add: block_a_def block_b_def)

section \<open>Block a\<close>

definition a_words_0 :: "u32 list" where
  "a_words_0 =
     [0x7332303A, 0x69656365, 0x65363A70, 0x32373638, 0x74686933, 0x6C656E67, 0x65636520, 0x323A7069,
     0x74787431, 0x6573742E, 0x65383A74, 0x3A6E616D, 0x32346534, 0x68693130, 0x656E6774, 0x64363A6C]"

definition a_words_1 :: "u32 list" where
  "a_words_1 =
     [0x9F16C65, 0xA8E57522, 0x2CF31B7A, 0xEB686193, 0xA0E346DC, 0xDDD1579C, 0x19C23377, 0x6AAA99DE,
     0xAA1AEF91, 0x2B521DA2, 0xDDACD06B, 0xB72456E3, 0x2B8569F3, 0x9AA01C00, 0xB6B8080A, 0xB6A6828A]"

definition a_words_2 :: "u32 list" where
  "a_words_2 =
     [0x92F6F7D0, 0xF273F2B4, 0xDE1F78BC, 0xD044AFFA, 0xDE8A4AFB, 0x1A16462A, 0x75FB8858, 0x67BCF6EA,
     0xC8FAF72F, 0xDBE8FEDF, 0x501B8D6B, 0x5E54CB14, 0x4E98E31, 0xF348E235, 0x58344F58, 0xD4BE385C]"

definition a_words_3 :: "u32 list" where
  "a_words_3 =
     [0xA94E6890, 0x7F0A6794, 0xE1E224ED, 0xA25A1136, 0xB6581B79, 0xA616FB86, 0xB5BD8FA0, 0xB61CFC46,
     0xD2A0A5A5, 0x47047278, 0x1A0E669C, 0xC6A7DA75, 0x6DA5C3BD, 0x4BF931B6, 0xB6AB770B, 0x3CAAA87F]"

definition a_words_4 :: "u32 list" where
  "a_words_4 =
     [0xA8C51424, 0x4487DD8B, 0x5F72BA34, 0x40D4DE51, 0x82922AB2, 0x3D953D99, 0x7C2C19F4, 0x17A153F4,
     0x9E8A85D7, 0x1E812127, 0x5A802CFE, 0x116007E, 0x1527939, 0x40CF1AB, 0x2372B904, 0x415A82C4]"

lemma a_schedule_0: "sha1_schedule 16 a_words_0 = a_words_1 @ a_words_0"
  unfolding a_words_0_def a_words_1_def by code_simp

lemma a_schedule_1: "sha1_schedule 16 a_words_1 = a_words_2 @ a_words_1"
  unfolding a_words_1_def a_words_2_def by code_simp

lemma a_schedule_2: "sha1_schedule 16 a_words_2 = a_words_3 @ a_words_2"
  unfolding a_words_2_def a_words_3_def by code_simp

lemma a_schedule_3: "sha1_schedule 16 a_words_3 = a_words_4 @ a_words_3"
  unfolding a_words_3_def a_words_4_def by code_simp

lemmas a_words_defs = a_words_0_def a_words_1_def a_words_2_def a_words_3_def a_words_4_def

lemma a_words_length: "length a_words_0 = 16" "length a_words_1 = 16" "length a_words_2 = 16" "length a_words_3 = 16"
  by (simp_all add: a_words_defs)

lemma a_schedule: "sha1_schedule 64 a_words_0 = a_words_4 @ a_words_3 @ a_words_2 @ a_words_1 @ a_words_0"
  by (rule sha1_schedule_64) (rule a_schedule_0 a_schedule_1 a_schedule_2 a_schedule_3 a_words_length)+

lemma a_first_words: "rev (sha1_words 16 block_a) = a_words_0"
  unfolding block_a_def a_words_0_def by code_simp

lemma a_rounds_0: "sha1_rounds 0 [0x64363A6C, 0x656E6774, 0x68693130, 0x32346534, 0x3A6E616D]
     (st 0x67452301 0xEFCDAB89 0x98BADCFE 0x10325476 0xC3D2E1F0) =
     st 0x8F7315FA 0xEF02B470 0x12ABF34 0x525E6618 0xC0FAB4C7"
  by code_simp

lemma a_rounds_1: "sha1_rounds 5 [0x65383A74, 0x6573742E, 0x74787431, 0x323A7069, 0x65636520]
     (st 0x8F7315FA 0xEF02B470 0x12ABF34 0x525E6618 0xC0FAB4C7) =
     st 0x97B762FE 0xEE5F56D8 0xC70509EF 0xCB2033AA 0x601DC797"
  by code_simp

lemma a_rounds_2: "sha1_rounds 10 [0x6C656E67, 0x74686933, 0x32373638, 0x65363A70, 0x69656365]
     (st 0x97B762FE 0xEE5F56D8 0xC70509EF 0xCB2033AA 0x601DC797) =
     st 0xD530C3E0 0x3B72D6F9 0x491578EA 0x642222AA 0xF945CC54"
  by code_simp

lemma a_rounds_3: "sha1_rounds 15 [0x7332303A, 0xB6A6828A, 0xB6B8080A, 0x9AA01C00, 0x2B8569F3]
     (st 0xD530C3E0 0x3B72D6F9 0x491578EA 0x642222AA 0xF945CC54) =
     st 0x44D9EA1 0x93150562 0x62351B42 0x81734F7B 0xEE88D8CA"
  by code_simp

lemma a_rounds_4: "sha1_rounds 20 [0xB72456E3, 0xDDACD06B, 0x2B521DA2, 0xAA1AEF91, 0x6AAA99DE]
     (st 0x44D9EA1 0x93150562 0x62351B42 0x81734F7B 0xEE88D8CA) =
     st 0x7326E389 0x156020C9 0x8DEDADCA 0xD89FFA58 0x43A39032"
  by code_simp

lemma a_rounds_5: "sha1_rounds 25 [0x19C23377, 0xDDD1579C, 0xA0E346DC, 0xEB686193, 0x2CF31B7A]
     (st 0x7326E389 0x156020C9 0x8DEDADCA 0xD89FFA58 0x43A39032) =
     st 0x1B233417 0xB9087223 0xB7267572 0x1AC5F9D 0xDC4BA5F4"
  by code_simp

lemma a_rounds_6: "sha1_rounds 30 [0xA8E57522, 0x9F16C65, 0xD4BE385C, 0x58344F58, 0xF348E235]
     (st 0x1B233417 0xB9087223 0xB7267572 0x1AC5F9D 0xDC4BA5F4) =
     st 0xEBDB82D3 0xCDE2CD77 0x6C69063C 0x2ECED897 0x99FCF899"
  by code_simp

lemma a_rounds_7: "sha1_rounds 35 [0x4E98E31, 0x5E54CB14, 0x501B8D6B, 0xDBE8FEDF, 0xC8FAF72F]
     (st 0xEBDB82D3 0xCDE2CD77 0x6C69063C 0x2ECED897 0x99FCF899) =
     st 0x33FE9DC8 0x7C683966 0xB7588A9 0x5FE0F7E0 0x61D7831"
  by code_simp

lemma a_rounds_8: "sha1_rounds 40 [0x67BCF6EA, 0x75FB8858, 0x1A16462A, 0xDE8A4AFB, 0xD044AFFA]
     (st 0x33FE9DC8 0x7C683966 0xB7588A9 0x5FE0F7E0 0x61D7831) =
     st 0x9C1E9DD9 0x59645EE3 0x28DB342 0x172A966 0x770AA7B7"
  by code_simp

lemma a_rounds_9: "sha1_rounds 45 [0xDE1F78BC, 0xF273F2B4, 0x92F6F7D0, 0x3CAAA87F, 0xB6AB770B]
     (st 0x9C1E9DD9 0x59645EE3 0x28DB342 0x172A966 0x770AA7B7) =
     st 0x9BFF71A 0x16148C03 0xEA534AD2 0xD23A9B56 0x1A5F94F9"
  by code_simp

lemma a_rounds_10: "sha1_rounds 50 [0x4BF931B6, 0x6DA5C3BD, 0xC6A7DA75, 0x1A0E669C, 0x47047278]
     (st 0x9BFF71A 0x16148C03 0xEA534AD2 0xD23A9B56 0x1A5F94F9) =
     st 0x1346E9DA 0x34372A84 0x8C744BCE 0x225468B8 0xBFE17C47"
  by code_simp

lemma a_rounds_11: "sha1_rounds 55 [0xD2A0A5A5, 0xB61CFC46, 0xB5BD8FA0, 0xA616FB86, 0xB6581B79]
     (st 0x1346E9DA 0x34372A84 0x8C744BCE 0x225468B8 0xBFE17C47) =
     st 0xD04E4CCB 0x927A68CE 0xAD9ACC8A 0x54B0A01E 0xABBBE125"
  by code_simp

lemma a_rounds_12: "sha1_rounds 60 [0xA25A1136, 0xE1E224ED, 0x7F0A6794, 0xA94E6890, 0x415A82C4]
     (st 0xD04E4CCB 0x927A68CE 0xAD9ACC8A 0x54B0A01E 0xABBBE125) =
     st 0x3D11C4F1 0xE0C0DB7C 0x5958E462 0x23227881 0x63649481"
  by code_simp

lemma a_rounds_13: "sha1_rounds 65 [0x2372B904, 0x40CF1AB, 0x1527939, 0x116007E, 0x5A802CFE]
     (st 0x3D11C4F1 0xE0C0DB7C 0x5958E462 0x23227881 0x63649481) =
     st 0x996704E8 0xB783E5F0 0x64E8E885 0xC4EA799F 0x638B3D48"
  by code_simp

lemma a_rounds_14: "sha1_rounds 70 [0x1E812127, 0x9E8A85D7, 0x17A153F4, 0x7C2C19F4, 0x3D953D99]
     (st 0x996704E8 0xB783E5F0 0x64E8E885 0xC4EA799F 0x638B3D48) =
     st 0x6DAF7AB7 0xD8C2F28 0xBBFE378D 0xC61B47AB 0xA4344C90"
  by code_simp

lemma a_rounds_15: "sha1_rounds 75 [0x82922AB2, 0x40D4DE51, 0x5F72BA34, 0x4487DD8B, 0xA8C51424]
     (st 0x6DAF7AB7 0xD8C2F28 0xBBFE378D 0xC61B47AB 0xA4344C90) =
     st 0xB99C6E1 0x5278B329 0x636FC4A7 0x25B0C449 0xC5E07BC4"
  by code_simp

lemmas a_rounds = a_rounds_0 a_rounds_1 a_rounds_2 a_rounds_3 a_rounds_4 a_rounds_5 a_rounds_6 a_rounds_7 a_rounds_8 a_rounds_9 a_rounds_10 a_rounds_11 a_rounds_12 a_rounds_13 a_rounds_14 a_rounds_15

lemma a_block: "sha1_block (st 0x67452301 0xEFCDAB89 0x98BADCFE 0x10325476 0xC3D2E1F0) block_a = st 0x72DEE9E2 0x42465EB2 0xFC2AA1A5 0x35E318BF 0x89B35DB4"
proof -
  have rev: "rev (a_words_4 @ a_words_3 @ a_words_2 @ a_words_1 @ a_words_0) =
     [0x64363A6C, 0x656E6774, 0x68693130, 0x32346534, 0x3A6E616D] @
     [0x65383A74, 0x6573742E, 0x74787431, 0x323A7069, 0x65636520] @
     [0x6C656E67, 0x74686933, 0x32373638, 0x65363A70, 0x69656365] @
     [0x7332303A, 0xB6A6828A, 0xB6B8080A, 0x9AA01C00, 0x2B8569F3] @
     [0xB72456E3, 0xDDACD06B, 0x2B521DA2, 0xAA1AEF91, 0x6AAA99DE] @
     [0x19C23377, 0xDDD1579C, 0xA0E346DC, 0xEB686193, 0x2CF31B7A] @
     [0xA8E57522, 0x9F16C65, 0xD4BE385C, 0x58344F58, 0xF348E235] @
     [0x4E98E31, 0x5E54CB14, 0x501B8D6B, 0xDBE8FEDF, 0xC8FAF72F] @
     [0x67BCF6EA, 0x75FB8858, 0x1A16462A, 0xDE8A4AFB, 0xD044AFFA] @
     [0xDE1F78BC, 0xF273F2B4, 0x92F6F7D0, 0x3CAAA87F, 0xB6AB770B] @
     [0x4BF931B6, 0x6DA5C3BD, 0xC6A7DA75, 0x1A0E669C, 0x47047278] @
     [0xD2A0A5A5, 0xB61CFC46, 0xB5BD8FA0, 0xA616FB86, 0xB6581B79] @
     [0xA25A1136, 0xE1E224ED, 0x7F0A6794, 0xA94E6890, 0x415A82C4] @
     [0x2372B904, 0x40CF1AB, 0x1527939, 0x116007E, 0x5A802CFE] @
     [0x1E812127, 0x9E8A85D7, 0x17A153F4, 0x7C2C19F4, 0x3D953D99] @
     [0x82922AB2, 0x40D4DE51, 0x5F72BA34, 0x4487DD8B, 0xA8C51424]"
    by (simp add: a_words_defs)
  have "sha1_rounds 0 (rev (a_words_4 @ a_words_3 @ a_words_2 @ a_words_1 @ a_words_0)) (st 0x67452301 0xEFCDAB89 0x98BADCFE 0x10325476 0xC3D2E1F0) = st 0xB99C6E1 0x5278B329 0x636FC4A7 0x25B0C449 0xC5E07BC4" unfolding rev
    by (simp only: sha1_rounds_append length_5 arith_simps add_0 a_rounds)
  then show ?thesis unfolding sha1_block_def a_first_words a_schedule Let_def by simp
qed

section \<open>Block b\<close>

definition b_words_0 :: "u32 list" where
  "b_words_0 =
     [0x2A8, 0x0, 0x0, 0x0, 0x0, 0x0, 0x0, 0x0, 0x0, 0x0, 0x65800000, 0x37383930, 0x33343536,
     0x39303132, 0x35363738, 0x31323334]"

definition b_words_1 :: "u32 list" where
  "b_words_1 =
     [0xAE2E0060, 0x39297D3F, 0x25C3C2D2, 0xB7E3F764, 0x96507E7A, 0xE1C1C969, 0x2D8981EA, 0xC6485D49,
     0xECF0F1E0, 0x1AC0C4E9, 0xF3202AA8, 0x76787A58, 0x8D606274, 0x1C101554, 0xC04041C, 0x1004040C]"

definition b_words_2 :: "u32 list" where
  "b_words_2 =
     [0xB044F874, 0x4094B594, 0xD0835284, 0xC0625B4E, 0xD1A35FC9, 0x194C0D0, 0xF5F5EA1, 0x351C450E,
     0x1DE7126F, 0x17FF65BB, 0xE238AB20, 0xE1A4F95D, 0x6E5E5642, 0x4B0F4C0A, 0x2B89357B, 0xDF3F1D87]"

definition b_words_3 :: "u32 list" where
  "b_words_3 =
     [0x62E6B47E, 0xEEC55ED3, 0x4CCE4A60, 0x58F485E6, 0x6A2B0627, 0x75F76F9A, 0xE88D0349, 0xC903D315,
     0xCDFA37B5, 0x3E8390D4, 0x3357E05A, 0x4401AF60, 0x7D365D4B, 0x36F71BE6, 0x14391018, 0xE35E8C0E]"

definition b_words_4 :: "u32 list" where
  "b_words_4 =
     [0x5B147255, 0x19AAFB99, 0xD2D59BEF, 0x6D23C2C1, 0xE2589C33, 0x3418B57F, 0xF9510DD4, 0xDECC4E47,
     0x7CC16E07, 0x2080A216, 0xF35A8696, 0xF9F13781, 0x9054C19, 0xCBCEDEC4, 0xDE8E2192, 0xA0C81D3A]"

lemma b_schedule_0: "sha1_schedule 16 b_words_0 = b_words_1 @ b_words_0"
  unfolding b_words_0_def b_words_1_def by code_simp

lemma b_schedule_1: "sha1_schedule 16 b_words_1 = b_words_2 @ b_words_1"
  unfolding b_words_1_def b_words_2_def by code_simp

lemma b_schedule_2: "sha1_schedule 16 b_words_2 = b_words_3 @ b_words_2"
  unfolding b_words_2_def b_words_3_def by code_simp

lemma b_schedule_3: "sha1_schedule 16 b_words_3 = b_words_4 @ b_words_3"
  unfolding b_words_3_def b_words_4_def by code_simp

lemmas b_words_defs = b_words_0_def b_words_1_def b_words_2_def b_words_3_def b_words_4_def

lemma b_words_length: "length b_words_0 = 16" "length b_words_1 = 16" "length b_words_2 = 16" "length b_words_3 = 16"
  by (simp_all add: b_words_defs)

lemma b_schedule: "sha1_schedule 64 b_words_0 = b_words_4 @ b_words_3 @ b_words_2 @ b_words_1 @ b_words_0"
  by (rule sha1_schedule_64) (rule b_schedule_0 b_schedule_1 b_schedule_2 b_schedule_3 b_words_length)+

lemma b_first_words: "rev (sha1_words 16 block_b) = b_words_0"
  unfolding block_b_def b_words_0_def by code_simp

lemma b_rounds_0: "sha1_rounds 0 [0x31323334, 0x35363738, 0x39303132, 0x33343536, 0x37383930]
     (st 0x72DEE9E2 0x42465EB2 0xFC2AA1A5 0x35E318BF 0x89B35DB4) =
     st 0x464FA0CC 0xBEC20955 0xC3CD8E63 0x4FD54EB4 0x39BA11DF"
  by code_simp

lemma b_rounds_1: "sha1_rounds 5 [0x65800000, 0x0, 0x0, 0x0, 0x0]
     (st 0x464FA0CC 0xBEC20955 0xC3CD8E63 0x4FD54EB4 0x39BA11DF) =
     st 0x8D5D3257 0x973D0C9C 0x76B7112F 0x18A5B4B9 0x61E17CF8"
  by code_simp

lemma b_rounds_2: "sha1_rounds 10 [0x0, 0x0, 0x0, 0x0, 0x0]
     (st 0x8D5D3257 0x973D0C9C 0x76B7112F 0x18A5B4B9 0x61E17CF8) =
     st 0xD8747005 0x49509A5F 0x75CF6EE1 0x70C559DC 0xE1AFFC6B"
  by code_simp

lemma b_rounds_3: "sha1_rounds 15 [0x2A8, 0x1004040C, 0xC04041C, 0x1C101554, 0x8D606274]
     (st 0xD8747005 0x49509A5F 0x75CF6EE1 0x70C559DC 0xE1AFFC6B) =
     st 0xCAAAB95 0x643445FD 0x63C820B6 0x5878EADF 0x2F21714A"
  by code_simp

lemma b_rounds_4: "sha1_rounds 20 [0x76787A58, 0xF3202AA8, 0x1AC0C4E9, 0xECF0F1E0, 0xC6485D49]
     (st 0xCAAAB95 0x643445FD 0x63C820B6 0x5878EADF 0x2F21714A) =
     st 0xBA53311D 0xA18C9DE8 0x5521A131 0x46A772A1 0x253765E"
  by code_simp

lemma b_rounds_5: "sha1_rounds 25 [0x2D8981EA, 0xE1C1C969, 0x96507E7A, 0xB7E3F764, 0x25C3C2D2]
     (st 0xBA53311D 0xA18C9DE8 0x5521A131 0x46A772A1 0x253765E) =
     st 0x4DEEA1DF 0xDCA52788 0x680442C2 0x30CFE885 0x26C9D586"
  by code_simp

lemma b_rounds_6: "sha1_rounds 30 [0x39297D3F, 0xAE2E0060, 0xDF3F1D87, 0x2B89357B, 0x4B0F4C0A]
     (st 0x4DEEA1DF 0xDCA52788 0x680442C2 0x30CFE885 0x26C9D586) =
     st 0xCFE4BB65 0x854360F4 0x7FBC2799 0xE0A720D1 0x84440207"
  by code_simp

lemma b_rounds_7: "sha1_rounds 35 [0x6E5E5642, 0xE1A4F95D, 0xE238AB20, 0x17FF65BB, 0x1DE7126F]
     (st 0xCFE4BB65 0x854360F4 0x7FBC2799 0xE0A720D1 0x84440207) =
     st 0x2AABA077 0x426D4A28 0xBC6FDF43 0xF3EC559F 0xDE1B0617"
  by code_simp

lemma b_rounds_8: "sha1_rounds 40 [0x351C450E, 0xF5F5EA1, 0x194C0D0, 0xD1A35FC9, 0xC0625B4E]
     (st 0x2AABA077 0x426D4A28 0xBC6FDF43 0xF3EC559F 0xDE1B0617) =
     st 0x52C5343E 0x4F649994 0x9306C042 0x4688067 0x7A8D1D7C"
  by code_simp

lemma b_rounds_9: "sha1_rounds 45 [0xD0835284, 0x4094B594, 0xB044F874, 0xE35E8C0E, 0x14391018]
     (st 0x52C5343E 0x4F649994 0x9306C042 0x4688067 0x7A8D1D7C) =
     st 0x9FA4E5DD 0x4ABF8CF5 0x2F6BCCA1 0xBB12D31 0xE8DCD3B"
  by code_simp

lemma b_rounds_10: "sha1_rounds 50 [0x36F71BE6, 0x7D365D4B, 0x4401AF60, 0x3357E05A, 0x3E8390D4]
     (st 0x9FA4E5DD 0x4ABF8CF5 0x2F6BCCA1 0xBB12D31 0xE8DCD3B) =
     st 0x97EF309E 0xFF658358 0xCE49393 0xF5B43E53 0x753E3B98"
  by code_simp

lemma b_rounds_11: "sha1_rounds 55 [0xCDFA37B5, 0xC903D315, 0xE88D0349, 0x75F76F9A, 0x6A2B0627]
     (st 0x97EF309E 0xFF658358 0xCE49393 0xF5B43E53 0x753E3B98) =
     st 0xF0F21F0C 0xF34E468B 0x19F98B99 0xCC66FA2C 0xB387B5D3"
  by code_simp

lemma b_rounds_12: "sha1_rounds 60 [0x58F485E6, 0x4CCE4A60, 0xEEC55ED3, 0x62E6B47E, 0xA0C81D3A]
     (st 0xF0F21F0C 0xF34E468B 0x19F98B99 0xCC66FA2C 0xB387B5D3) =
     st 0x68399D5B 0x4A49DDF0 0xAB25F2F6 0x1DFCB63F 0xC6FD059A"
  by code_simp

lemma b_rounds_13: "sha1_rounds 65 [0xDE8E2192, 0xCBCEDEC4, 0x9054C19, 0xF9F13781, 0xF35A8696]
     (st 0x68399D5B 0x4A49DDF0 0xAB25F2F6 0x1DFCB63F 0xC6FD059A) =
     st 0x6DF5CD4E 0x51E1EA2E 0xAE803561 0x3F00892E 0x1CEC8B6A"
  by code_simp

lemma b_rounds_14: "sha1_rounds 70 [0x2080A216, 0x7CC16E07, 0xDECC4E47, 0xF9510DD4, 0x3418B57F]
     (st 0x6DF5CD4E 0x51E1EA2E 0xAE803561 0x3F00892E 0x1CEC8B6A) =
     st 0x3A080B00 0xCD1AA8E8 0x4CE92CF4 0xEEA40B0F 0x21BABBE1"
  by code_simp

lemma b_rounds_15: "sha1_rounds 75 [0xE2589C33, 0x6D23C2C1, 0xD2D59BEF, 0x19AAFB99, 0x5B147255]
     (st 0x3A080B00 0xCD1AA8E8 0x4CE92CF4 0xEEA40B0F 0x21BABBE1) =
     st 0x2FE65CC4 0xDE750A27 0xF8E53B47 0xD16CCF80 0x1FB3C241"
  by code_simp

lemmas b_rounds = b_rounds_0 b_rounds_1 b_rounds_2 b_rounds_3 b_rounds_4 b_rounds_5 b_rounds_6 b_rounds_7 b_rounds_8 b_rounds_9 b_rounds_10 b_rounds_11 b_rounds_12 b_rounds_13 b_rounds_14 b_rounds_15

lemma b_block: "sha1_block (st 0x72DEE9E2 0x42465EB2 0xFC2AA1A5 0x35E318BF 0x89B35DB4) block_b = st 0xA2C546A6 0x20BB68D9 0xF50FDCEC 0x74FE83F 0xA9671FF5"
proof -
  have rev: "rev (b_words_4 @ b_words_3 @ b_words_2 @ b_words_1 @ b_words_0) =
     [0x31323334, 0x35363738, 0x39303132, 0x33343536, 0x37383930] @
     [0x65800000, 0x0, 0x0, 0x0, 0x0] @
     [0x0, 0x0, 0x0, 0x0, 0x0] @
     [0x2A8, 0x1004040C, 0xC04041C, 0x1C101554, 0x8D606274] @
     [0x76787A58, 0xF3202AA8, 0x1AC0C4E9, 0xECF0F1E0, 0xC6485D49] @
     [0x2D8981EA, 0xE1C1C969, 0x96507E7A, 0xB7E3F764, 0x25C3C2D2] @
     [0x39297D3F, 0xAE2E0060, 0xDF3F1D87, 0x2B89357B, 0x4B0F4C0A] @
     [0x6E5E5642, 0xE1A4F95D, 0xE238AB20, 0x17FF65BB, 0x1DE7126F] @
     [0x351C450E, 0xF5F5EA1, 0x194C0D0, 0xD1A35FC9, 0xC0625B4E] @
     [0xD0835284, 0x4094B594, 0xB044F874, 0xE35E8C0E, 0x14391018] @
     [0x36F71BE6, 0x7D365D4B, 0x4401AF60, 0x3357E05A, 0x3E8390D4] @
     [0xCDFA37B5, 0xC903D315, 0xE88D0349, 0x75F76F9A, 0x6A2B0627] @
     [0x58F485E6, 0x4CCE4A60, 0xEEC55ED3, 0x62E6B47E, 0xA0C81D3A] @
     [0xDE8E2192, 0xCBCEDEC4, 0x9054C19, 0xF9F13781, 0xF35A8696] @
     [0x2080A216, 0x7CC16E07, 0xDECC4E47, 0xF9510DD4, 0x3418B57F] @
     [0xE2589C33, 0x6D23C2C1, 0xD2D59BEF, 0x19AAFB99, 0x5B147255]"
    by (simp add: b_words_defs)
  have "sha1_rounds 0 (rev (b_words_4 @ b_words_3 @ b_words_2 @ b_words_1 @ b_words_0)) (st 0x72DEE9E2 0x42465EB2 0xFC2AA1A5 0x35E318BF 0x89B35DB4) = st 0x2FE65CC4 0xDE750A27 0xF8E53B47 0xD16CCF80 0x1FB3C241" unfolding rev
    by (simp only: sha1_rounds_append length_5 arith_simps add_0 b_rounds)
  then show ?thesis unfolding sha1_block_def b_first_words b_schedule Let_def by simp
qed

section \<open>The digest\<close>

lemma sha1_Sum_demo: "sha1_Sum demo_bytes =
  [0xA2, 0xC5, 0x46, 0xA6, 0x20, 0xBB, 0x68, 0xD9, 0xF5, 0xF, 0xDC, 0xEC, 0x7, 0x4F, 0xE8, 0x3F,
   0xA9, 0x67, 0x1F, 0xF5]"
proof -
  have "sha1_blocks (length (sha1_pad demo_bytes) div 64) (sha1_pad demo_bytes) = [block_a, block_b]"
    by (simp add: demo_padded blocks_length numeral_2_eq_2)
  moreover have init: "sha1_init = st 0x67452301 0xEFCDAB89 0x98BADCFE 0x10325476 0xC3D2E1F0" by (simp add: sha1_init_def)
  have "sha1_block (sha1_block sha1_init block_a) block_b = st 0xA2C546A6 0x20BB68D9 0xF50FDCEC 0x74FE83F 0xA9671FF5"
    unfolding init a_block b_block ..
  ultimately show ?thesis by (simp add: sha1_Sum_def Let_def put_u32_def)
qed

end
