(* ===== verification/Client_Example.thy ===== *)
theory Client_Example
  imports Tracker_Session Torrent_File Sha1_Demo
begin

text \<open>
  The demonstration program \<open>src/cmd/client_example/main.go\<close>: it parses a torrent that is written in it and
  plays three peers against a tracker.  The program is a list of entries, one for each heading and each
  announcement, in the order in which they happen, and the text an entry prints; messages on the
  standard error stream are left out.  The theorem runs it against the modelled tracker.
\<close>

section \<open>Printing\<close>

type_synonym announced = "tracker_err + AnnounceResponse"

datatype entry =
    Heading string
  | Started string announced
  | Updated string announced
  | Finished string announced
  | Checked string announced
  | Stopped string announced

abbreviation nl :: string where
  "nl \<equiv> [CHR 0x0A]"

definition peer_text :: "nat \<Rightarrow> client_peer \<Rightarrow> string" where
  "peer_text j p = ''  Peer '' @ itoa (int (Suc j)) @ '': '' @ cp_IP p @ '':'' @ itoa (cp_Port p) @
     '' (ID: '' @ cp_PeerID p @ '')'' @ nl"

definition peers_text :: "client_peer list \<Rightarrow> string" where
  "peers_text ps = concat (map (\<lambda>(j, p). peer_text j p) (enumerate 0 ps))"

definition count_text :: "AnnounceResponse \<Rightarrow> string" where
  "count_text r = itoa (int (length (ar_Peers r)))"

fun entry_text :: "entry \<Rightarrow> string" where
  "entry_text (Heading s) = s @ nl"
| "entry_text (Started name (Inr r)) = name @ '': Interval='' @ itoa (ar_Interval r) @ ''s, Peers='' @ count_text r @ nl @
     peers_text (ar_Peers r)"
| "entry_text (Updated name (Inr r)) = name @ '': Updated stats, Peers='' @ count_text r @ nl @ peers_text (ar_Peers r)"
| "entry_text (Finished name (Inr r)) = name @ '': Download completed! Peers='' @ count_text r @ nl @ peers_text (ar_Peers r)"
| "entry_text (Checked name (Inr r)) = name @ '' sees '' @ count_text r @ '' other peers:'' @ nl @ peers_text (ar_Peers r)"
| "entry_text (Stopped name (Inr r)) = name @ '': Stopped announcing'' @ nl"
| "entry_text _ = []"

section \<open>The program\<close>

definition example_peers :: "(string \<times> int \<times> string) list" where
  "example_peers =
    [(''-PC0001-123456789012'', 6881, ''Peer A''),
     (''-PC0002-abcdefghijkl'', 6882, ''Peer B''),
     (''-PC0003-mnopqrstuvwx'', 6883, ''Peer C'')]"

text \<open>\<open>Announce\<close> with the URL, the hash and the HTTP client fixed; a panic ends the program.\<close>

type_synonym 'w announcer = "TrackerClient \<Rightarrow> int \<Rightarrow> string \<Rightarrow> 'w \<Rightarrow> go_panic + announced \<times> 'w"

definition announcer :: "(string \<Rightarrow> url option) \<Rightarrow> ('w \<Rightarrow> url \<Rightarrow> http_result \<times> 'w) \<Rightarrow> string \<Rightarrow> id20 \<Rightarrow> 'w announcer" where
  "announcer urlParse get trackerURL infoHash tc left event w =
     (case Tracker_Client.Announce urlParse get w tc trackerURL infoHash left event of
        (Inl (Panic p), _) \<Rightarrow> Inl p
      | (Inl (Err e), w') \<Rightarrow> Inr (Inl e, w')
      | (Inr r, w') \<Rightarrow> Inr (Inr r, w'))"

fun start_all :: "'w announcer \<Rightarrow> int \<Rightarrow> (string \<times> int \<times> string) list \<Rightarrow> 'w
    \<Rightarrow> go_panic + TrackerClient list \<times> entry list \<times> 'w" where
  "start_all ann fileSize [] w = Inr ([], [], w)"
| "start_all ann fileSize ((i, port, name) # ps) w =
     (let tc = NewTrackerClient i port in
      bindE (ann tc fileSize ''started'' w) (\<lambda>(r, w1).
      bindE (start_all ann fileSize ps w1) (\<lambda>(cs, es, w2).
      Inr (tc # cs, Started name r # es, w2))))"

fun stop_all :: "'w announcer \<Rightarrow> (TrackerClient \<times> string) list \<Rightarrow> 'w \<Rightarrow> go_panic + entry list \<times> 'w" where
  "stop_all ann [] w = Inr ([], w)"
| "stop_all ann ((tc, name) # cs) w =
     bindE (ann tc 0 ''stopped'' w) (\<lambda>(r, w1).
     bindE (stop_all ann cs w1) (\<lambda>(es, w2).
     Inr (Stopped name r # es, w2)))"

definition testMultiplePeers :: "'w announcer \<Rightarrow> int \<Rightarrow> 'w \<Rightarrow> go_panic + entry list \<times> 'w" where
  "testMultiplePeers ann fileSize w =
     bindE (start_all ann fileSize example_peers w) (\<lambda>(cs, es1, w1).
     let a = UpdateStats (cs ! 0) 512 256 in
     bindE (ann a (wrap64 (fileSize - 256)) '''' w1) (\<lambda>(r2, w2).
     let b = UpdateStats (cs ! 1) 1024 fileSize in
     bindE (ann b 0 ''completed'' w2) (\<lambda>(r3, w3).
     bindE (ann (cs ! 2) fileSize '''' w3) (\<lambda>(r4, w4).
     bindE (stop_all ann (zip [a, b, cs ! 2] (map (snd \<circ> snd) example_peers)) w4) (\<lambda>(es5, w5).
     Inr ([Heading (nl @ ''Step 1: All peers announce started'')] @ es1 @
       [Heading (nl @ ''Step 2: Peer A downloads some data''), Updated ''Peer A'' r2,
        Heading (nl @ ''Step 3: Peer B completes download''), Finished ''Peer B'' r3,
        Heading (nl @ ''Step 4: Peer C checks current peers''), Checked ''Peer C'' r4,
        Heading (nl @ ''Step 5: All peers stop'')] @ es5, w5))))))"

definition torrentData :: string where
  "torrentData = ''d8:announce21:http://localhost:80804:infod6:lengthi1024e4:name8:test.txt12:piece lengthi32768e6:pieces20:12345678901234567890ee''"

text \<open>\<open>main\<close>; \<open>None\<close> is \<open>log.Fatal\<close>.\<close>

definition example_main :: "(string \<Rightarrow> url option) \<Rightarrow> ('w \<Rightarrow> url \<Rightarrow> http_result \<times> 'w) \<Rightarrow> 'w
    \<Rightarrow> (go_panic + entry list \<times> 'w) option" where
  "example_main urlParse get w =
     (case ParseTorrent (bytes_of_string torrentData) of
        Inl (Panic p) \<Rightarrow> Some (Inl p)
      | Inl (Err _) \<Rightarrow> None
      | Inr torrent \<Rightarrow>
          let infoHash = Torrent_File.InfoHash torrent in
          Some (bindE (testMultiplePeers (announcer urlParse get (Torrent_File.Announce torrent) infoHash)
                  (Length (Info torrent)) w) (\<lambda>(es, w').
            Inr ([Heading (''Torrent: '' @ Name (Info torrent)),
                  Heading (''Tracker: '' @ Torrent_File.Announce torrent),
                  Heading (''Info Hash: '' @ hex_encode infoHash),
                  Heading (nl @ ''Testing multiple peers'')] @ es, w'))))"

section \<open>The torrent\<close>

definition demo_info :: InfoDict where
  "demo_info = \<lparr>Name = ''test.txt'', Length = 1024, Files = [], PieceLength = 32768,
     Pieces = bytes_of_string ''12345678901234567890'', Private = 0\<rparr>"

lemma demo_info_text: "encodeBencodeInfoDict demo_info =
  ''d6:lengthi1024e4:name8:test.txt12:piece lengthi32768e6:pieces20:12345678901234567890e''"
  by (simp add: encodeBencodeInfoDict_def demo_info_def itoa_def utoa.simps digit_char_def)

lemma demo_torrent_text: "torrentData = torrent_text ''http://localhost:8080'' demo_info"
  by (simp add: torrentData_def torrent_text_def demo_info_text bstr_def itoa_def utoa.simps digit_char_def)

lemma demo_info_bytes: "bytes_of_string (encodeBencodeInfoDict demo_info) = demo_bytes"
  unfolding demo_info_text demo_bytes_def by (simp add: bytes_of_string_def)

lemma demo_hash: "plain_hash (sha1_Sum demo_bytes)"
  by (simp add: sha1_Sum_demo plain_hash_def)

lemma demo_torrent:
  obtains torrent where "ParseTorrent (bytes_of_string torrentData) = Inr torrent"
    and "Torrent_File.Announce torrent = ''http://localhost:8080''" and "Info torrent = demo_info"
    and "Torrent_File.InfoHash torrent = sha1_Sum demo_bytes"
proof -
  have "str_ok ''http://localhost:8080''" "info_ok demo_info" "info_shape demo_info"
    by (simp_all add: str_ok_def max_alloc_def info_ok_def info_shape_def demo_info_def int64_ok_def)
  from parse_torrent_text [OF this] show thesis
    using that unfolding demo_torrent_text demo_info_bytes by blast
qed

section \<open>A session at the tracker\<close>

text \<open>
  The world of the demonstration: the storage of the tracker and the number of requests so far, on which
  the clock, the address the tracker sees and the map orders depend.
\<close>

definition tracker_session :: "(node \<Rightarrow> string option) \<Rightarrow> (nat \<Rightarrow> map_order) \<Rightarrow> (nat \<Rightarrow> int) \<Rightarrow> (nat \<Rightarrow> string)
    \<Rightarrow> MemoryStorage \<times> nat \<Rightarrow> url \<Rightarrow> http_result \<times> MemoryStorage \<times> nat" where
  "tracker_session marshal c now remote w u =
     (case tracker_get marshal (c (snd w)) (now (snd w)) (remote (snd w)) (fst w) u of
        (r, m') \<Rightarrow> (r, (m', Suc (snd w))))"

text \<open>Peers on record with their ports, and the completion count.\<close>

definition tracked :: "id20 \<Rightarrow> (string \<Rightarrow> int option) \<Rightarrow> int \<Rightarrow> MemoryStorage \<times> nat \<Rightarrow> bool" where
  "tracked h P k w \<longleftrightarrow> mem_inv (fst w) \<and> view_ok mem_view (fst w) \<and>
     (\<lambda>i. map_option Port (mem_view (fst w) h i)) = P \<and> mem_count (fst w) h = k"

definition seen :: "AnnounceResponse \<Rightarrow> (string \<times> int) set" where
  "seen r = (\<lambda>p. (cp_PeerID p, cp_Port p)) ` set (ar_Peers r)"

definition session_ok :: "(node \<Rightarrow> string option) \<Rightarrow> (nat \<Rightarrow> map_order) \<Rightarrow> (nat \<Rightarrow> string) \<Rightarrow> (string \<Rightarrow> url option) \<Rightarrow> string \<Rightarrow> id20 \<Rightarrow> bool" where
  "session_ok marshal c remote urlParse t h \<longleftrightarrow> marshals marshal \<and> (\<forall>n. order_ok (c n)) \<and> (\<forall>n. str_ok (remote n)) \<and>
     announce_url urlParse t \<and> is20 h \<and> plain_hash h"

lemma Announce_session:
  "announce_url urlParse t \<Longrightarrow>
   Tracker_Client.Announce urlParse (tracker_session marshal c now remote) w tc t h left event =
     (case Tracker_Client.Announce urlParse (tracker_get marshal (c (snd w)) (now (snd w)) (remote (snd w))) (fst w) tc t h left event of
        (r, m') \<Rightarrow> (r, (m', Suc (snd w))))"
  by (auto simp: Tracker_Client.Announce_def buildAnnounceURL_def announce_url_def tracker_session_def Let_def split: prod.split)

lemma seen_reply:
  assumes "reply_list v 50 who ps" and "finite (dom v)" and "card (dom v) \<le> 50" and "\<And>i p. v i = Some p \<Longrightarrow> ID p = i"
  shows "seen \<lparr>ar_Interval = n, ar_Peers = map client_view ps\<rparr> = {(i, p). map_option Port (v i) = Some p \<and> i \<noteq> who}"
proof -
  have "p \<in> set ps \<longleftrightarrow> (\<exists>i. v i = Some p \<and> i \<noteq> who)" for p
  proof
    assume "p \<in> set ps"
    then show "\<exists>i. v i = Some p \<and> i \<noteq> who" using assms(1) unfolding reply_list_def by blast
  next
    assume "\<exists>i. v i = Some p \<and> i \<noteq> who"
    then show "p \<in> set ps" using assms(1,3) unfolding reply_list_def by fastforce
  qed
  then have "set ps = {p. \<exists>i. v i = Some p \<and> i \<noteq> who}" by blast
  then show ?thesis using assms(4) by (force simp: seen_def client_view_def)
qed

lemma session_announce:
  assumes "session_ok marshal c remote urlParse t h" and "tracked h P k w"
    and "client_ok tc" and "str_ok (tc_peerID tc)" and "int64_ok left" and "event \<noteq> ''stopped''"
    and "finite (dom P)" and "card (dom P) < 50"
  shows "\<exists>r w'. announcer urlParse (tracker_session marshal c now remote) t h tc left event w = Inr (Inr r, w') \<and>
    tracked h (P(tc_peerID tc \<mapsto> tc_port tc)) (if event = ''completed'' then wrap64 (k + 1) else k) w' \<and> snd w' = Suc (snd w) \<and>
    seen r = {(i, p). P i = Some p \<and> i \<noteq> tc_peerID tc} \<and> distinct (map cp_PeerID (ar_Peers r)) \<and> ar_Interval r = 1800"
proof -
  let ?m = "fst w" and ?n = "snd w" and ?i = "tc_peerID tc"
  have env: "marshals marshal" "order_ok (c ?n)" "str_ok (remote ?n)" "announce_url urlParse t" "is20 h" "37 \<notin> set h" "plus_to_space h = h"
    using assms(1) by (auto simp: session_ok_def plain_hash_def)
  have w: "mem_inv ?m" "view_ok mem_view ?m" "P = (\<lambda>i. map_option Port (mem_view ?m h i))" "mem_count ?m h = k"
    using assms(2) by (auto simp: tracked_def)
  let ?rec = "client_record tc left event (remote ?n) (now ?n)"
  obtain ps m' where a: "Tracker_Client.Announce urlParse (tracker_get marshal (c ?n) (now ?n) (remote ?n)) ?m tc t h left event =
      (Inr \<lparr>ar_Interval = 1800, ar_Peers = map client_view ps\<rparr>, m')"
    and reply: "reply_list (mem_view m' h) 50 ?i ps" and inv: "mem_inv m'" and rec: "mem_view m' h ?i = Some ?rec"
    and others: "\<forall>h' i. is20 h' \<and> i \<noteq> ?i \<longrightarrow> mem_view m' h' i = mem_view ?m h' i"
    and range: "\<forall>h' q. is20 h' \<and> mem_view m' h' ?i = Some q \<longrightarrow> q = ?rec"
    and cnt: "mem_count m' h = (if event = ''completed'' then wrap64 (mem_count ?m h + 1) else mem_count ?m h)"
    using announce_decoded [OF env(1) w(1,2) env(2,4) assms(3,5) env(5,6) assms(6), of "now ?n" "remote ?n"]
    unfolding env(7) by blast
  have "view_ok mem_view m'" unfolding view_ok_def
    using others range client_record_ok [OF assms(3,4) env(3)] w(2) unfolding view_ok_def by metis
  moreover have P': "(\<lambda>i. map_option Port (mem_view m' h i)) = P(?i \<mapsto> tc_port tc)"
    using others rec env(5) by (auto simp: w(3) client_record_def)
  moreover have "seen \<lparr>ar_Interval = 1800, ar_Peers = map client_view ps\<rparr> = {(i, p). P i = Some p \<and> i \<noteq> ?i}"
  proof -
    have "dom (mem_view m' h) = dom (\<lambda>i. map_option Port (mem_view m' h i))" by (auto simp: dom_def)
    then have "dom (mem_view m' h) = insert ?i (dom P)" unfolding P' by simp
    then have "card (dom (mem_view m' h)) \<le> 50" using assms(7,8) by (simp add: card_insert_if)
    from seen_reply [OF reply mem_view_finite this mem_view_ID [OF inv]] P' show ?thesis
      by (auto simp: fun_eq_iff split: if_splits)
  qed
  moreover have "distinct (map cp_PeerID (map client_view ps))"
    using reply by (simp add: reply_list_def client_view_def comp_def)
  ultimately show ?thesis
    using a cnt inv by (auto simp: announcer_def Announce_session [OF env(4)] tracked_def w(4))
qed

lemma session_stop:
  assumes "session_ok marshal c remote urlParse t h" and "tracked h P k w" and "client_ok tc" and "int64_ok left"
  shows "\<exists>r P' w'. announcer urlParse (tracker_session marshal c now remote) t h tc left ''stopped'' w = Inr (Inr r, w') \<and>
    tracked h P' k w' \<and> snd w' = Suc (snd w) \<and> dom P' \<subseteq> dom P - {tc_peerID tc} \<and> seen r = {}"
proof -
  let ?m = "fst w" and ?n = "snd w" and ?i = "tc_peerID tc"
  let ?r = "announce_request tc h left ''stopped'' (remote ?n)"
  have env: "marshals marshal" "announce_url urlParse t" "is20 h" "37 \<notin> set h" "plus_to_space h = h"
    using assms(1) by (auto simp: session_ok_def plain_hash_def)
  have w: "mem_inv ?m" "view_ok mem_view ?m" "P = (\<lambda>i. map_option Port (mem_view ?m h i))" "mem_count ?m h = k"
    using assms(2) by (auto simp: tracked_def)
  have valid: "announce_valid ?r h" using client_valid [OF assms(3) env(3,4)] unfolding env(5) .
  have stop: "handleAnnounce marshal memory_store ?m (c ?n) (now ?n) ?r =
      (sendAnnounceResponse marshal [] 1800, mem_RemovePeer ?m h ?i)"
    using valid by (simp add: handleAnnounce_def announce_valid_def announce_args Let_def memory_store_def)
  have ev: "arg ?r ''event'' = ''stopped''" by (simp add: announce_args)
  note facts = memory.announce_stopped [OF w(1) valid ev stop, unfolded announce_args]
  have "announce_result (GotResponse (sendAnnounceResponse marshal [] 1800)) = Inr \<lparr>ar_Interval = 1800, ar_Peers = []\<rparr>"
    using announce_result_carries [OF announce_carries [OF env(1)], of "[]"] by simp
  then have run: "announcer urlParse (tracker_session marshal c now remote) t h tc left ''stopped'' w =
      Inr (Inr \<lparr>ar_Interval = 1800, ar_Peers = []\<rparr>, (mem_RemovePeer ?m h ?i, Suc ?n))"
    by (simp add: announcer_def Announce_session [OF env(2)] Announce_tracker [OF env(2)] stop)
  have "view_ok mem_view (mem_RemovePeer ?m h ?i)" using facts w(2) unfolding view_ok_def by blast
  then have "tracked h (\<lambda>i. map_option Port (mem_view (mem_RemovePeer ?m h ?i) h i)) k (mem_RemovePeer ?m h ?i, Suc ?n)"
    using facts w(4) by (simp add: tracked_def)
  moreover have "dom (\<lambda>i. map_option Port (mem_view (mem_RemovePeer ?m h ?i) h i)) \<subseteq> dom P - {?i}"
    using facts env(3) unfolding w(3) by (auto simp: dom_def)
  ultimately show ?thesis using run by (auto simp: seen_def)
qed

section \<open>The demonstration\<close>

lemma map_filter_append [simp]: "List.map_filter f (xs @ ys) = List.map_filter f xs @ List.map_filter f ys"
  by (induction xs) (simp_all add: List.map_filter_simps split: option.split)

definition reply_of :: "announced \<Rightarrow> (string \<times> int) set option" where
  "reply_of r = (case r of Inl _ \<Rightarrow> None | Inr x \<Rightarrow> Some (seen x))"

text \<open>Who made an announcement, and which peers with which ports it was told of.\<close>

fun heard :: "entry \<Rightarrow> (string \<times> (string \<times> int) set option) option" where
  "heard (Heading s) = None"
| "heard (Started name r) = Some (name, reply_of r)"
| "heard (Updated name r) = Some (name, reply_of r)"
| "heard (Finished name r) = Some (name, reply_of r)"
| "heard (Checked name r) = Some (name, reply_of r)"
| "heard (Stopped name r) = Some (name, reply_of r)"

definition idA :: string where "idA = ''-PC0001-123456789012''"
definition idB :: string where "idB = ''-PC0002-abcdefghijkl''"
definition idC :: string where "idC = ''-PC0003-mnopqrstuvwx''"

lemma demo_ids [simp]:
  "idA \<noteq> idB" "idB \<noteq> idA" "idA \<noteq> idC" "idC \<noteq> idA" "idB \<noteq> idC" "idC \<noteq> idB"
  "idA \<noteq> []" "idB \<noteq> []" "idC \<noteq> []" "str_ok idA" "str_ok idB" "str_ok idC"
  by (simp_all add: idA_def idB_def idC_def)

lemma example_peers_alt:
  "example_peers = [(idA, 6881, ''Peer A''), (idB, 6882, ''Peer B''), (idC, 6883, ''Peer C'')]"
  by (simp add: example_peers_def idA_def idB_def idC_def)

lemma demo_client [simp]:
  "i \<noteq> [] \<Longrightarrow> int64_ok p \<Longrightarrow> client_ok (NewTrackerClient i p)"
  "i \<noteq> [] \<Longrightarrow> int64_ok p \<Longrightarrow> int64_ok u \<Longrightarrow> int64_ok d \<Longrightarrow> client_ok (UpdateStats (NewTrackerClient i p) u d)"
  by (simp_all add: client_ok_def NewTrackerClient_def UpdateStats_def int64_ok_def)

lemma client_fields [simp]:
  "tc_peerID (NewTrackerClient i p) = i" "tc_port (NewTrackerClient i p) = p"
  "tc_peerID (UpdateStats tc u d) = tc_peerID tc" "tc_port (UpdateStats tc u d) = tc_port tc"
  by (simp_all add: NewTrackerClient_def UpdateStats_def)

lemma small_int64 [simp]: "0 \<le> n \<Longrightarrow> n < 10000 \<Longrightarrow> int64_ok n"
  by (simp add: int64_ok_def)

definition portsABC :: "string \<Rightarrow> int option" where
  "portsABC = [idA \<mapsto> 6881, idB \<mapsto> 6882, idC \<mapsto> 6883]"

lemma portsABC_small: "finite (dom portsABC)" "card (dom portsABC) < 50"
  by (simp_all add: portsABC_def)

lemma portsABC_again [simp]:
  "portsABC(idA \<mapsto> 6881) = portsABC" "portsABC(idB \<mapsto> 6882) = portsABC" "portsABC(idC \<mapsto> 6883) = portsABC"
  by (auto simp: portsABC_def fun_eq_iff)

lemma empty_tracker: "is20 h \<Longrightarrow> tracked h Map.empty 0 (NewMemoryStorage, 0)"
proof -
  assume "is20 h"
  moreover have "mem_count NewMemoryStorage h = 0" by (simp add: mem_count_def completed_of_def NewMemoryStorage_def)
  ultimately show ?thesis using mem_inv_New view_ok_New(1) by (auto simp: tracked_def)
qed

lemma demo_started:
  assumes "session_ok marshal c remote urlParse t h"
  shows "\<exists>es w. start_all (announcer urlParse (tracker_session marshal c now remote) t h) 1024 example_peers (NewMemoryStorage, 0) =
      Inr ([NewTrackerClient idA 6881, NewTrackerClient idB 6882, NewTrackerClient idC 6883], es, w) \<and>
    tracked h portsABC 0 w \<and> snd w = 3 \<and>
    List.map_filter heard es = [(''Peer A'', Some {}), (''Peer B'', Some {(idA, 6881)}),
      (''Peer C'', Some {(idA, 6881), (idB, 6882)})]"
proof -
  let ?ann = "announcer urlParse (tracker_session marshal c now remote) t h"
  have h: "is20 h" using assms by (simp add: session_ok_def)
  note announce = session_announce [OF assms, of _ _ _ _ 1024 "''started''" now]
  obtain ra wa where a: "?ann (NewTrackerClient idA 6881) 1024 ''started'' (NewMemoryStorage, 0) = Inr (Inr ra, wa)"
      "tracked h [idA \<mapsto> 6881] 0 wa" "snd wa = 1" "seen ra = {}"
    using announce [OF empty_tracker [OF h], of "NewTrackerClient idA 6881"] by auto
  obtain rb wb where b: "?ann (NewTrackerClient idB 6882) 1024 ''started'' wa = Inr (Inr rb, wb)"
      "tracked h [idA \<mapsto> 6881, idB \<mapsto> 6882] 0 wb" "snd wb = 2" "seen rb = {(i, p). [idA \<mapsto> 6881] i = Some p \<and> i \<noteq> idB}"
    using announce [OF a(2), of "NewTrackerClient idB 6882"] a(3) by auto
  obtain rc wc where c: "?ann (NewTrackerClient idC 6883) 1024 ''started'' wb = Inr (Inr rc, wc)"
      "tracked h portsABC 0 wc" "snd wc = 3" "seen rc = {(i, p). [idA \<mapsto> 6881, idB \<mapsto> 6882] i = Some p \<and> i \<noteq> idC}"
    using announce [OF b(2), of "NewTrackerClient idC 6883"] b(3) by (auto simp: portsABC_def)
  have "seen rb = {(idA, 6881)}" "seen rc = {(idA, 6881), (idB, 6882)}"
    unfolding b(4) c(4) by (auto split: if_splits)
  with a(1,4) b(1) c(1-3) show ?thesis
    by (simp add: example_peers_alt List.map_filter_simps reply_of_def)
qed

lemma demo_middle:
  assumes "session_ok marshal c remote urlParse t h" and "tracked h portsABC 0 w"
    and "client_ok a" and "tc_peerID a = idA" and "tc_port a = 6881"
    and "client_ok b" and "tc_peerID b = idB" and "tc_port b = 6882"
    and "client_ok d" and "tc_peerID d = idC" and "tc_port d = 6883"
  shows "\<exists>ra rb rc wa wb wc. announcer urlParse (tracker_session marshal c now remote) t h a 768 '''' w = Inr (Inr ra, wa) \<and>
    announcer urlParse (tracker_session marshal c now remote) t h b 0 ''completed'' wa = Inr (Inr rb, wb) \<and>
    announcer urlParse (tracker_session marshal c now remote) t h d 1024 '''' wb = Inr (Inr rc, wc) \<and>
    tracked h portsABC 1 wc \<and> snd wc = snd w + 3 \<and>
    seen ra = {(idB, 6882), (idC, 6883)} \<and> seen rb = {(idA, 6881), (idC, 6883)} \<and> seen rc = {(idA, 6881), (idB, 6882)}"
proof -
  let ?ann = "announcer urlParse (tracker_session marshal c now remote) t h"
  note announce = session_announce [OF assms(1) _ _ _ _ _ portsABC_small, where now = now]
  obtain ra wa where a: "?ann a 768 '''' w = Inr (Inr ra, wa)" "tracked h portsABC 0 wa" "snd wa = snd w + 1"
      "seen ra = {(i, p). portsABC i = Some p \<and> i \<noteq> idA}"
    using announce [OF assms(2,3), of 768 "''''"] assms(4,5) by auto
  obtain rb wb where b: "?ann b 0 ''completed'' wa = Inr (Inr rb, wb)" "tracked h portsABC 1 wb" "snd wb = snd w + 2"
      "seen rb = {(i, p). portsABC i = Some p \<and> i \<noteq> idB}"
    using announce [OF a(2) assms(6), of 0 "''completed''"] a(3) assms(7,8) by auto
  obtain rc wc where c: "?ann d 1024 '''' wb = Inr (Inr rc, wc)" "tracked h portsABC 1 wc" "snd wc = snd w + 3"
      "seen rc = {(i, p). portsABC i = Some p \<and> i \<noteq> idC}"
    using announce [OF b(2) assms(9), of 1024 "''''"] b(3) assms(10,11) by auto
  have "seen ra = {(idB, 6882), (idC, 6883)}" "seen rb = {(idA, 6881), (idC, 6883)}" "seen rc = {(idA, 6881), (idB, 6882)}"
    unfolding a(4) b(4) c(4) by (auto simp: portsABC_def split: if_splits)
  with a(1) b(1) c(1-3) show ?thesis by blast
qed

lemma demo_stopped:
  assumes "session_ok marshal c remote urlParse t h" and "tracked h portsABC 1 w"
    and "client_ok a" and "tc_peerID a = idA" and "client_ok b" and "tc_peerID b = idB" and "client_ok d" and "tc_peerID d = idC"
  shows "\<exists>es w'. stop_all (announcer urlParse (tracker_session marshal c now remote) t h)
      [(a, ''Peer A''), (b, ''Peer B''), (d, ''Peer C'')] w = Inr (es, w') \<and>
    tracked h Map.empty 1 w' \<and> snd w' = snd w + 3 \<and>
    List.map_filter heard es = [(''Peer A'', Some {}), (''Peer B'', Some {}), (''Peer C'', Some {})]"
proof -
  let ?ann = "announcer urlParse (tracker_session marshal c now remote) t h"
  have "int64_ok 0" by simp
  note stop = session_stop [OF assms(1) _ _ this, where now = now]
  obtain ra P wa where a: "?ann a 0 ''stopped'' w = Inr (Inr ra, wa)" "tracked h P 1 wa" "snd wa = Suc (snd w)"
      "dom P \<subseteq> dom portsABC - {idA}" "seen ra = {}"
    using stop [OF assms(2,3), unfolded assms(4)] by (elim exE conjE) (rule that)
  obtain rb Q wb where b: "?ann b 0 ''stopped'' wa = Inr (Inr rb, wb)" "tracked h Q 1 wb" "snd wb = Suc (snd wa)"
      "dom Q \<subseteq> dom P - {idB}" "seen rb = {}"
    using stop [OF a(2) assms(5), unfolded assms(6)] by (elim exE conjE) (rule that)
  obtain rc R wc where c: "?ann d 0 ''stopped'' wb = Inr (Inr rc, wc)" "tracked h R 1 wc" "snd wc = Suc (snd wb)"
      "dom R \<subseteq> dom Q - {idC}" "seen rc = {}"
    using stop [OF b(2) assms(7), unfolded assms(8)] by (elim exE conjE) (rule that)
  have "dom portsABC - {idA} = {idB, idC}" by (auto simp: portsABC_def)
  with a(4) have "dom P \<subseteq> {idB, idC}" by simp
  then have "dom P - {idB} \<subseteq> {idC}" by auto
  then have "dom Q \<subseteq> {idC}" by (rule order_trans [OF b(4)])
  then have "dom Q - {idC} \<subseteq> {}" by auto
  then have "dom R \<subseteq> {}" by (rule order_trans [OF c(4)])
  then have "R = Map.empty" by simp
  with a(1,3,5) b(1,3,5) c(1-3,5) show ?thesis by (simp add: List.map_filter_simps reply_of_def)
qed

section \<open>Properties\<close>

text \<open>
  C28.  The demonstration does what its messages say.  Run against the modelled tracker with an empty
  memory, whatever the clock, the addresses and the map orders, it parses its torrent and makes nine
  announcements that all succeed: the first peer is told of nobody, the second of the first and the third
  of both; the update, the completion and the check are each told of exactly the two other peers, with the
  ports they announced; after the stops the tracker has no peer of the torrent on record and has counted
  one completion.
\<close>

theorem example_runs:
  assumes "marshals marshal" and "\<forall>n. order_ok (c n)" and "\<forall>n. str_ok (remote n)"
    and "announce_url urlParse ''http://localhost:8080''"
  shows "\<exists>es w'. example_main urlParse (tracker_session marshal c now remote) (NewMemoryStorage, 0) = Some (Inr (es, w')) \<and>
    List.map_filter heard es =
      [(''Peer A'', Some {}), (''Peer B'', Some {(idA, 6881)}), (''Peer C'', Some {(idA, 6881), (idB, 6882)}),
       (''Peer A'', Some {(idB, 6882), (idC, 6883)}), (''Peer B'', Some {(idA, 6881), (idC, 6883)}),
       (''Peer C'', Some {(idA, 6881), (idB, 6882)}),
       (''Peer A'', Some {}), (''Peer B'', Some {}), (''Peer C'', Some {})] \<and>
    snd w' = 9 \<and> mem_view (fst w') (sha1_Sum demo_bytes) = Map.empty \<and> mem_count (fst w') (sha1_Sum demo_bytes) = 1"
proof -
  let ?h = "sha1_Sum demo_bytes" and ?t = "''http://localhost:8080''"
  let ?ann = "announcer urlParse (tracker_session marshal c now remote) ?t ?h"
  have ok: "session_ok marshal c remote urlParse ?t ?h"
    using assms demo_hash by (simp add: session_ok_def)
  let ?a = "NewTrackerClient idA 6881" and ?b = "NewTrackerClient idB 6882" and ?c = "NewTrackerClient idC 6883"
  let ?a' = "UpdateStats ?a 512 256" and ?b' = "UpdateStats ?b 1024 1024"
  obtain es1 w1 where s1: "start_all ?ann 1024 example_peers (NewMemoryStorage, 0) = Inr ([?a, ?b, ?c], es1, w1)"
      "tracked ?h portsABC 0 w1" "snd w1 = 3" "List.map_filter heard es1 = [(''Peer A'', Some {}), (''Peer B'', Some {(idA, 6881)}),
      (''Peer C'', Some {(idA, 6881), (idB, 6882)})]"
    using demo_started [OF ok, of now] by blast
  obtain ra rb rc wa wb wc where s2: "?ann ?a' 768 '''' w1 = Inr (Inr ra, wa)" "?ann ?b' 0 ''completed'' wa = Inr (Inr rb, wb)"
      "?ann ?c 1024 '''' wb = Inr (Inr rc, wc)" "tracked ?h portsABC 1 wc" "snd wc = 6"
      "seen ra = {(idB, 6882), (idC, 6883)}" "seen rb = {(idA, 6881), (idC, 6883)}" "seen rc = {(idA, 6881), (idB, 6882)}"
    using demo_middle [OF ok s1(2), of ?a' ?b' ?c now] s1(3) by auto
  obtain es5 w5 where s5: "stop_all ?ann [(?a', ''Peer A''), (?b', ''Peer B''), (?c, ''Peer C'')] wc = Inr (es5, w5)"
      "tracked ?h Map.empty 1 w5" "snd w5 = 9"
      "List.map_filter heard es5 = [(''Peer A'', Some {}), (''Peer B'', Some {}), (''Peer C'', Some {})]"
    using demo_stopped [OF ok s2(4), of ?a' ?b' ?c now] s2(5) by auto
  obtain torrent where torrent: "ParseTorrent (bytes_of_string torrentData) = Inr torrent"
      "Torrent_File.Announce torrent = ?t" "Info torrent = demo_info" "Torrent_File.InfoHash torrent = ?h"
    by (rule demo_torrent)
  have size: "Length demo_info = 1024" "wrap64 768 = 768" by (simp_all add: demo_info_def int64_ok_def)
  have names: "zip [?a', ?b', ?c] (map (snd \<circ> snd) example_peers) = [(?a', ''Peer A''), (?b', ''Peer B''), (?c, ''Peer C'')]"
    by (simp add: example_peers_alt)
  have "\<exists>es. testMultiplePeers ?ann 1024 (NewMemoryStorage, 0) = Inr (es, w5) \<and>
    List.map_filter heard es = List.map_filter heard es1 @
      [(''Peer A'', Some (seen ra)), (''Peer B'', Some (seen rb)), (''Peer C'', Some (seen rc))] @ List.map_filter heard es5"
    using s1(1) s2(1-3) s5(1) names
    by (simp add: testMultiplePeers_def Let_def size List.map_filter_simps reply_of_def)
  then obtain es where "testMultiplePeers ?ann 1024 (NewMemoryStorage, 0) = Inr (es, w5)"
      "List.map_filter heard es = List.map_filter heard es1 @
      [(''Peer A'', Some (seen ra)), (''Peer B'', Some (seen rb)), (''Peer C'', Some (seen rc))] @ List.map_filter heard es5"
    by blast
  moreover from s5(2) have "mem_view (fst w5) ?h = Map.empty" "mem_count (fst w5) ?h = 1"
    by (auto simp: tracked_def fun_eq_iff)
  ultimately show ?thesis
    using torrent s1(4) s2(6-8) s5(3,4) size by (simp add: example_main_def List.map_filter_simps)
qed

theorem example_runs_witness:
  "\<exists>es w'. example_main sample_parse (tracker_session (\<lambda>v. Some (benc v)) (\<lambda>_. key_order) (\<lambda>n. int n) (\<lambda>_. ''127.0.0.1:4000''))
      (NewMemoryStorage, 0) = Some (Inr (es, w')) \<and> length (List.map_filter heard es) = 9 \<and>
    mem_view (fst w') (sha1_Sum demo_bytes) = Map.empty"
  using example_runs [OF marshals_benc, of "\<lambda>_. key_order" "\<lambda>_. ''127.0.0.1:4000''" sample_parse "\<lambda>n. int n"]
    order_ok_key_order sample_session(1) by fastforce

end
